(* ===== verification/Prelude.thy ===== *)
theory Prelude
  imports Main "HOL-Library.Word" "HOL-Library.List_Lexorder" "HOL-Library.Char_ord"
begin

text \<open>
  Shared vocabulary of the development: the machine types of the Go sources, Go errors and
  panics as values, and the generic lemmas on big-endian byte strings that the store and the
  signing service share. No definition of this theory models a line of the repository; they
  name the Go types and the pieces of the Go runtime the components are written with.
\<close>

section \<open>Machine types\<close>

text \<open>
  \<open>uint8\<close>, \<open>uint64\<close> and \<open>int64\<close> keep their width. An \<open>int64\<close> is the same
  64-bit word read with \<open>sint\<close>. A \<open>[]byte\<close> is a list of bytes, a Go \<open>string\<close> a list of
  8-bit characters, and a \<open>*big.Int\<close> an optional integer: the nil pointer is \<open>None\<close>.
\<close>

type_synonym u8 = "8 word"
type_synonym u64 = "64 word"
type_synonym i64 = "64 word"
type_synonym bytes = "u8 list"
type_synonym bigint = "int option"

section \<open>Errors and panics\<close>

text \<open>
  A Go function that returns \<open>(T, error)\<close> is modelled as a value of \<open>'a res\<close>. The typed
  errors are those of \<open>chainService/common/errors.go\<close>; every other error is \<open>ErrMsg\<close> with
  its text or \<open>ErrLib\<close> when a library built it. A panic ends the goroutine it is raised in
  and is \<open>Panic\<close>, so that it is a branch of the model and never confused with an error value.
\<close>

datatype gerror =
    ErrMsg string
  | ErrLib string
  | TimeOutErr
  | InvalidSignatureErr string string
  | AlreadyRelayedPacket
  | ErrPacketNotFound u64 string string u64
  | Panic string

type_synonym 'a res = "gerror + 'a"

primrec is_panic :: "gerror \<Rightarrow> bool" where
  "is_panic (ErrMsg s) = False"
| "is_panic (ErrLib s) = False"
| "is_panic TimeOutErr = False"
| "is_panic (InvalidSignatureErr h s) = False"
| "is_panic AlreadyRelayedPacket = False"
| "is_panic (ErrPacketNotFound n s d h) = False"
| "is_panic (Panic s) = True"

definition nil_deref :: gerror where
  "nil_deref = Panic ''runtime error: invalid memory address or nil pointer dereference''"

definition index_range :: gerror where
  "index_range = Panic ''runtime error: index out of range''"

lemma is_panic_runtime [simp]: "is_panic nil_deref" "is_panic index_range"
  by (simp_all add: nil_deref_def index_range_def)

text \<open>Evaluating a list of fallible results left to right, stopping at the first failure.\<close>

fun seq_res :: "'a res list \<Rightarrow> 'a list res" where
  "seq_res [] = Inr []"
| "seq_res (Inl e # xs) = Inl e"
| "seq_res (Inr x # xs) = (case seq_res xs of Inl e \<Rightarrow> Inl e | Inr ys \<Rightarrow> Inr (x # ys))"

lemma seq_res_Inr: "seq_res xs = Inr ys \<longleftrightarrow> xs = map Inr ys"
proof (induction xs arbitrary: ys rule: seq_res.induct)
  case (3 x xs)
  show ?case
  proof (cases "seq_res xs")
    case (Inl e)
    then have "\<And>zs. xs \<noteq> map Inr zs" using "3.IH" by fastforce
    with Inl show ?thesis by (auto simp: map_eq_Cons_conv)
  next
    case (Inr zs)
    then have "xs = map Inr zs" using "3.IH" by blast
    with Inr show ?thesis by (cases ys) (auto simp: inj_map_eq_map)
  qed
qed auto

lemma seq_res_map_Inr: "(\<And>x. x \<in> set xs \<Longrightarrow> f x = Inr (g x)) \<Longrightarrow> seq_res (map f xs) = Inr (map g xs)"
  by (induction xs) auto

lemma seq_res_map_Inl:
  "x \<in> set xs \<Longrightarrow> f x = Inl e \<Longrightarrow> \<exists>e'. seq_res (map f xs) = Inl e'"
proof (induction xs)
  case (Cons a xs)
  then show ?case by (cases "f a") (auto split: sum.splits)
qed simp

section \<open>Collections\<close>

named_theorems go_defs \<open>definitions a proof about a component unfolds\<close>
named_theorems be_simps \<open>facts about the big-endian encoding of integers\<close>

section \<open>Big-endian encodings\<close>

text \<open>The value of a byte string read with its most significant byte first.\<close>

definition be_nat :: "bytes \<Rightarrow> nat" where
  "be_nat = foldl (\<lambda>a b. a * 256 + unat b) 0"

lemma be_nat_Nil [be_simps]: "be_nat [] = 0"
  by (simp add: be_nat_def)

lemma be_nat_snoc [be_simps]: "be_nat (xs @ [b]) = be_nat xs * 256 + unat b"
  by (simp add: be_nat_def)

lemma be_nat_append: "be_nat (xs @ ys) = be_nat xs * 256 ^ length ys + be_nat ys"
proof (induction ys rule: rev_induct)
  case Nil
  then show ?case by (simp add: be_simps)
next
  case (snoc y ys)
  have "be_nat (xs @ ys @ [y]) = be_nat (xs @ ys) * 256 + unat y"
    using be_nat_snoc [of "xs @ ys" y] by simp
  with snoc show ?case by (simp add: be_simps algebra_simps)
qed

lemma be_nat_Cons: "be_nat (b # xs) = unat b * 256 ^ length xs + be_nat xs"
  using be_nat_append [of "[b]" xs] be_nat_snoc [of "[]" b] by (simp add: be_simps)

lemma unat_u8_le: "unat (b :: u8) \<le> 255"
  using unsigned_less [of b, where ?'a = nat] by simp

lemma be_nat_bound: "be_nat xs < 256 ^ length xs"
proof (induction xs)
  case Nil
  then show ?case by (simp add: be_simps)
next
  case (Cons b xs)
  have "unat b * 256 ^ length xs \<le> 255 * 256 ^ length xs"
    by (rule mult_right_mono [OF unat_u8_le]) simp
  moreover have "(256 :: nat) ^ length (b # xs) = 255 * 256 ^ length xs + 256 ^ length xs" by simp
  ultimately show ?case using Cons unfolding be_nat_Cons by linarith
qed

text \<open>
  On byte strings of one length the numeric order is the lexicographic order in which a
  cursor of the key-value store walks a bucket.
\<close>

lemma be_nat_Cons_less:
  fixes x y :: u8
  assumes len: "length xs = length ys" and xy: "x < y"
  shows "be_nat (x # xs) < be_nat (y # ys)"
proof -
  have "be_nat (x # xs) < (unat x + 1) * 256 ^ length xs"
    using be_nat_bound [of xs] by (simp add: be_nat_Cons algebra_simps)
  also have "\<dots> \<le> unat y * 256 ^ length xs"
    using xy by (intro mult_right_mono) (auto simp: word_less_nat_alt)
  also have "\<dots> \<le> be_nat (y # ys)" by (simp add: be_nat_Cons len)
  finally show ?thesis .
qed

lemma be_nat_less_iff:
  assumes "length xs = length ys"
  shows "be_nat xs < be_nat ys \<longleftrightarrow> xs < ys"
  using assms
proof (induction xs ys rule: list_induct2)
  case Nil
  then show ?case by simp
next
  case (Cons x xs y ys)
  consider "x < y" | "x = y" | "y < x" by fastforce
  then show ?case
  proof cases
    case 1
    then show ?thesis using be_nat_Cons_less [OF Cons.hyps 1] by (simp add: Cons_less_Cons)
  next
    case 2
    then show ?thesis using Cons by (simp add: be_nat_Cons Cons_less_Cons)
  next
    case 3
    then have "be_nat (y # ys) < be_nat (x # xs)"
      using be_nat_Cons_less [of ys xs y x] Cons.hyps by simp
    with 3 show ?thesis by (auto simp: Cons_less_Cons)
  qed
qed

lemma be_nat_inj:
  assumes "length xs = length ys" and "be_nat xs = be_nat ys"
  shows "xs = ys"
  using be_nat_less_iff [OF assms(1)] be_nat_less_iff [OF assms(1) [symmetric]] assms(2)
  by (metis less_irrefl neq_iff)

text \<open>
  The \<open>n\<close> low-order bytes of a number, most significant first: what
  \<open>binary.BigEndian.PutUint64\<close> writes for eight bytes and \<open>big.Int.FillBytes\<close> for the length of
  its buffer.
\<close>

fun be_bytes :: "nat \<Rightarrow> nat \<Rightarrow> bytes" where
  "be_bytes 0 v = []"
| "be_bytes (Suc n) v = be_bytes n (v div 256) @ [of_nat v]"

lemma length_be_bytes [simp]: "length (be_bytes n v) = n"
  by (induction n arbitrary: v) auto

lemma unat_of_nat_u8 [simp]: "unat (of_nat v :: u8) = v mod 256"
  by (simp add: unsigned_of_nat take_bit_eq_mod)

lemma be_nat_be_bytes [be_simps]: "be_nat (be_bytes n v) = v mod 256 ^ n"
proof (induction n arbitrary: v)
  case 0
  then show ?case by (simp add: be_simps)
next
  case (Suc n)
  have "v mod (256 * 256 ^ n) = v div 256 mod 256 ^ n * 256 + v mod 256"
    by (subst mod_mult2_eq) (simp only: mult.commute)
  then have "v mod 256 ^ Suc n = v div 256 mod 256 ^ n * 256 + v mod 256"
    by (simp only: power_Suc)
  with Suc show ?case by (simp add: be_simps)
qed

lemma be_bytes_inj:
  assumes "be_bytes n v = be_bytes n w" and "v < 256 ^ n" and "w < 256 ^ n"
  shows "v = w"
proof -
  have "v = be_nat (be_bytes n v)" using assms(2) by (simp add: be_simps)
  also have "\<dots> = be_nat (be_bytes n w)" by (simp only: assms(1))
  also have "\<dots> = w" using assms(3) by (simp add: be_simps)
  finally show ?thesis .
qed

text \<open>
  \<open>binary.BigEndian.PutUint64\<close> into a buffer of eight bytes, and \<open>binary.BigEndian.Uint64\<close>,
  which reads the first eight bytes and panics when there are fewer.
\<close>

definition be64 :: "u64 \<Rightarrow> bytes" where
  "be64 v = be_bytes 8 (unat v)"

definition be_uint64 :: "bytes \<Rightarrow> u64 res" where
  "be_uint64 b = (if length b < 8 then Inl index_range else Inr (of_nat (be_nat (take 8 b))))"

lemma length_be64 [simp]: "length (be64 v) = 8"
  by (simp add: be64_def)

lemma be64_nonempty [simp]: "be64 v \<noteq> []"
  using length_be64 [of v] by (metis length_0_conv zero_neq_numeral)

lemma be_nat_be64 [be_simps]: "be_nat (be64 v) = unat v"
  using unsigned_less [of v, where ?'a = nat] by (simp add: be64_def be_simps)

lemma be_uint64_be64 [simp]: "be_uint64 (be64 v) = Inr v"
  by (simp add: be_uint64_def be_simps)

lemma be64_inj [simp]: "be64 v = be64 w \<longleftrightarrow> v = w"
  by (metis be_nat_be64 word_unat_eq_iff)

lemma be64_less_iff [simp]: "be64 v < be64 w \<longleftrightarrow> v < w"
  using be_nat_less_iff [of "be64 v" "be64 w"] by (simp add: be_simps word_less_nat_alt)

lemma be64_le_iff [simp]: "be64 v \<le> be64 w \<longleftrightarrow> v \<le> w"
  by (metis be64_less_iff linorder_not_le)

lemma be_uint64_Inr_be64:
  assumes "be_uint64 b = Inr v" and "length b = 8"
  shows "b = be64 v"
proof (rule be_nat_inj)
  show "length b = length (be64 v)" using assms by simp
  have "be_nat b < 2 ^ 64" using be_nat_bound [of b] assms(2) by simp
  then show "be_nat b = be_nat (be64 v)"
    using assms by (auto simp: be_uint64_def be_simps unsigned_of_nat take_bit_nat_eq_self)
qed

section \<open>Arithmetic on words\<close>

lemma unat_Suc_u64: "unat (x :: u64) < 2 ^ 64 - 1 \<Longrightarrow> unat (x + 1) = unat x + 1"
  by (simp add: unat_word_ariths)

lemma u64_Suc_no_wrap: "(x :: u64) < y \<Longrightarrow> unat (x + 1) = unat x + 1"
  using unsigned_less [of y, where ?'a = nat] by (intro unat_Suc_u64) (simp add: word_less_nat_alt)

end
