(* ===== verification/GoText.thy ===== *)
theory GoText
  imports Prelude "HOL-Library.Sublist"
begin

text \<open>
  The parts of the Go standard library that turn values into text and back, as far as the
  sources use them: decimal formatting (\<open>fmt\<close>'s \<open>%d\<close>, \<open>strconv.Itoa\<close>,
  \<open>big.Int.String\<close>), the parsers \<open>big.Int.SetString\<close> in base 10 and base 0,
  \<open>strconv.ParseInt\<close>, \<open>strconv.Atoi\<close> and \<open>strconv.ParseUint\<close> in base 0, and from
  \<open>strings\<close>: \<open>Split\<close>, \<open>Join\<close>, \<open>Replace\<close>, \<open>ReplaceAll\<close>, \<open>NewReplacer\<close>,
  \<open>Count\<close>, \<open>Contains\<close>, \<open>Trim\<close>. All separators and patterns of the sources are
  non-empty, and the definitions follow the library for non-empty patterns.
\<close>

section \<open>Printing numbers\<close>

definition digit_char :: "nat \<Rightarrow> char" where
  "digit_char d = char_of (48 + d)"

fun itoa :: "nat \<Rightarrow> string" where
  "itoa n = (if n < 10 then [digit_char n] else itoa (n div 10) @ [digit_char (n mod 10)])"

declare itoa.simps [simp del]

definition itoa_int :: "int \<Rightarrow> string" where
  "itoa_int i = (if i < 0 then CHR ''-'' # itoa (nat (- i)) else itoa (nat i))"

text \<open>\<open>fmt.Sprintf("%d", w)\<close> for an unsigned machine integer.\<close>

definition itoa_word :: "'a::len word \<Rightarrow> string" where
  "itoa_word w = itoa (unat w)"

text \<open>\<open>(*big.Int).String\<close> and \<open>fmt\<close>'s verbs on a \<open>*big.Int\<close>: the nil pointer prints as text.\<close>

definition bigint_str :: "bigint \<Rightarrow> string" where
  "bigint_str b = (case b of None \<Rightarrow> ''<nil>'' | Some i \<Rightarrow> itoa_int i)"

section \<open>Reading numbers\<close>

definition digit_val :: "char \<Rightarrow> nat option" where
  "digit_val c =
     (let n = of_char c :: nat in
      if 48 \<le> n \<and> n \<le> 57 then Some (n - 48)
      else if 97 \<le> n \<and> n \<le> 122 then Some (n - 87)
      else if 65 \<le> n \<and> n \<le> 90 then Some (n - 55)
      else None)"

text \<open>All characters must be digits below the base; the value is accumulated left to right.\<close>

fun digits_from :: "nat \<Rightarrow> nat \<Rightarrow> string \<Rightarrow> nat option" where
  "digits_from b acc [] = Some acc"
| "digits_from b acc (c # cs) =
     (case digit_val c of
        None \<Rightarrow> None
      | Some d \<Rightarrow> if d < b then digits_from b (acc * b + d) cs else None)"

text \<open>An optional sign in front of a number.\<close>

definition split_sign :: "string \<Rightarrow> bool \<times> string" where
  "split_sign s =
     (case s of
        c # cs \<Rightarrow> if c = CHR ''-'' then (True, cs) else if c = CHR ''+'' then (False, cs) else (False, s)
      | [] \<Rightarrow> (False, []))"

definition apply_sign :: "bool \<Rightarrow> nat \<Rightarrow> int" where
  "apply_sign neg n = (if neg then - int n else int n)"

text \<open>\<open>new(big.Int).SetString(s, 10)\<close>: the whole text must be a signed decimal number.\<close>

definition big_set10 :: "string \<Rightarrow> int option" where
  "big_set10 s =
     (let (neg, r) = split_sign s in
      if r = [] then None else map_option (apply_sign neg) (digits_from 10 0 r))"

text \<open>
  \<open>SetString(s, 0)\<close> recognises the prefixes \<open>0b\<close>, \<open>0o\<close>, \<open>0x\<close> and a leading \<open>0\<close> for
  octal, and allows an underscore directly after a digit or the prefix. The scanner keeps the
  kind of the previous character: \<open>PrevStart\<close> before anything was read, \<open>PrevDigit\<close> after a
  digit or a leading zero, \<open>PrevSep\<close> after an underscore.
\<close>

datatype prev_kind = PrevStart | PrevDigit | PrevSep

fun nat_scan0 :: "nat \<Rightarrow> prev_kind \<Rightarrow> bool \<Rightarrow> nat \<Rightarrow> nat \<Rightarrow> string \<Rightarrow> (nat \<times> nat) option" where
  "nat_scan0 b prev inval acc count [] =
     (if inval \<or> prev = PrevSep then None else Some (acc, count))"
| "nat_scan0 b prev inval acc count (c # cs) =
     (if c = CHR ''_'' then nat_scan0 b PrevSep (inval \<or> prev \<noteq> PrevDigit) acc count cs
      else case digit_val c of
             None \<Rightarrow> None
           | Some d \<Rightarrow>
               if d < b then nat_scan0 b PrevDigit inval (acc * b + d) (Suc count) cs else None)"

definition big_scan0 :: "string \<Rightarrow> nat option" where
  "big_scan0 r =
     (let need = (\<lambda>res. case res of
                      Some (v, n) \<Rightarrow> if n = 0 then None else Some v
                    | None \<Rightarrow> None)
      in case r of
           [] \<Rightarrow> None
         | c # cs \<Rightarrow>
             if c \<noteq> CHR ''0'' then need (nat_scan0 10 PrevStart False 0 0 r)
             else (case cs of
                     [] \<Rightarrow> Some 0
                   | p # ds \<Rightarrow>
                       if p \<in> {CHR ''b'', CHR ''B''} then need (nat_scan0 2 PrevDigit False 0 0 ds)
                       else if p \<in> {CHR ''o'', CHR ''O''} then need (nat_scan0 8 PrevDigit False 0 0 ds)
                       else if p \<in> {CHR ''x'', CHR ''X''} then need (nat_scan0 16 PrevDigit False 0 0 ds)
                       else map_option fst (nat_scan0 8 PrevDigit False 0 0 cs)))"

definition big_set0 :: "string \<Rightarrow> int option" where
  "big_set0 s = (let (neg, r) = split_sign s in map_option (apply_sign neg) (big_scan0 r))"

text \<open>
  \<open>big.Int.Uint64\<close>: the low 64 bits of the magnitude. The library leaves the result undefined for
  a value outside the range of \<open>uint64\<close>; this is what its implementation returns.
\<close>

definition big_uint64 :: "int \<Rightarrow> u64" where
  "big_uint64 i = of_nat (nat \<bar>i\<bar>)"

text \<open>\<open>strconv.ParseInt(s, 10, 64)\<close>, and \<open>strconv.Atoi\<close> on a 64-bit platform.\<close>

definition parse_int64 :: "string \<Rightarrow> int option" where
  "parse_int64 s =
     (case big_set10 s of
        None \<Rightarrow> None
      | Some i \<Rightarrow> if - (2 ^ 63) \<le> i \<and> i < 2 ^ 63 then Some i else None)"

text \<open>
  \<open>strconv.ParseUint(s, 0, bits)\<close>. Underscores are skipped while the digits are read and checked
  by \<open>underscore_ok\<close> on the whole text afterwards.
\<close>

definition to_lower :: "char \<Rightarrow> char" where
  "to_lower c = (let n = of_char c :: nat in if 65 \<le> n \<and> n \<le> 90 then char_of (n + 32) else c)"

fun underscore_scan :: "bool \<Rightarrow> prev_kind \<Rightarrow> string \<Rightarrow> bool" where
  "underscore_scan hex saw [] = (saw \<noteq> PrevSep)"
| "underscore_scan hex saw (c # cs) =
     (if (case digit_val c of Some d \<Rightarrow> d < 10 \<or> hex \<and> d < 16 | None \<Rightarrow> False)
      then underscore_scan hex PrevDigit cs
      else if c = CHR ''_'' then (saw = PrevDigit \<and> underscore_scan hex PrevSep cs)
      else (saw \<noteq> PrevSep \<and> underscore_scan hex PrevStart cs))"

definition underscore_ok :: "string \<Rightarrow> bool" where
  "underscore_ok s =
     (case snd (split_sign s) of
        z # p # ds \<Rightarrow>
          if z = CHR ''0'' \<and> to_lower p \<in> {CHR ''b'', CHR ''o'', CHR ''x''}
          then underscore_scan (to_lower p = CHR ''x'') PrevDigit ds
          else underscore_scan False PrevStart (z # p # ds)
      | r \<Rightarrow> underscore_scan False PrevStart r)"

definition uint_base0 :: "string \<Rightarrow> nat \<times> string" where
  "uint_base0 s =
     (case s of
        z # rest \<Rightarrow>
          if z \<noteq> CHR ''0'' then (10, s)
          else (case rest of
                  p # d # ds \<Rightarrow>
                    if to_lower p = CHR ''b'' then (2, d # ds)
                    else if to_lower p = CHR ''o'' then (8, d # ds)
                    else if to_lower p = CHR ''x'' then (16, d # ds)
                    else (8, rest)
                | _ \<Rightarrow> (8, rest))
      | [] \<Rightarrow> (10, []))"

definition parse_uint0 :: "nat \<Rightarrow> string \<Rightarrow> nat option" where
  "parse_uint0 bits s =
     (if s = [] then None
      else let (b, r) = uint_base0 s in
           case digits_from b 0 (filter (\<lambda>c. c \<noteq> CHR ''_'') r) of
             None \<Rightarrow> None
           | Some v \<Rightarrow>
               if 2 ^ bits \<le> v then None
               else if CHR ''_'' \<in> set r \<and> \<not> underscore_ok s then None
               else Some v)"

section \<open>Package strings\<close>

text \<open>\<open>strings.Split\<close> by a separator of one byte.\<close>

fun go_split :: "char \<Rightarrow> string \<Rightarrow> string list" where
  "go_split sep [] = [[]]"
| "go_split sep (c # cs) =
     (if c = sep then [] # go_split sep cs
      else case go_split sep cs of
             [] \<Rightarrow> [[c]]
           | w # ws \<Rightarrow> (c # w) # ws)"

fun go_join :: "'a list \<Rightarrow> 'a list list \<Rightarrow> 'a list" where
  "go_join sep [] = []"
| "go_join sep [w] = w"
| "go_join sep (w # v # ws) = w @ sep @ go_join sep (v # ws)"

text \<open>\<open>strings.ReplaceAll\<close>, \<open>strings.Count\<close> (both without overlaps) and \<open>strings.Replace\<close> with limit 1.\<close>

fun replace_all :: "string \<Rightarrow> string \<Rightarrow> string \<Rightarrow> string" where
  "replace_all old new [] = []"
| "replace_all old new (c # cs) =
     (if old \<noteq> [] \<and> prefix old (c # cs)
      then new @ replace_all old new (drop (length old - 1) cs)
      else c # replace_all old new cs)"

fun str_count :: "string \<Rightarrow> string \<Rightarrow> nat" where
  "str_count sub [] = 0"
| "str_count sub (c # cs) =
     (if sub \<noteq> [] \<and> prefix sub (c # cs)
      then Suc (str_count sub (drop (length sub - 1) cs))
      else str_count sub cs)"

fun replace_first :: "string \<Rightarrow> string \<Rightarrow> string \<Rightarrow> string" where
  "replace_first old new [] = []"
| "replace_first old new (c # cs) =
     (if old \<noteq> [] \<and> prefix old (c # cs) then new @ drop (length old - 1) cs
      else c # replace_first old new cs)"

definition str_contains :: "string \<Rightarrow> string \<Rightarrow> bool" where
  "str_contains s sub = sublist sub s"

text \<open>\<open>strings.NewReplacer(\<dots>).Replace\<close>: at each position the first pair whose old text matches.\<close>

fun replacer :: "(string \<times> string) list \<Rightarrow> string \<Rightarrow> string" where
  "replacer ps [] = []"
| "replacer ps (c # cs) =
     (case find (\<lambda>(old, new). old \<noteq> [] \<and> prefix old (c # cs)) ps of
        Some (old, new) \<Rightarrow> new @ replacer ps (drop (length old - 1) cs)
      | None \<Rightarrow> c # replacer ps cs)"

text \<open>\<open>strings.Trim(s, " ")\<close>.\<close>

definition trim_spaces :: "string \<Rightarrow> string" where
  "trim_spaces s =
     rev (dropWhile (\<lambda>c. c = CHR '' '') (rev (dropWhile (\<lambda>c. c = CHR '' '') s)))"

section \<open>Facts about numbers as text\<close>

lemma of_char_digit [simp]: "d < 10 \<Longrightarrow> (of_char (digit_char d) :: nat) = 48 + d"
  by (simp add: digit_char_def)

lemma digit_val_digit_char [simp]: "d < 10 \<Longrightarrow> digit_val (digit_char d) = Some d"
  by (simp add: digit_val_def)

lemma digits_from_append:
  "digits_from b acc (xs @ ys) =
     (case digits_from b acc xs of None \<Rightarrow> None | Some a \<Rightarrow> digits_from b a ys)"
  by (induction xs arbitrary: acc) (auto split: option.splits)

lemma digits_from_itoa:
  "digits_from 10 acc (itoa n) = Some (acc * 10 ^ length (itoa n) + n)"
proof (induction n arbitrary: acc rule: itoa.induct)
  case (1 n)
  show ?case
  proof (cases "n < 10")
    case True
    then show ?thesis by (simp add: itoa.simps [of n])
  next
    case False
    let ?m = "n div 10"
    have "itoa n = itoa ?m @ [digit_char (n mod 10)]"
      using False by (simp add: itoa.simps [of n])
    then show ?thesis
      using "1.IH" [OF False, of acc] by (simp add: digits_from_append algebra_simps)
  qed
qed

lemma itoa_nonempty [simp]: "itoa n \<noteq> []"
  by (subst itoa.simps) simp

lemma itoa_digits: "c \<in> set (itoa n) \<Longrightarrow> \<exists>d < 10. c = digit_char d"
proof (induction n rule: itoa.induct)
  case (1 n)
  then show ?case
    by (subst (asm) (2) itoa.simps) (auto split: if_splits intro: exI [of _ "n mod 10"])
qed

definition is_digit :: "char \<Rightarrow> bool" where
  "is_digit c = (48 \<le> (of_char c :: nat) \<and> (of_char c :: nat) \<le> 57)"

lemma itoa_all_digits: "list_all is_digit (itoa n)"
  unfolding list_all_iff
proof
  fix c
  assume "c \<in> set (itoa n)"
  then obtain d where "d < 10" "c = digit_char d" using itoa_digits by blast
  then show "is_digit c" by (simp add: is_digit_def)
qed

lemma not_digit_in_itoa: "\<not> is_digit c \<Longrightarrow> c \<notin> set (itoa n)"
  using itoa_all_digits [of n] by (auto simp: list_all_iff)

lemma hd_itoa_no_sign: "split_sign (itoa n) = (False, itoa n)"
  using not_digit_in_itoa [of "CHR ''-''" n] not_digit_in_itoa [of "CHR ''+''" n]
  by (cases "itoa n") (auto simp: split_sign_def is_digit_def)

lemma itoa_inj: "itoa m = itoa n \<Longrightarrow> m = n"
  by (metis add_0 digits_from_itoa mult_zero_left option.inject)

text \<open>Decimal printing and \<open>SetString(_, 10)\<close> are inverse.\<close>

lemma big_set10_itoa [simp]: "big_set10 (itoa n) = Some (int n)"
  by (simp add: big_set10_def hd_itoa_no_sign digits_from_itoa apply_sign_def)

lemma big_set10_itoa_int [simp]: "big_set10 (itoa_int i) = Some i"
proof (cases "i < 0")
  case True
  then show ?thesis
    by (simp add: itoa_int_def big_set10_def split_sign_def digits_from_itoa apply_sign_def)
next
  case False
  then show ?thesis by (simp add: itoa_int_def)
qed

lemma itoa_int_inj [simp]: "itoa_int i = itoa_int j \<longleftrightarrow> i = j"
  by (metis big_set10_itoa_int option.inject)

lemma big_uint64_unat [simp]: "big_uint64 (int (unat w)) = w"
  by (simp add: big_uint64_def)

section \<open>Facts about splitting and joining\<close>

lemma go_split_nonempty [simp]: "go_split sep s \<noteq> []"
  by (induction s) (auto split: list.splits)

lemma go_split_no_sep: "sep \<notin> set s \<Longrightarrow> go_split sep s = [s]"
  by (induction s) auto

lemma go_split_append_sep:
  "sep \<notin> set w \<Longrightarrow> go_split sep (w @ sep # s) = w # go_split sep s"
  by (induction w) auto

lemma go_split_join:
  "ws \<noteq> [] \<Longrightarrow> \<forall>w \<in> set ws. sep \<notin> set w \<Longrightarrow> go_split sep (go_join [sep] ws) = ws"
  by (induction "[sep]" ws rule: go_join.induct) (auto simp: go_split_no_sep go_split_append_sep)

end
