(* ===== verification/Packets.thy ===== *)
theory Packets
  imports GoText Sha256
begin

text \<open>
  The data of \<open>chainService/chain/types.go\<close> that every other component passes around, and the
  texts of the typed errors of \<open>chainService/common/errors.go\<close>. A record field keeps the order
  of the Go struct. \<open>big.Int\<close> fields are pointers in Go and may be nil, so they are \<open>bigint\<close>.
\<close>

section \<open>Packets\<close>

record network_address =
  na_chain_id :: bigint
  na_address :: string

record message =
  m_dest_token_address :: string
  m_sender_address :: string
  m_amount :: bigint
  m_receiver_address :: string

record packet =
  p_version :: u8
  p_source :: network_address
  p_destination :: network_address
  p_sequence :: u64
  p_message :: message
  p_height :: u64
  p_is_missed :: bool

definition IsMissed :: "packet \<Rightarrow> bool" where
  "IsMissed p = p_is_missed p"

definition SetMissed :: "packet \<Rightarrow> bool \<Rightarrow> packet" where
  "SetMissed p b = p\<lparr>p_is_missed := b\<rparr>"

record screened_packet =
  sp_packet :: packet
  sp_is_white :: bool

record missed_packet =
  mp_target_chain_id :: bigint
  mp_source_chain_id :: bigint
  mp_seq_num :: u64
  mp_height :: u64
  mp_txn_id :: string

text \<open>The elements of \<open>Data\<close> are pointers, nil for a JSON null.\<close>

record missed_packet_details =
  mpd_data :: "missed_packet option list"
  mpd_message :: string

record collector_response =
  cr_message :: string

text \<open>The zero values Go gives to freshly allocated structs.\<close>

definition zero_address :: network_address where
  "zero_address = \<lparr>na_chain_id = None, na_address = []\<rparr>"

definition zero_message :: message where
  "zero_message = \<lparr>m_dest_token_address = [], m_sender_address = [], m_amount = None,
                    m_receiver_address = []\<rparr>"

definition zero_packet :: packet where
  "zero_packet = \<lparr>p_version = 0, p_source = zero_address, p_destination = zero_address,
                   p_sequence = 0, p_message = zero_message, p_height = 0, p_is_missed = False\<rparr>"

definition zero_missed_packet :: missed_packet where
  "zero_missed_packet = \<lparr>mp_target_chain_id = None, mp_source_chain_id = None, mp_seq_num = 0,
                          mp_height = 0, mp_txn_id = []\<rparr>"

section \<open>The text a packet is hashed under\<close>

text \<open>
  \<open>fmt.Sprint\<close> puts a space between two operands when neither is a string. A \<open>*big.Int\<close> next
  to a string therefore gets no separator, and the six operands of \<open>GetSha256Hash\<close>, none of
  which has a string kind, are separated by one space each.
\<close>

definition NetworkAddress_String :: "network_address \<Rightarrow> string" where
  "NetworkAddress_String n = bigint_str (na_chain_id n) @ na_address n"

definition Message_String :: "message \<Rightarrow> string" where
  "Message_String m =
     m_dest_token_address m @ m_sender_address m @ bigint_str (m_amount m) @ m_receiver_address m"

definition packet_text :: "packet \<Rightarrow> string" where
  "packet_text p =
     go_join '' '' [itoa_word (p_version p), NetworkAddress_String (p_source p),
       NetworkAddress_String (p_destination p), itoa_word (p_sequence p),
       Message_String (p_message p), itoa_word (p_height p)]"

definition GetSha256Hash :: "packet \<Rightarrow> string" where
  "GetSha256Hash p = hex_encode (sha256 (bytes_of_string (packet_text p)))"

lemma length_GetSha256Hash: "length (GetSha256Hash p) = 64"
  by (simp add: GetSha256Hash_def length_hex_encode)

lemma GetSha256Hash_nonempty [simp]: "GetSha256Hash p \<noteq> []"
  using length_GetSha256Hash [of p] by (metis length_0_conv zero_neq_numeral)

lemma GetSha256Hash_SetMissed [simp]: "GetSha256Hash (SetMissed p b) = GetSha256Hash p"
  by (simp add: GetSha256Hash_def packet_text_def SetMissed_def)

section \<open>Typed errors\<close>

definition error_text :: "gerror \<Rightarrow> string" where
  "error_text e =
     (case e of
        TimeOutErr \<Rightarrow> ''timeout''
      | InvalidSignatureErr h s \<Rightarrow> ''signature '' @ s @ '' is invalid for hash '' @ h
      | AlreadyRelayedPacket \<Rightarrow> ''packet aleady sent''
      | ErrPacketNotFound n src dst h \<Rightarrow>
          ''packet not found for sequence num '' @ itoa_word n @ ''. source: '' @ src
          @ '', destination: '' @ dst @ '', height: '' @ itoa_word h
      | ErrMsg s \<Rightarrow> s
      | ErrLib s \<Rightarrow> s
      | Panic s \<Rightarrow> s)"

text \<open>
  \<open>errors.Is(err, common.ErrPacketNotFound{})\<close>: the \<open>Is\<close> method compares the dynamic type
  only, not the fields. \<open>errors.Is(err, common.AlreadyRelayedPacket{})\<close> compares a struct
  without fields by equality.
\<close>

definition is_packet_not_found :: "gerror \<Rightarrow> bool" where
  "is_packet_not_found e = (case e of ErrPacketNotFound n s d h \<Rightarrow> True | _ \<Rightarrow> False)"

definition is_already_relayed :: "gerror \<Rightarrow> bool" where
  "is_already_relayed e = (e = AlreadyRelayedPacket)"

end
