(* ===== verification/Json.thy ===== *)
theory Json
  imports Packets
begin

text \<open>
  \<open>encoding/json\<close> as the sources use it: \<open>Marshal\<close> of packets (compact, with HTML escaping and
  Go's treatment of invalid UTF-8), the scanner of \<open>Unmarshal\<close> (RFC 8259 with a nesting limit
  of 10000), and its rules for filling structs: unknown keys are skipped, keys match exactly
  or else case-insensitively, null leaves a value alone and clears a pointer.
\<close>

section \<open>Documents\<close>

datatype json =
    JNull
  | JBool bool
  | JNum string
  | JStr string
  | JArr "json list"
  | JObj "(string \<times> json) list"

section \<open>UTF-8\<close>

definition in_range :: "nat \<Rightarrow> nat \<Rightarrow> char \<Rightarrow> bool" where
  "in_range lo hi c = (lo \<le> (of_char c :: nat) \<and> (of_char c :: nat) \<le> hi)"

definition is_cont :: "char \<Rightarrow> bool" where
  "is_cont = in_range 128 191"

text \<open>The length of the well-formed sequence at the front of a text, 0 when there is none.\<close>

fun utf8_len :: "string \<Rightarrow> nat" where
  "utf8_len [] = 0"
| "utf8_len (a # s) =
     (if in_range 0 127 a then 1
      else case s of
        [] \<Rightarrow> 0
      | b # s2 \<Rightarrow>
          if in_range 194 223 a \<and> is_cont b then 2
          else case s2 of
            [] \<Rightarrow> 0
          | c # s3 \<Rightarrow>
              if is_cont c \<and>
                 (in_range 224 224 a \<and> in_range 160 191 b \<or> in_range 225 236 a \<and> is_cont b \<or>
                  in_range 237 237 a \<and> in_range 128 159 b \<or> in_range 238 239 a \<and> is_cont b) then 3
              else case s3 of
                [] \<Rightarrow> 0
              | d # s4 \<Rightarrow>
                  if is_cont c \<and> is_cont d \<and>
                     (in_range 240 240 a \<and> in_range 144 191 b \<or> in_range 241 243 a \<and> is_cont b \<or>
                      in_range 244 244 a \<and> in_range 128 143 b) then 4
                  else 0)"

fun utf8_chunks :: "string \<Rightarrow> string list" where
  "utf8_chunks [] = []"
| "utf8_chunks (c # cs) =
     (let n = utf8_len (c # cs) - 1 in (c # take n cs) # utf8_chunks (drop n cs))"

text \<open>The encoding of a code point; \<open>replacement\<close> is U+FFFD.\<close>

definition utf8_encode :: "nat \<Rightarrow> string" where
  "utf8_encode v =
     (if v < 128 then [char_of v]
      else if v < 2048 then [char_of (192 + v div 64), char_of (128 + v mod 64)]
      else if v < 65536 then
        [char_of (224 + v div 4096), char_of (128 + v div 64 mod 64), char_of (128 + v mod 64)]
      else [char_of (240 + v div 262144), char_of (128 + v div 4096 mod 64),
            char_of (128 + v div 64 mod 64), char_of (128 + v mod 64)])"

definition replacement :: string where
  "replacement = utf8_encode 65533"

definition valid_chunk :: "string \<Rightarrow> bool" where
  "valid_chunk ch = (utf8_len ch \<noteq> 0)"

definition utf8_coerce :: "string \<Rightarrow> string" where
  "utf8_coerce s = concat (map (\<lambda>ch. if valid_chunk ch then ch else replacement) (utf8_chunks s))"

section \<open>Encoding\<close>

definition quote_byte :: "char \<Rightarrow> string" where
  "quote_byte c =
     (let n = of_char c :: nat in
      if c = CHR 0x22 \<or> c = CHR 0x5C then [CHR 0x5C, c]
      else if c = CHR 0x0A then [CHR 0x5C, CHR ''n'']
      else if c = CHR 0x0D then [CHR 0x5C, CHR ''r'']
      else if c = CHR 0x09 then [CHR 0x5C, CHR ''t'']
      else if n < 32 \<or> c = CHR ''<'' \<or> c = CHR ''>'' \<or> c = CHR ''&''
      then [CHR 0x5C, CHR ''u'', CHR ''0'', CHR ''0'', hex_digit (n div 16), hex_digit (n mod 16)]
      else [c])"

definition quote_chunk :: "string \<Rightarrow> string" where
  "quote_chunk ch =
     (if \<not> valid_chunk ch then CHR 0x5C # ''ufffd''
      else if ch = utf8_encode 8232 then CHR 0x5C # ''u2028''
      else if ch = utf8_encode 8233 then CHR 0x5C # ''u2029''
      else case ch of [c] \<Rightarrow> quote_byte c | _ \<Rightarrow> ch)"

definition quote :: "string \<Rightarrow> string" where
  "quote s = CHR 0x22 # concat (map quote_chunk (utf8_chunks s)) @ [CHR 0x22]"

fun print_json :: "json \<Rightarrow> string" where
  "print_json JNull = ''null''"
| "print_json (JBool b) = (if b then ''true'' else ''false'')"
| "print_json (JNum n) = n"
| "print_json (JStr s) = quote s"
| "print_json (JArr js) = ''['' @ go_join '','' (map print_json js) @ '']''"
| "print_json (JObj kvs) = ''{'' @ go_join '','' (map (\<lambda>(k, j). quote k @ '':'' @ print_json j) kvs) @ ''}''"

section \<open>Scanning\<close>

datatype jtoken =
    TLBrace | TRBrace | TLBrack | TRBrack | TColon | TComma
  | TStr string | TNum string | TTrue | TFalse | TNull

text \<open>
  The scanner reads one character at a time. Inside a string it keeps the decoded text in
  reverse and the high surrogate of an escape, if the last thing read was one.
\<close>

datatype lex_mode =
    LStart
  | LStr string "nat option"
  | LEsc string "nat option"
  | LHex string "nat option" nat nat
  | LNum string
  | LWord string

definition is_num_char :: "char \<Rightarrow> bool" where
  "is_num_char c = (is_digit c \<or> c \<in> {CHR ''-'', CHR ''+'', CHR ''.'', CHR ''e'', CHR ''E''})"

definition is_word_char :: "char \<Rightarrow> bool" where
  "is_word_char = in_range 97 122"

definition valid_exp :: "string \<Rightarrow> bool" where
  "valid_exp s =
     (case s of
        [] \<Rightarrow> True
      | c # r \<Rightarrow> c \<in> {CHR ''e'', CHR ''E''} \<and> snd (split_sign r) \<noteq> [] \<and>
                 list_all is_digit (snd (split_sign r)))"

definition valid_frac :: "string \<Rightarrow> bool" where
  "valid_frac s =
     (case s of
        c # r \<Rightarrow>
          if c = CHR ''.'' then takeWhile is_digit r \<noteq> [] \<and> valid_exp (dropWhile is_digit r)
          else valid_exp s
      | [] \<Rightarrow> True)"

definition valid_num :: "string \<Rightarrow> bool" where
  "valid_num s =
     (let r = (case s of c # cs \<Rightarrow> if c = CHR ''-'' then cs else s | [] \<Rightarrow> []);
          i = takeWhile is_digit r
      in i \<noteq> [] \<and> (hd i = CHR ''0'' \<longrightarrow> length i = 1) \<and> valid_frac (dropWhile is_digit r))"

definition start_char :: "char \<Rightarrow> (jtoken list \<times> lex_mode) option" where
  "start_char c =
     (if c \<in> {CHR '' '', CHR 0x09, CHR 0x0A, CHR 0x0D} then Some ([], LStart)
      else if c = CHR ''{'' then Some ([TLBrace], LStart)
      else if c = CHR ''}'' then Some ([TRBrace], LStart)
      else if c = CHR ''['' then Some ([TLBrack], LStart)
      else if c = CHR '']'' then Some ([TRBrack], LStart)
      else if c = CHR '':'' then Some ([TColon], LStart)
      else if c = CHR '','' then Some ([TComma], LStart)
      else if c = CHR 0x22 then Some ([], LStr [] None)
      else if is_digit c \<or> c = CHR ''-'' then Some ([], LNum [c])
      else if is_word_char c then Some ([], LWord [c])
      else None)"

definition word_token :: "string \<Rightarrow> jtoken option" where
  "word_token w =
     (if w = ''true'' then Some TTrue else if w = ''false'' then Some TFalse
      else if w = ''null'' then Some TNull else None)"

definition num_token :: "string \<Rightarrow> jtoken option" where
  "num_token n = (if valid_num n then Some (TNum n) else None)"

definition emit_then_start :: "jtoken option \<Rightarrow> char \<Rightarrow> (jtoken list \<times> lex_mode) option" where
  "emit_then_start t c =
     (case t of
        None \<Rightarrow> None
      | Some tok \<Rightarrow> map_option (\<lambda>(ts, m). (tok # ts, m)) (start_char c))"

text \<open>A high surrogate that no low surrogate follows decodes to the replacement character.\<close>

definition flush :: "string \<Rightarrow> nat option \<Rightarrow> string" where
  "flush acc pend = (case pend of None \<Rightarrow> acc | Some h \<Rightarrow> rev replacement @ acc)"

definition add_unit :: "string \<Rightarrow> nat option \<Rightarrow> nat \<Rightarrow> lex_mode" where
  "add_unit acc pend v =
     (if 55296 \<le> v \<and> v < 56320 then LStr (flush acc pend) (Some v)
      else if 56320 \<le> v \<and> v < 57344 then
        (case pend of
           Some h \<Rightarrow> LStr (rev (utf8_encode (65536 + (h - 55296) * 1024 + (v - 56320))) @ acc) None
         | None \<Rightarrow> LStr (rev replacement @ acc) None)
      else LStr (rev (utf8_encode v) @ flush acc pend) None)"

definition escape_char :: "char \<Rightarrow> char option" where
  "escape_char c =
     (if c \<in> {CHR 0x22, CHR 0x5C, CHR ''/''} then Some c
      else if c = CHR ''b'' then Some (CHR 0x08)
      else if c = CHR ''f'' then Some (CHR 0x0C)
      else if c = CHR ''n'' then Some (CHR 0x0A)
      else if c = CHR ''r'' then Some (CHR 0x0D)
      else if c = CHR ''t'' then Some (CHR 0x09)
      else None)"

fun lex_char :: "lex_mode \<Rightarrow> char \<Rightarrow> (jtoken list \<times> lex_mode) option" where
  "lex_char LStart c = start_char c"
| "lex_char (LNum acc) c =
     (if is_num_char c then Some ([], LNum (c # acc))
      else emit_then_start (num_token (rev acc)) c)"
| "lex_char (LWord acc) c =
     (if is_word_char c then Some ([], LWord (c # acc))
      else emit_then_start (word_token (rev acc)) c)"
| "lex_char (LStr acc pend) c =
     (if c = CHR 0x22 then Some ([TStr (utf8_coerce (rev (flush acc pend)))], LStart)
      else if c = CHR 0x5C then Some ([], LEsc acc pend)
      else if (of_char c :: nat) < 32 then None
      else Some ([], LStr (c # flush acc pend) None))"
| "lex_char (LEsc acc pend) c =
     (if c = CHR ''u'' then Some ([], LHex acc pend 0 0)
      else case escape_char c of
             None \<Rightarrow> None
           | Some d \<Rightarrow> Some ([], LStr (d # flush acc pend) None))"
| "lex_char (LHex acc pend n v) c =
     (case digit_val c of
        None \<Rightarrow> None
      | Some d \<Rightarrow>
          if 16 \<le> d then None
          else if n = 3 then Some ([], add_unit acc pend (v * 16 + d))
          else Some ([], LHex acc pend (Suc n) (v * 16 + d)))"

fun lex_end :: "lex_mode \<Rightarrow> jtoken list option" where
  "lex_end LStart = Some []"
| "lex_end (LNum acc) = map_option (\<lambda>t. [t]) (num_token (rev acc))"
| "lex_end (LWord acc) = map_option (\<lambda>t. [t]) (word_token (rev acc))"
| "lex_end m = None"

fun lex :: "lex_mode \<Rightarrow> string \<Rightarrow> jtoken list option" where
  "lex m [] = lex_end m"
| "lex m (c # cs) =
     (case lex_char m c of
        None \<Rightarrow> None
      | Some (ts, m') \<Rightarrow> map_option (\<lambda>us. ts @ us) (lex m' cs))"

section \<open>Parsing\<close>

text \<open>
  A pushdown automaton over the tokens, as the scanner's own: the stack holds the open arrays
  and objects with what they contain so far, in reverse.
\<close>

datatype frame =
    FArr "json list"
  | FObj "(string \<times> json) list"
  | FKey "(string \<times> json) list" string

datatype pstate = PVal | PArr0 | PObj0 | PKey | PColon string | PDone json

definition max_depth :: nat where
  "max_depth = 10000"

definition push_frame :: "frame \<Rightarrow> pstate \<Rightarrow> frame list \<Rightarrow> (pstate \<times> frame list) option" where
  "push_frame f st stk = (if length stk < max_depth then Some (st, f # stk) else None)"

fun value_token :: "jtoken \<Rightarrow> frame list \<Rightarrow> (pstate \<times> frame list) option" where
  "value_token (TStr s) stk = Some (PDone (JStr s), stk)"
| "value_token (TNum n) stk = Some (PDone (JNum n), stk)"
| "value_token TTrue stk = Some (PDone (JBool True), stk)"
| "value_token TFalse stk = Some (PDone (JBool False), stk)"
| "value_token TNull stk = Some (PDone JNull, stk)"
| "value_token TLBrace stk = push_frame (FObj []) PObj0 stk"
| "value_token TLBrack stk = push_frame (FArr []) PArr0 stk"
| "value_token t stk = None"

fun parse_token :: "pstate \<Rightarrow> frame list \<Rightarrow> jtoken \<Rightarrow> (pstate \<times> frame list) option" where
  "parse_token PVal stk t = value_token t stk"
| "parse_token PArr0 stk t =
     (if t = TRBrack then Some (PDone (JArr []), tl stk) else value_token t stk)"
| "parse_token PObj0 stk t =
     (case t of TRBrace \<Rightarrow> Some (PDone (JObj []), tl stk) | TStr k \<Rightarrow> Some (PColon k, stk) | _ \<Rightarrow> None)"
| "parse_token PKey stk t = (case t of TStr k \<Rightarrow> Some (PColon k, stk) | _ \<Rightarrow> None)"
| "parse_token (PColon k) (FObj fs # stk) t =
     (if t = TColon then Some (PVal, FKey fs k # stk) else None)"
| "parse_token (PDone j) (FArr xs # stk) t =
     (case t of TComma \<Rightarrow> Some (PVal, FArr (j # xs) # stk)
              | TRBrack \<Rightarrow> Some (PDone (JArr (rev (j # xs))), stk)
              | _ \<Rightarrow> None)"
| "parse_token (PDone j) (FKey fs k # stk) t =
     (case t of TComma \<Rightarrow> Some (PKey, FObj ((k, j) # fs) # stk)
              | TRBrace \<Rightarrow> Some (PDone (JObj (rev ((k, j) # fs))), stk)
              | _ \<Rightarrow> None)"
| "parse_token st stk t = None"

fun parse_tokens :: "pstate \<Rightarrow> frame list \<Rightarrow> jtoken list \<Rightarrow> json option" where
  "parse_tokens st stk [] = (case (st, stk) of (PDone j, []) \<Rightarrow> Some j | _ \<Rightarrow> None)"
| "parse_tokens st stk (t # ts) =
     (case parse_token st stk t of None \<Rightarrow> None | Some (st', stk') \<Rightarrow> parse_tokens st' stk' ts)"

definition parse_json :: "string \<Rightarrow> json option" where
  "parse_json s = (case lex LStart s of None \<Rightarrow> None | Some ts \<Rightarrow> parse_tokens PVal [] ts)"

section \<open>Scanning what was printed\<close>

lemma map_option_append_Nil [simp]: "map_option ((@) []) x = x"
  by (cases x) simp_all

lemma digit_val_0 [simp]: "digit_val (CHR ''0'') = Some 0"
  by (simp add: digit_val_def)

definition ascii :: "string \<Rightarrow> bool" where
  "ascii s = list_all (in_range 0 127) s"

lemma ascii_simps [simp]:
  "ascii []" "ascii (c # s) \<longleftrightarrow> (of_char c :: nat) < 128 \<and> ascii s"
  "ascii (s @ t) \<longleftrightarrow> ascii s \<and> ascii t"
  by (auto simp: ascii_def in_range_def)

lemma utf8_chunks_ascii: "ascii s \<Longrightarrow> utf8_chunks s = map (\<lambda>c. [c]) s"
  by (induction s) (auto simp: in_range_def Let_def)

lemma valid_chunk_ascii: "(of_char c :: nat) < 128 \<Longrightarrow> valid_chunk [c]"
  by (simp add: valid_chunk_def in_range_def)

lemma utf8_coerce_ascii: "ascii s \<Longrightarrow> utf8_coerce s = s"
  by (simp add: utf8_coerce_def utf8_chunks_ascii o_def)
    (induction s, auto simp: valid_chunk_ascii)

lemma quote_chunk_ascii: "(of_char c :: nat) < 128 \<Longrightarrow> quote_chunk [c] = quote_byte c"
  by (simp add: quote_chunk_def valid_chunk_ascii utf8_encode_def)

lemma quote_ascii: "ascii s \<Longrightarrow> quote s = CHR 0x22 # concat (map quote_byte s) @ [CHR 0x22]"
  by (simp add: quote_def utf8_chunks_ascii o_def)
    (induction s, auto simp: quote_chunk_ascii)

lemma digit_val_hex_digit [simp]: "d < 16 \<Longrightarrow> digit_val (hex_digit d) = Some d"
  by (auto simp: digit_val_def hex_digit_def Let_def)

lemma lex_quote_byte:
  assumes "(of_char c :: nat) < 128"
  shows "lex (LStr acc None) (quote_byte c @ rest) = lex (LStr (c # acc) None) rest"
proof -
  let ?n = "of_char c :: nat"
  have esc: "\<not> ?n < 32 \<Longrightarrow> \<not> c = CHR 0x22 \<Longrightarrow> \<not> c = CHR 0x5C \<Longrightarrow>
    lex_char (LStr acc None) c = Some ([], LStr (c # acc) None)"
    by (simp add: flush_def)
  have "add_unit acc None ?n = LStr (c # acc) None"
    using assms by (simp add: add_unit_def flush_def utf8_encode_def)
  moreover have "\<not> 16 \<le> ?n div 16" "\<not> 16 \<le> ?n mod 16" using assms by auto
  ultimately have hex: "lex (LStr acc None)
     ([CHR 0x5C, CHR ''u'', CHR ''0'', CHR ''0'', hex_digit (?n div 16), hex_digit (?n mod 16)] @ rest)
     = lex (LStr (c # acc) None) rest"
    using assms by simp
  show ?thesis
  proof (cases "c \<in> {CHR 0x22, CHR 0x5C, CHR 0x0A, CHR 0x0D, CHR 0x09}")
    case True
    then show ?thesis by (auto simp: quote_byte_def escape_char_def flush_def)
  next
    case special: False
    show ?thesis
    proof (cases "?n < 32 \<or> c = CHR ''<'' \<or> c = CHR ''>'' \<or> c = CHR ''&''")
      case True
      then have "quote_byte c = [CHR 0x5C, CHR ''u'', CHR ''0'', CHR ''0'',
          hex_digit (?n div 16), hex_digit (?n mod 16)]"
        using special by (simp add: quote_byte_def Let_def)
      then show ?thesis using hex by (simp only:)
    next
      case False
      then have "quote_byte c = [c]" using special by (simp add: quote_byte_def Let_def)
      then show ?thesis using esc special False by simp
    qed
  qed
qed

lemma lex_string_body:
  "ascii s \<Longrightarrow> ascii acc \<Longrightarrow>
   lex (LStr acc None) (concat (map quote_byte s) @ CHR 0x22 # rest) =
   map_option ((#) (TStr (rev acc @ s))) (lex LStart rest)"
proof (induction s arbitrary: acc)
  case Nil
  then have "utf8_coerce (rev acc) = rev acc"
    by (intro utf8_coerce_ascii) (simp add: ascii_def)
  then show ?case by (cases "lex LStart rest") (simp_all add: flush_def)
next
  case (Cons c s)
  then show ?case by (simp add: lex_quote_byte)
qed

lemma lex_quote:
  "ascii s \<Longrightarrow> lex LStart (quote s @ rest) = map_option ((#) (TStr s)) (lex LStart rest)"
  using lex_string_body [of s "[]" rest]
  by (cases "lex LStart rest") (simp_all add: quote_ascii start_char_def)

text \<open>What can follow a number or a word: the end of the text or one of these characters.\<close>

definition delim :: "string \<Rightarrow> bool" where
  "delim s = (case s of [] \<Rightarrow> True | c # cs \<Rightarrow> c \<in> {CHR '','', CHR '']'', CHR ''}''})"

definition wf_num :: "string \<Rightarrow> bool" where
  "wf_num n = (valid_num n \<and> list_all is_num_char n \<and> n \<noteq> [] \<and> (is_digit (hd n) \<or> hd n = CHR ''-''))"

lemma delim_not_num: "delim (c # s) \<Longrightarrow> \<not> is_num_char c \<and> \<not> is_word_char c"
  by (auto simp: delim_def is_num_char_def is_word_char_def is_digit_def in_range_def)

lemma lex_emit:
  assumes "delim rest"
    and "lex_end m = Some [t]"
    and "\<And>c. \<not> is_num_char c \<Longrightarrow> \<not> is_word_char c \<Longrightarrow> lex_char m c = emit_then_start (Some t) c"
  shows "lex m rest = map_option ((#) t) (lex LStart rest)"
proof (cases rest)
  case Nil
  then show ?thesis using assms by simp
next
  case (Cons c cs)
  then show ?thesis
    using assms delim_not_num [of c cs]
    by (cases "start_char c")
      (auto simp: emit_then_start_def option.map_comp o_def append_Cons [abs_def] split: option.splits)
qed

lemma lex_num_body:
  "list_all is_num_char n \<Longrightarrow> valid_num (rev acc @ n) \<Longrightarrow> delim rest \<Longrightarrow>
   lex (LNum acc) (n @ rest) = map_option ((#) (TNum (rev acc @ n))) (lex LStart rest)"
proof (induction n arbitrary: acc)
  case Nil
  then show ?case by (simp add: lex_emit [where t = "TNum (rev acc)"] num_token_def)
next
  case (Cons c n)
  then show ?case by simp
qed

definition structural :: "char set" where
  "structural = {CHR '' '', CHR 0x09, CHR 0x0A, CHR 0x0D, CHR ''{'', CHR ''}'', CHR ''['', CHR '']'',
                 CHR '':'', CHR '','', CHR 0x22}"

lemma start_char_other:
  "c \<notin> structural \<Longrightarrow> start_char c =
     (if is_digit c \<or> c = CHR ''-'' then Some ([], LNum [c])
      else if is_word_char c then Some ([], LWord [c]) else None)"
  by (simp add: structural_def start_char_def)

lemma digit_not_structural: "is_digit c \<Longrightarrow> c \<notin> structural"
  by (auto simp: structural_def is_digit_def)

lemma word_not_structural: "is_word_char c \<Longrightarrow> c \<notin> structural"
  by (auto simp: structural_def is_word_char_def in_range_def)

lemma word_not_digit: "is_word_char c \<Longrightarrow> \<not> is_digit c"
  by (simp add: is_digit_def is_word_char_def in_range_def)

lemma word_not_minus: "is_word_char c \<Longrightarrow> c \<noteq> CHR ''-''"
  by (auto simp: is_word_char_def in_range_def)

lemma start_num: "is_digit c \<or> c = CHR ''-'' \<Longrightarrow> start_char c = Some ([], LNum [c])"
proof -
  assume c: "is_digit c \<or> c = CHR ''-''"
  then have "c \<notin> structural"
  proof
    assume "is_digit c"
    then show ?thesis by (rule digit_not_structural)
  next
    assume "c = CHR ''-''"
    then show ?thesis by (simp add: structural_def)
  qed
  then show ?thesis using c by (simp add: start_char_other)
qed

lemma lex_num:
  assumes "wf_num n" and "delim rest"
  shows "lex LStart (n @ rest) = map_option ((#) (TNum n)) (lex LStart rest)"
proof -
  obtain c cs where n: "n = c # cs" using assms(1) by (cases n) (auto simp: wf_num_def)
  with assms show ?thesis
    using lex_num_body [of cs "[c]" rest] start_num [of c]
    by (simp add: wf_num_def)
qed

lemma lex_word:
  assumes "list_all is_word_char (c # w)" and "word_token (c # w) = Some t" and "delim rest"
  shows "lex LStart (c # w @ rest) = map_option ((#) t) (lex LStart rest)"
proof -
  have body: "list_all is_word_char v \<Longrightarrow> word_token (rev acc @ v) = Some t \<Longrightarrow>
    lex (LWord acc) (v @ rest) = map_option ((#) t) (lex LStart rest)" for acc v
  proof (induction v arbitrary: acc)
    case Nil
    then show ?case using assms(3) by (simp add: lex_emit [where t = t])
  next
    case (Cons d v)
    then show ?case by simp
  qed
  have "start_char c = Some ([], LWord [c])"
    using assms(1) word_not_structural [of c] word_not_digit [of c] word_not_minus [of c]
    by (simp add: start_char_other)
  then show ?thesis using body [of w "[c]"] assms by simp
qed

declare lex.simps [simp del]

lemma lex_end_of_text [simp]: "lex LStart [] = Some []"
  by (simp add: lex.simps)

fun wf_json :: "json \<Rightarrow> bool" where
  "wf_json JNull = True"
| "wf_json (JBool b) = True"
| "wf_json (JNum n) = wf_num n"
| "wf_json (JStr s) = ascii s"
| "wf_json (JArr js) = list_all wf_json js"
| "wf_json (JObj kvs) = list_all (\<lambda>(k, j). ascii k \<and> wf_json j) kvs"

fun toks :: "json \<Rightarrow> jtoken list" where
  "toks JNull = [TNull]"
| "toks (JBool b) = [if b then TTrue else TFalse]"
| "toks (JNum n) = [TNum n]"
| "toks (JStr s) = [TStr s]"
| "toks (JArr js) = TLBrack # go_join [TComma] (map toks js) @ [TRBrack]"
| "toks (JObj kvs) =
     TLBrace # go_join [TComma] (map (\<lambda>(k, j). TStr k # TColon # toks j) kvs) @ [TRBrace]"

lemma lex_punct:
  assumes "start_char c = Some ([t], LStart)"
  shows "lex LStart (c # s) = map_option ((#) t) (lex LStart s)"
  using assms by (cases "lex LStart s") (simp_all add: lex.simps)

lemma lex_punctuation [simp]:
  "lex LStart (CHR ''{'' # s) = map_option ((#) TLBrace) (lex LStart s)"
  "lex LStart (CHR ''}'' # s) = map_option ((#) TRBrace) (lex LStart s)"
  "lex LStart (CHR ''['' # s) = map_option ((#) TLBrack) (lex LStart s)"
  "lex LStart (CHR '']'' # s) = map_option ((#) TRBrack) (lex LStart s)"
  "lex LStart (CHR '':'' # s) = map_option ((#) TColon) (lex LStart s)"
  "lex LStart (CHR '','' # s) = map_option ((#) TComma) (lex LStart s)"
  by (rule lex_punct, simp add: start_char_def)+

lemma delim_punctuation [simp]:
  "delim (CHR ''}'' # s)" "delim (CHR '']'' # s)" "delim (CHR '','' # s)" "delim []"
  by (simp_all add: delim_def)

lemma lex_join:
  assumes "\<And>x rest. x \<in> set xs \<Longrightarrow> delim rest \<Longrightarrow>
      lex LStart (f x @ rest) = map_option ((@) (g x)) (lex LStart rest)"
    and "delim rest"
  shows "lex LStart (go_join '','' (map f xs) @ rest) =
    map_option ((@) (go_join [TComma] (map g xs))) (lex LStart rest)"
  using assms(1)
proof (induction xs)
  case Nil
  then show ?case by (simp add: option.map_ident)
next
  case (Cons x xs)
  show ?case
  proof (cases xs)
    case Nil
    then show ?thesis using Cons.prems assms(2) by simp
  next
    case (Cons y ys)
    then have "lex LStart (go_join '','' (map f (y # ys)) @ rest) =
        map_option ((@) (go_join [TComma] (map g (y # ys)))) (lex LStart rest)"
      using Cons.IH Cons.prems by auto
    then show ?thesis
      using Cons Cons.prems [of x "CHR '','' # go_join '','' (map f (y # ys)) @ rest"]
      by (simp add: option.map_comp o_def)
  qed
qed

lemma lex_print:
  "wf_json j \<Longrightarrow> delim rest \<Longrightarrow>
   lex LStart (print_json j @ rest) = map_option ((@) (toks j)) (lex LStart rest)"
proof (induction j arbitrary: rest rule: print_json.induct)
  case 1
  then show ?case
    using lex_word [of "CHR ''n''" "''ull''" TNull rest]
    by (simp add: word_token_def is_word_char_def in_range_def append_Cons [abs_def])
next
  case (2 b)
  then show ?case
    using lex_word [of "CHR ''t''" "''rue''" TTrue rest] lex_word [of "CHR ''f''" "''alse''" TFalse rest]
    by (simp add: word_token_def is_word_char_def in_range_def append_Cons [abs_def])
next
  case (3 n)
  then show ?case by (simp add: lex_num append_Cons [abs_def])
next
  case (4 s)
  then show ?case by (simp add: lex_quote append_Cons [abs_def])
next
  case (5 js)
  have "lex LStart (go_join '','' (map print_json js) @ CHR '']'' # rest) =
    map_option ((@) (go_join [TComma] (map toks js))) (lex LStart (CHR '']'' # rest))"
    using "5.IH" "5.prems" by (intro lex_join) (auto simp: list_all_iff)
  then show ?case by (simp add: option.map_comp o_def)
next
  case (6 kvs)
  have pair: "lex LStart ((case x of (k, j) \<Rightarrow> quote k @ '':'' @ print_json j) @ s) =
      map_option ((@) (case x of (k, j) \<Rightarrow> TStr k # TColon # toks j)) (lex LStart s)"
    if "x \<in> set kvs" "delim s" for x s
  proof (cases x)
    case (Pair k j)
    then have "ascii k" "wf_json j" using "6.prems" that(1) by (auto simp: list_all_iff)
    then show ?thesis
      using "6.IH" [OF that(1), of k j s] Pair that(2)
      by (simp add: lex_quote option.map_comp o_def append_Cons [abs_def])
  qed
  have "lex LStart (go_join '','' (map (\<lambda>(k, j). quote k @ '':'' @ print_json j) kvs) @ CHR ''}'' # rest) =
    map_option ((@) (go_join [TComma] (map (\<lambda>(k, j). TStr k # TColon # toks j) kvs)))
      (lex LStart (CHR ''}'' # rest))"
    by (intro lex_join pair) auto
  then show ?case by (simp add: option.map_comp o_def)
qed

lemma lex_print_all: "wf_json j \<Longrightarrow> lex LStart (print_json j) = Some (toks j)"
  using lex_print [of j "[]"] by simp

section \<open>Parsing what was printed\<close>

fun jdepth :: "json \<Rightarrow> nat" where
  "jdepth (JArr js) = Suc (foldr max (map jdepth js) 0)"
| "jdepth (JObj kvs) = Suc (foldr max (map (\<lambda>(k, j). jdepth j) kvs) 0)"
| "jdepth j = 0"

lemma foldr_max_le: "foldr max (map f xs) (0 :: nat) \<le> n \<longleftrightarrow> (\<forall>x \<in> set xs. f x \<le> n)"
  by (induction xs) auto

lemma toks_first: "\<exists>t ts. toks j = t # ts \<and> t \<noteq> TRBrack"
  by (cases j) auto

lemma parse_arr0: "parse_tokens PArr0 stk (toks j @ ts) = parse_tokens PVal stk (toks j @ ts)"
  using toks_first [of j] by auto

lemma parse_elems:
  assumes "\<And>j ts acc. j \<in> set js \<Longrightarrow>
      parse_tokens PVal (FArr acc # stk) (toks j @ ts) = parse_tokens (PDone j) (FArr acc # stk) ts"
    and "js \<noteq> []"
  shows "parse_tokens PVal (FArr acc # stk) (go_join [TComma] (map toks js) @ TRBrack # ts) =
    parse_tokens (PDone (JArr (rev acc @ js))) stk ts"
  using assms
proof (induction js arbitrary: acc)
  case Nil
  then show ?case by simp
next
  case (Cons j js)
  show ?case
  proof (cases js)
    case Nil
    then show ?thesis using Cons.prems(1) [of j] by simp
  next
    case js: (Cons j' js')
    then show ?thesis
      using Cons.IH [of "j # acc"] Cons.prems(1) [of j] Cons.prems(1) by simp
  qed
qed

lemma parse_fields:
  assumes "\<And>k j ts acc. (k, j) \<in> set kvs \<Longrightarrow>
      parse_tokens PVal (FKey acc k # stk) (toks j @ ts) = parse_tokens (PDone j) (FKey acc k # stk) ts"
    and "kvs \<noteq> []"
  shows "parse_tokens PKey (FObj acc # stk)
      (go_join [TComma] (map (\<lambda>(k, j). TStr k # TColon # toks j) kvs) @ TRBrace # ts) =
    parse_tokens (PDone (JObj (rev acc @ kvs))) stk ts"
  using assms
proof (induction kvs arbitrary: acc)
  case Nil
  then show ?case by simp
next
  case (Cons kv kvs)
  obtain k j where kv: "kv = (k, j)" by (cases kv)
  show ?case
  proof (cases kvs)
    case Nil
    then show ?thesis using Cons.prems(1) [of k j] kv by simp
  next
    case kvs: (Cons kv' kvs')
    then show ?thesis
      using Cons.IH [of "(k, j) # acc"] Cons.prems(1) [of k j] Cons.prems(1) kv
      by (simp split: prod.splits)
  qed
qed

lemma parse_value:
  "length stk + jdepth j \<le> max_depth \<Longrightarrow>
   parse_tokens PVal stk (toks j @ ts) = parse_tokens (PDone j) stk ts"
proof (induction j arbitrary: stk ts rule: toks.induct)
  case (5 js)
  have room: "length stk < max_depth" using "5.prems" by simp
  have elem: "parse_tokens PVal (FArr acc # stk) (toks j @ us) = parse_tokens (PDone j) (FArr acc # stk) us"
    if "j \<in> set js" for j us acc
  proof (rule "5.IH" [OF that])
    have "jdepth j \<le> foldr max (map jdepth js) 0"
      using foldr_max_le [of jdepth js "foldr max (map jdepth js) 0"] that by simp
    then show "length (FArr acc # stk) + jdepth j \<le> max_depth" using "5.prems" by simp
  qed
  show ?case
  proof (cases js)
    case Nil
    then show ?thesis using room by (simp add: push_frame_def)
  next
    case (Cons j js')
    have "\<exists>us. go_join [TComma] (map toks js) = toks j @ us"
      using Cons by (cases js') auto
    then obtain us where us: "go_join [TComma] (map toks js) = toks j @ us" ..
    have "parse_tokens PVal (FArr [] # stk) (go_join [TComma] (map toks js) @ TRBrack # ts) =
        parse_tokens (PDone (JArr js)) stk ts"
      using parse_elems [where js = js and acc = "[]" and stk = stk and ts = ts] elem Cons by simp
    then show ?thesis using room parse_arr0 [of "FArr [] # stk" j "us @ TRBrack # ts"] us
      by (simp add: push_frame_def)
  qed
next
  case (6 kvs)
  have room: "length stk < max_depth" using "6.prems" by simp
  have field: "parse_tokens PVal (FKey acc k # stk) (toks j @ us) = parse_tokens (PDone j) (FKey acc k # stk) us"
    if "(k, j) \<in> set kvs" for k j us acc
  proof (rule "6.IH" [OF that refl])
    have "(\<lambda>(k, j). jdepth j) (k, j) \<le> foldr max (map (\<lambda>(k, j). jdepth j) kvs) 0"
      using foldr_max_le [of "\<lambda>(k, j). jdepth j" kvs "foldr max (map (\<lambda>(k, j). jdepth j) kvs) 0"] that
      by blast
    then show "length (FKey acc k # stk) + jdepth j \<le> max_depth" using "6.prems" by simp
  qed
  show ?case
  proof (cases kvs)
    case Nil
    then show ?thesis using room by (simp add: push_frame_def)
  next
    case (Cons kv kvs')
    obtain k j where kv: "kv = (k, j)" by (cases kv)
    have "\<exists>us. go_join [TComma] (map (\<lambda>(k, j). TStr k # TColon # toks j) kvs) = TStr k # us"
      using Cons kv by (cases kvs') auto
    then obtain us where us: "go_join [TComma] (map (\<lambda>(k, j). TStr k # TColon # toks j) kvs) = TStr k # us" ..
    have "parse_tokens PKey (FObj [] # stk)
        (go_join [TComma] (map (\<lambda>(k, j). TStr k # TColon # toks j) kvs) @ TRBrace # ts) =
        parse_tokens (PDone (JObj kvs)) stk ts"
      using parse_fields [where kvs = kvs and acc = "[]" and stk = stk and ts = ts] field Cons by simp
    then show ?thesis using room us by (simp add: push_frame_def)
  qed
qed auto

text \<open>
  Printing and parsing are inverse on documents whose numbers are well-formed literals, whose
  texts are ASCII and whose nesting is within the limit.
\<close>

lemma parse_print:
  assumes "wf_json j" and "jdepth j \<le> max_depth"
  shows "parse_json (print_json j) = Some j"
proof -
  have "parse_tokens PVal [] (toks j) = Some j"
    using parse_value [of "[]" j "[]"] assms(2) by simp
  then show ?thesis using lex_print_all [OF assms(1)] by (simp add: parse_json_def)
qed

section \<open>Filling Go values\<close>

text \<open>
  Struct keys are matched without regard to case: ASCII letters, and the two other code points
  that fold to an ASCII letter, U+017F (long s) and U+212A (the Kelvin sign).
\<close>

definition fold_name :: "string \<Rightarrow> string" where
  "fold_name s =
     map to_lower (replace_all (utf8_encode 383) ''s'' (replace_all (utf8_encode 8490) ''k'' s))"

type_synonym 'a field_decoder = "json \<Rightarrow> 'a \<Rightarrow> 'a res"

definition find_field :: "(string \<times> 'a field_decoder) list \<Rightarrow> string \<Rightarrow> 'a field_decoder option" where
  "find_field fs k =
     (case map_of fs k of
        Some d \<Rightarrow> Some d
      | None \<Rightarrow> map_of (map (\<lambda>(n, d). (fold_name n, d)) fs) (fold_name k))"

fun decode_fields :: "(string \<times> 'a field_decoder) list \<Rightarrow> (string \<times> json) list \<Rightarrow> 'a \<Rightarrow> 'a res" where
  "decode_fields fs [] a = Inr a"
| "decode_fields fs ((k, j) # r) a =
     (case find_field fs k of
        None \<Rightarrow> decode_fields fs r a
      | Some dec \<Rightarrow> (case dec j a of Inl e \<Rightarrow> Inl e | Inr a' \<Rightarrow> decode_fields fs r a'))"

definition type_error :: gerror where
  "type_error = ErrLib ''json: cannot unmarshal''"

definition decode_struct :: "(string \<times> 'a field_decoder) list \<Rightarrow> 'a field_decoder" where
  "decode_struct fs j a =
     (case j of JObj kvs \<Rightarrow> decode_fields fs kvs a | JNull \<Rightarrow> Inr a | _ \<Rightarrow> Inl type_error)"

text \<open>Decoders of one struct field, from how its Go type is read: \<open>set\<close> writes the field.\<close>

definition decode_uint :: "nat \<Rightarrow> (nat \<Rightarrow> 'a \<Rightarrow> 'a) \<Rightarrow> 'a field_decoder" where
  "decode_uint bits set_fld j a =
     (case j of
        JNull \<Rightarrow> Inr a
      | JNum n \<Rightarrow> (case digits_from 10 0 n of
                    None \<Rightarrow> Inl type_error
                  | Some v \<Rightarrow> if v < 2 ^ bits then Inr (set_fld v a) else Inl type_error)
      | _ \<Rightarrow> Inl type_error)"

definition decode_string :: "(string \<Rightarrow> 'a \<Rightarrow> 'a) \<Rightarrow> 'a field_decoder" where
  "decode_string set_fld j a =
     (case j of JNull \<Rightarrow> Inr a | JStr s \<Rightarrow> Inr (set_fld s a) | _ \<Rightarrow> Inl type_error)"

definition decode_bool :: "(bool \<Rightarrow> 'a \<Rightarrow> 'a) \<Rightarrow> 'a field_decoder" where
  "decode_bool set_fld j a =
     (case j of JNull \<Rightarrow> Inr a | JBool b \<Rightarrow> Inr (set_fld b a) | _ \<Rightarrow> Inl type_error)"

text \<open>
  \<open>(*big.Int).UnmarshalJSON\<close> gets the raw text of the value and reads it with base 0; a quoted
  number is refused, and null clears the pointer.
\<close>

definition decode_bigint :: "(bigint \<Rightarrow> 'a \<Rightarrow> 'a) \<Rightarrow> 'a field_decoder" where
  "decode_bigint set_fld j a =
     (case j of
        JNull \<Rightarrow> Inr (set_fld None a)
      | JNum n \<Rightarrow> (case big_set0 n of None \<Rightarrow> Inl type_error | Some i \<Rightarrow> Inr (set_fld (Some i) a))
      | _ \<Rightarrow> Inl type_error)"

definition syntax_error :: gerror where
  "syntax_error = ErrLib ''json: syntax error''"

definition unmarshal :: "'a field_decoder \<Rightarrow> string \<Rightarrow> 'a \<Rightarrow> 'a res" where
  "unmarshal dec s a = (case parse_json s of None \<Rightarrow> Inl syntax_error | Some j \<Rightarrow> dec j a)"

section \<open>Number literals\<close>

lemma takeWhile_all: "list_all P xs \<Longrightarrow> takeWhile P xs = xs \<and> dropWhile P xs = []"
  by (induction xs) auto

lemma itoa_no_leading_zero: "0 < n \<Longrightarrow> hd (itoa n) \<noteq> CHR ''0''"
proof (induction n rule: itoa.induct)
  case (1 n)
  show ?case
  proof (cases "n < 10")
    case True
    then have "(of_char (digit_char n) :: nat) \<noteq> of_char (CHR ''0'')" using "1.prems" by simp
    then have "digit_char n \<noteq> CHR ''0''" by metis
    with True show ?thesis by (simp add: itoa.simps [of n])
  next
    case False
    then have "hd (itoa (n div 10)) \<noteq> CHR ''0''" using "1.IH" by simp
    with False show ?thesis by (simp add: itoa.simps [of n])
  qed
qed

lemma itoa_zero: "itoa 0 = ''0''"
  by (simp add: itoa.simps digit_char_def char_of_eq_iff take_bit_eq_mod)

lemma hd_itoa_digit: "is_digit (hd (itoa n))"
  using itoa_all_digits [of n] by (simp add: list_all_iff)

lemma scan_itoa [simp]: "takeWhile is_digit (itoa n) = itoa n" "dropWhile is_digit (itoa n) = []"
  using takeWhile_all [OF itoa_all_digits] by blast+

lemma valid_num_itoa: "valid_num (itoa n)"
proof -
  have "hd (itoa n) \<noteq> CHR ''-''"
    using hd_itoa_digit [of n] by (auto simp: is_digit_def)
  then have "(case itoa n of c # cs \<Rightarrow> if c = CHR ''-'' then cs else itoa n | [] \<Rightarrow> []) = itoa n"
    by (cases "itoa n") auto
  then show ?thesis
    using itoa_no_leading_zero [of n] itoa_zero
    by (cases "n = 0") (auto simp: valid_num_def valid_frac_def is_digit_def)
qed

lemma wf_num_itoa [simp]: "wf_num (itoa n)"
  using valid_num_itoa [of n] itoa_all_digits [of n] hd_itoa_digit [of n]
  by (auto simp: wf_num_def list_all_iff is_num_char_def)

lemma wf_num_itoa_int [simp]: "wf_num (itoa_int i)"
proof (cases "i < 0")
  case False
  then show ?thesis by (simp add: itoa_int_def)
next
  case True
  let ?n = "nat (- i)"
  have "valid_num (CHR ''-'' # itoa ?n)"
    using itoa_no_leading_zero [of ?n] True by (simp add: valid_num_def valid_frac_def)
  then show ?thesis
    using True itoa_all_digits [of ?n]
    by (auto simp: itoa_int_def wf_num_def list_all_iff is_num_char_def)
qed

text \<open>\<open>SetString(_, 0)\<close> reads back what \<open>MarshalJSON\<close> wrote: no literal starts with a prefix.\<close>

lemma nat_scan0_digits:
  "list_all is_digit s \<Longrightarrow> digits_from 10 acc s = Some v \<Longrightarrow> prev \<noteq> PrevSep \<Longrightarrow>
   nat_scan0 10 prev False acc n s = Some (v, n + length s)"
proof (induction s arbitrary: acc n prev)
  case (Cons c s)
  then have "c \<noteq> CHR ''_''" by (auto simp: is_digit_def)
  with Cons show ?case by (auto split: option.splits if_splits)
qed simp

lemma big_scan0_itoa: "big_scan0 (itoa n) = Some n"
proof (cases "n = 0")
  case True
  then show ?thesis by (simp add: itoa_zero big_scan0_def)
next
  case False
  obtain c cs where c: "itoa n = c # cs" using itoa_nonempty by (cases "itoa n") auto
  have "c \<noteq> CHR ''0''" using itoa_no_leading_zero [of n] False c by simp
  moreover have "nat_scan0 10 PrevStart False 0 0 (itoa n) = Some (n, length (itoa n))"
    using nat_scan0_digits [of "itoa n" 0 n PrevStart 0] itoa_all_digits digits_from_itoa [of 0 n]
    by simp
  ultimately show ?thesis using c by (simp add: big_scan0_def)
qed

lemma big_set0_itoa_int [simp]: "big_set0 (itoa_int i) = Some i"
  by (cases "i < 0")
    (auto simp: itoa_int_def big_set0_def split_sign_def big_scan0_itoa apply_sign_def
      hd_itoa_no_sign [unfolded split_sign_def])

end
