(* ===== verification/AleoUtils.thy ===== *)
theory AleoUtils
  imports Json Packets
begin

text \<open>
  \<open>chainService/chain/aleo/utils.go\<close>: reading a packet of the Aleo bridge program from the text
  of a mapping value, and writing a packet as an argument of that program. The functions of
  go-ethereum's package \<open>common\<close> that the code calls are the argument \<open>E\<close>.
\<close>

section \<open>Data\<close>

record aleo_address =
  ap_chainID :: string
  ap_address :: string

record aleo_message =
  am_token :: string
  am_receiver :: string
  am_amount :: string
  am_sender :: string

record aleo_packet =
  ap_version :: string
  ap_source :: aleo_address
  ap_sequence :: string
  ap_destination :: aleo_address
  ap_message :: aleo_message
  ap_height :: string

definition zero_aleo_packet :: aleo_packet where
  "zero_aleo_packet =
     \<lparr>ap_version = [], ap_source = \<lparr>ap_chainID = [], ap_address = []\<rparr>, ap_sequence = [],
      ap_destination = \<lparr>ap_chainID = [], ap_address = []\<rparr>,
      ap_message = \<lparr>am_token = [], am_receiver = [], am_amount = [], am_sender = []\<rparr>,
      ap_height = []\<rparr>"

record eth_common =
  HexToAddress :: "string \<Rightarrow> bytes"
  BytesToAddress :: "bytes \<Rightarrow> bytes"
  Address_String :: "bytes \<Rightarrow> string"

section \<open>Keys and cleaning\<close>

definition constructOutMappingKey :: "string \<Rightarrow> u64 \<Rightarrow> string" where
  "constructOutMappingKey dst seqNum =
     ''{chain_id:'' @ dst @ ''u128,sequence:'' @ itoa_word seqNum @ ''u64}''"

definition trim :: "string \<Rightarrow> string" where
  "trim msg = replacer
     [([CHR 0x5C, CHR ''n''], []), (''{'', []), (''}'', []), (''['', []), ('']'', []), ('' '', []),
      ([CHR 0x22], [])] msg"

section \<open>parseMessage\<close>

text \<open>
  The loop over the slice \<open>messages\<close> looks only at the current element and at those behind it,
  so it is a recursion whose argument is the part of the slice that is left. A sub-slice
  \<open>messages[m+1 : m+1+n]\<close> needs \<open>n\<close> elements behind the current one. Its own capacity reaches to
  the end of \<open>messages\<close>: an index into it is checked against its length, a slice of it
  against its capacity. So the inner loops carry the number \<open>n\<close> of its elements that are left
  together with everything behind the current one.
\<close>

definition at_next :: "nat \<Rightarrow> string list \<Rightarrow> string res" where
  "at_next n rest = (case rest of v # _ \<Rightarrow> if 0 < n then Inr v else Inl index_range | [] \<Rightarrow> Inl index_range)"

definition next_32 :: "string list \<Rightarrow> string res" where
  "next_32 rest = (if 32 \<le> length rest then Inr (go_join '' '' (take 32 rest)) else Inl index_range)"

fun source_loop :: "nat \<Rightarrow> string list \<Rightarrow> aleo_address \<Rightarrow> aleo_address res" where
  "source_loop 0 sl a = Inr a"
| "source_loop (Suc n) [] a = Inr a"
| "source_loop (Suc n) (v # rest) a =
     (if v = ''chain_id'' then
        (case at_next n rest of Inl e \<Rightarrow> Inl e | Inr x \<Rightarrow> source_loop n rest (a\<lparr>ap_chainID := x\<rparr>))
      else if v = ''addr'' then
        (case at_next n rest of Inl e \<Rightarrow> Inl e | Inr x \<Rightarrow> source_loop n rest (a\<lparr>ap_address := x\<rparr>))
      else source_loop n rest a)"

fun destination_loop :: "nat \<Rightarrow> string list \<Rightarrow> aleo_address \<Rightarrow> aleo_address res" where
  "destination_loop 0 sl a = Inr a"
| "destination_loop (Suc n) [] a = Inr a"
| "destination_loop (Suc n) (v # rest) a =
     (if v = ''chain_id'' then
        (case at_next n rest of Inl e \<Rightarrow> Inl e | Inr x \<Rightarrow> destination_loop n rest (a\<lparr>ap_chainID := x\<rparr>))
      else if v = ''addr'' then
        (case next_32 rest of Inl e \<Rightarrow> Inl e | Inr x \<Rightarrow> destination_loop n rest (a\<lparr>ap_address := x\<rparr>))
      else destination_loop n rest a)"

fun message_loop :: "nat \<Rightarrow> string list \<Rightarrow> aleo_message \<Rightarrow> aleo_message res" where
  "message_loop 0 sl a = Inr a"
| "message_loop (Suc n) [] a = Inr a"
| "message_loop (Suc n) (v # rest) a =
     (if v = ''dest_token_address'' then
        (case next_32 rest of Inl e \<Rightarrow> Inl e | Inr x \<Rightarrow> message_loop n rest (a\<lparr>am_token := x\<rparr>))
      else if v = ''sender_address'' then
        (case at_next n rest of Inl e \<Rightarrow> Inl e | Inr x \<Rightarrow> message_loop n rest (a\<lparr>am_sender := x\<rparr>))
      else if v = ''receiver_address'' then
        (case next_32 rest of Inl e \<Rightarrow> Inl e | Inr x \<Rightarrow> message_loop n rest (a\<lparr>am_receiver := x\<rparr>))
      else if v = ''amount'' then
        (case at_next n rest of Inl e \<Rightarrow> Inl e | Inr x \<Rightarrow> message_loop n rest (a\<lparr>am_amount := x\<rparr>))
      else message_loop n rest a)"

text \<open>\<open>requiredFields\<close> is the map from the names of the fields to whether they were seen.\<close>

record parse_state =
  ps_pkt :: aleo_packet
  ps_required :: "string \<rightharpoonup> bool"

definition required_names :: "string list" where
  "required_names = [''version'', ''sequence'', ''source'', ''destination'', ''message'', ''height'']"

definition mark :: "string \<Rightarrow> parse_state \<Rightarrow> aleo_packet \<Rightarrow> parse_state" where
  "mark field st pkt = \<lparr>ps_pkt = pkt, ps_required = (ps_required st)(field \<mapsto> True)\<rparr>"

definition sub_slice :: "nat \<Rightarrow> string list \<Rightarrow> string list res" where
  "sub_slice n rest = (if n \<le> length rest then Inr rest else Inl index_range)"

definition parse_field :: "string \<Rightarrow> string list \<Rightarrow> parse_state \<Rightarrow> parse_state res" where
  "parse_field v rest st =
     (let pkt = ps_pkt st in
      if v = ''version'' then
        (case rest of [] \<Rightarrow> Inl index_range | x # _ \<Rightarrow> Inr (mark v st (pkt\<lparr>ap_version := x\<rparr>)))
      else if v = ''sequence'' then
        (case rest of [] \<Rightarrow> Inl index_range | x # _ \<Rightarrow> Inr (mark v st (pkt\<lparr>ap_sequence := x\<rparr>)))
      else if v = ''source'' then
        (case sub_slice 4 rest of
           Inl e \<Rightarrow> Inl e
         | Inr sl \<Rightarrow> (case source_loop 4 sl (ap_source pkt) of
                        Inl e \<Rightarrow> Inl e | Inr a \<Rightarrow> Inr (mark v st (pkt\<lparr>ap_source := a\<rparr>))))
      else if v = ''destination'' then
        (case sub_slice 35 rest of
           Inl e \<Rightarrow> Inl e
         | Inr sl \<Rightarrow> (case destination_loop 35 sl (ap_destination pkt) of
                        Inl e \<Rightarrow> Inl e | Inr a \<Rightarrow> Inr (mark v st (pkt\<lparr>ap_destination := a\<rparr>))))
      else if v = ''message'' then
        (case sub_slice 70 rest of
           Inl e \<Rightarrow> Inl e
         | Inr sl \<Rightarrow> (case message_loop 70 sl (ap_message pkt) of
                        Inl e \<Rightarrow> Inl e | Inr a \<Rightarrow> Inr (mark v st (pkt\<lparr>ap_message := a\<rparr>))))
      else if v = ''height'' then
        (case rest of [] \<Rightarrow> Inl index_range | x # _ \<Rightarrow> Inr (mark v st (pkt\<lparr>ap_height := x\<rparr>)))
      else Inr st)"

fun parse_fields :: "string list \<Rightarrow> parse_state \<Rightarrow> parse_state res" where
  "parse_fields [] st = Inr st"
| "parse_fields (v # rest) st =
     (case parse_field v rest st of Inl e \<Rightarrow> Inl e | Inr st' \<Rightarrow> parse_fields rest st')"

definition message_tokens :: "string \<Rightarrow> string list" where
  "message_tokens s = concat (map (go_split CHR '':'') (go_split CHR '','' (trim s)))"

text \<open>
  The deferred function turns every panic into an error. Go visits the map in an unspecified
  order when it joins the errors; the model takes the order of the map's literal.
\<close>

definition recovered :: "gerror \<Rightarrow> gerror" where
  "recovered e =
     (case e of Panic r \<Rightarrow> ErrMsg (''error '' @ r @ '' while parsing message'') | _ \<Rightarrow> e)"

definition parseMessage :: "string \<Rightarrow> aleo_packet res" where
  "parseMessage s =
     (case parse_fields (message_tokens s)
             \<lparr>ps_pkt = zero_aleo_packet, ps_required = map_of (map (\<lambda>f. (f, False)) required_names)\<rparr> of
        Inl e \<Rightarrow> Inl (recovered e)
      | Inr st \<Rightarrow>
          (let errs = map (\<lambda>f. ''could not find '' @ f @ '' field'')
                        (filter (\<lambda>f. ps_required st f \<noteq> Some True) required_names)
           in if errs \<noteq> [] then Inl (ErrMsg (go_join [CHR 0x0A] errs)) else Inr (ps_pkt st)))"

section \<open>Addresses\<close>

text \<open>\<open>HexToAddress(s).Bytes()\<close> has 20 bytes, so the padding has 12 elements.\<close>

definition constructEthAddressForAleoParameter :: "eth_common \<Rightarrow> string \<Rightarrow> string" where
  "constructEthAddressForAleoParameter E serviceContract =
     (let serviceContractByte = HexToAddress E serviceContract;
          lenDifference = 32 - length serviceContractByte;
          aleoAddress = ''[ '' @ concat (replicate lenDifference ''0u8, '') @
            concat (map (\<lambda>b. itoa (unat b) @ ''u8, '') serviceContractByte);
          l = length ''u8, '' - length ''u8''
      in take (length aleoAddress - l) aleoAddress @ '' ]'')"

definition parseAleoEthAddrToHexString :: "eth_common \<Rightarrow> string \<Rightarrow> string res" where
  "parseAleoEthAddrToHexString E addr =
     (if str_count ''u8'' addr \<noteq> 32 then Inl (ErrMsg ''invalid address string'')
      else let splittedAddress = go_split CHR '' '' (trim_spaces (replace_all ''u8'' [] addr))
           in case seq_res (map (\<lambda>s. case parse_uint0 8 s of
                                       None \<Rightarrow> Inl (ErrLib ''strconv.ParseUint'')
                                     | Some bt \<Rightarrow> Inr (of_nat bt :: u8))
                             (drop 12 splittedAddress)) of
                Inl e \<Rightarrow> Inl e
              | Inr addrbt \<Rightarrow> Inr (Address_String E (BytesToAddress E addrbt)))"

section \<open>parseAleoPacket and constructAleoPacket\<close>

definition set_string10 :: "string \<Rightarrow> string \<Rightarrow> string \<Rightarrow> int res" where
  "set_string10 unit_name s err =
     (case big_set10 (replace_first unit_name [] s) of None \<Rightarrow> Inl (ErrMsg err) | Some i \<Rightarrow> Inr i)"

definition parseAleoPacket :: "eth_common \<Rightarrow> aleo_packet \<Rightarrow> packet res" where
  "parseAleoPacket E ap =
     (case set_string10 ''u8'' (ap_version ap) ''failed to parse version'' of
        Inl e \<Rightarrow> Inl e
      | Inr version \<Rightarrow>
     (case set_string10 ''u64'' (ap_sequence ap) ''failed to parse sequence'' of
        Inl e \<Rightarrow> Inl e
      | Inr seqNum \<Rightarrow>
     (case set_string10 ''u128'' (ap_chainID (ap_source ap)) ''failed to parse version'' of
        Inl e \<Rightarrow> Inl e
      | Inr sourceChainID \<Rightarrow>
     (case set_string10 ''u128'' (ap_chainID (ap_destination ap)) ''failed to parse version'' of
        Inl e \<Rightarrow> Inl e
      | Inr destChainID \<Rightarrow>
     (case parseAleoEthAddrToHexString E (ap_address (ap_destination ap)) of
        Inl e \<Rightarrow> Inl e
      | Inr destAddress \<Rightarrow>
     (case parseAleoEthAddrToHexString E (am_token (ap_message ap)) of
        Inl e \<Rightarrow> Inl e
      | Inr destToken \<Rightarrow>
     (case parseAleoEthAddrToHexString E (am_receiver (ap_message ap)) of
        Inl e \<Rightarrow> Inl e
      | Inr receiver \<Rightarrow>
     (case big_set0 (replace_first ''u128'' [] (am_amount (ap_message ap))) of
        None \<Rightarrow> Inl (ErrMsg ''failed in parsing amount'')
      | Some amount \<Rightarrow>
     (case set_string10 ''u64'' (ap_height ap) ''failed to parse version'' of
        Inl e \<Rightarrow> Inl e
      | Inr height \<Rightarrow>
          Inr \<lparr>p_version = ucast (big_uint64 version),
               p_source = \<lparr>na_chain_id = Some sourceChainID, na_address = ap_address (ap_source ap)\<rparr>,
               p_destination = \<lparr>na_chain_id = Some destChainID, na_address = destAddress\<rparr>,
               p_sequence = big_uint64 seqNum,
               p_message = \<lparr>m_dest_token_address = destToken,
                            m_sender_address = am_sender (ap_message ap),
                            m_amount = Some amount, m_receiver_address = receiver\<rparr>,
               p_height = big_uint64 height, p_is_missed = False\<rparr>)))))))))"

definition constructAleoPacket :: "eth_common \<Rightarrow> packet \<Rightarrow> string" where
  "constructAleoPacket E msg =
     ''{ version: '' @ itoa_word (p_version msg) @ ''u8, sequence: '' @ itoa_word (p_sequence msg) @ ''u64, '' @
     ''source: { chain_id: '' @ bigint_str (na_chain_id (p_source msg)) @ ''u128, addr: '' @
       constructEthAddressForAleoParameter E (na_address (p_source msg)) @ '' }, '' @
     ''destination: { chain_id: '' @ bigint_str (na_chain_id (p_destination msg)) @ ''u128, addr: '' @
       na_address (p_destination msg) @ '' }, '' @
     ''message: { dest_token_address: '' @ m_dest_token_address (p_message msg) @
       '', sender_address: '' @ constructEthAddressForAleoParameter E (m_sender_address (p_message msg)) @
       '', receiver_address: '' @ m_receiver_address (p_message msg) @
       '', amount: '' @ bigint_str (m_amount (p_message msg)) @ ''u128 }, '' @
     ''height: '' @ itoa_word (p_height msg) @ ''u64 }''"

end
