(* ===== verification/PacketJson.thy ===== *)
theory PacketJson
  imports Json
begin

text \<open>
  The JSON forms of the types of \<open>chainService/chain/types.go\<close>: what \<open>json.Marshal\<close> writes for
  a packet and a screened packet under the struct tags, what \<open>json.Unmarshal\<close> reads, and the
  custom \<open>UnmarshalJSON\<close> of a missed packet. The unexported \<open>isMissed\<close> flag is not part of the
  JSON form.
\<close>

section \<open>Marshalling\<close>

definition json_bigint :: "bigint \<Rightarrow> json" where
  "json_bigint b = (case b of None \<Rightarrow> JNull | Some i \<Rightarrow> JNum (itoa_int i))"

definition json_word :: "'a::len word \<Rightarrow> json" where
  "json_word w = JNum (itoa_word w)"

definition json_address :: "network_address \<Rightarrow> json" where
  "json_address n = JObj [(''chain_id'', json_bigint (na_chain_id n)), (''address'', JStr (na_address n))]"

definition json_message :: "message \<Rightarrow> json" where
  "json_message m = JObj
     [(''dest_token_address'', JStr (m_dest_token_address m)),
      (''sender_address'', JStr (m_sender_address m)),
      (''amount'', json_bigint (m_amount m)),
      (''receiver_address'', JStr (m_receiver_address m))]"

definition json_packet :: "packet \<Rightarrow> json" where
  "json_packet p = JObj
     [(''version'', json_word (p_version p)), (''source'', json_address (p_source p)),
      (''destination'', json_address (p_destination p)), (''sequence'', json_word (p_sequence p)),
      (''message'', json_message (p_message p)), (''height'', json_word (p_height p))]"

definition json_screened :: "screened_packet \<Rightarrow> json" where
  "json_screened sp = JObj
     [(''packet'', json_packet (sp_packet sp)), (''is_white'', JBool (sp_is_white sp))]"

definition marshal_packet :: "packet \<Rightarrow> bytes" where
  "marshal_packet p = bytes_of_string (print_json (json_packet p))"

definition marshal_screened :: "screened_packet \<Rightarrow> bytes" where
  "marshal_screened sp = bytes_of_string (print_json (json_screened sp))"

section \<open>Unmarshalling\<close>

definition decode_address :: "network_address field_decoder" where
  "decode_address = decode_struct
     [(''chain_id'', decode_bigint (\<lambda>v n. n\<lparr>na_chain_id := v\<rparr>)),
      (''address'', decode_string (\<lambda>v n. n\<lparr>na_address := v\<rparr>))]"

definition decode_message :: "message field_decoder" where
  "decode_message = decode_struct
     [(''dest_token_address'', decode_string (\<lambda>v m. m\<lparr>m_dest_token_address := v\<rparr>)),
      (''sender_address'', decode_string (\<lambda>v m. m\<lparr>m_sender_address := v\<rparr>)),
      (''amount'', decode_bigint (\<lambda>v m. m\<lparr>m_amount := v\<rparr>)),
      (''receiver_address'', decode_string (\<lambda>v m. m\<lparr>m_receiver_address := v\<rparr>))]"

text \<open>A nested struct is decoded in place.\<close>

definition decode_sub :: "'b field_decoder \<Rightarrow> ('a \<Rightarrow> 'b) \<Rightarrow> ('b \<Rightarrow> 'a \<Rightarrow> 'a) \<Rightarrow> 'a field_decoder" where
  "decode_sub dec get_fld set_fld j a =
     (case dec j (get_fld a) of Inl e \<Rightarrow> Inl e | Inr b \<Rightarrow> Inr (set_fld b a))"

definition decode_packet :: "packet field_decoder" where
  "decode_packet = decode_struct
     [(''version'', decode_uint 8 (\<lambda>v p. p\<lparr>p_version := of_nat v\<rparr>)),
      (''source'', decode_sub decode_address p_source (\<lambda>v p. p\<lparr>p_source := v\<rparr>)),
      (''destination'', decode_sub decode_address p_destination (\<lambda>v p. p\<lparr>p_destination := v\<rparr>)),
      (''sequence'', decode_uint 64 (\<lambda>v p. p\<lparr>p_sequence := of_nat v\<rparr>)),
      (''message'', decode_sub decode_message p_message (\<lambda>v p. p\<lparr>p_message := v\<rparr>)),
      (''height'', decode_uint 64 (\<lambda>v p. p\<lparr>p_height := of_nat v\<rparr>))]"

definition unmarshal_packet :: "bytes \<Rightarrow> packet res" where
  "unmarshal_packet b = unmarshal decode_packet (string_of_bytes b) zero_packet"

text \<open>
  \<open>ScreenedPacket.Packet\<close> is a pointer: it stays nil unless the document has a packet, a null
  clears it, and an object is decoded into a fresh packet.
\<close>

record screened_ptr =
  spp_packet :: "packet option"
  spp_is_white :: bool

definition decode_packet_ptr :: "screened_ptr field_decoder" where
  "decode_packet_ptr j a =
     (case j of
        JNull \<Rightarrow> Inr (a\<lparr>spp_packet := None\<rparr>)
      | _ \<Rightarrow> (case decode_packet j (case spp_packet a of None \<Rightarrow> zero_packet | Some p \<Rightarrow> p) of
               Inl e \<Rightarrow> Inl e
             | Inr p \<Rightarrow> Inr (a\<lparr>spp_packet := Some p\<rparr>)))"

definition decode_screened :: "screened_ptr field_decoder" where
  "decode_screened = decode_struct
     [(''packet'', decode_packet_ptr),
      (''is_white'', decode_bool (\<lambda>v a. a\<lparr>spp_is_white := v\<rparr>))]"

definition unmarshal_screened :: "bytes \<Rightarrow> screened_ptr res" where
  "unmarshal_screened b =
     unmarshal decode_screened (string_of_bytes b) \<lparr>spp_packet = None, spp_is_white = False\<rparr>"

text \<open>
  \<open>MissedPacket.UnmarshalJSON\<close>: the chain ids arrive as texts and are read in base 10. A text
  that is not a number leaves the nil pointer, and the error flag of \<open>SetString\<close> is dropped.
\<close>

record missed_text =
  mt_target :: string
  mt_source :: string
  mt_seq :: u64
  mt_height :: u64
  mt_txn :: string

definition decode_missed_text :: "missed_text field_decoder" where
  "decode_missed_text = decode_struct
     [(''destChainId'', decode_string (\<lambda>v m. m\<lparr>mt_target := v\<rparr>)),
      (''sourceChainId'', decode_string (\<lambda>v m. m\<lparr>mt_source := v\<rparr>)),
      (''sequence'', decode_uint 64 (\<lambda>v m. m\<lparr>mt_seq := of_nat v\<rparr>)),
      (''height'', decode_uint 64 (\<lambda>v m. m\<lparr>mt_height := of_nat v\<rparr>)),
      (''transactionHash'', decode_string (\<lambda>v m. m\<lparr>mt_txn := v\<rparr>))]"

definition MissedPacket_UnmarshalJSON :: "json \<Rightarrow> missed_packet \<Rightarrow> missed_packet res" where
  "MissedPacket_UnmarshalJSON j pkt =
     (case decode_missed_text j
             \<lparr>mt_target = [], mt_source = [], mt_seq = 0, mt_height = 0, mt_txn = []\<rparr> of
        Inl e \<Rightarrow> Inl e
      | Inr m \<Rightarrow> Inr (pkt\<lparr>mp_target_chain_id := big_set10 (mt_target m),
                          mp_source_chain_id := big_set10 (mt_source m),
                          mp_seq_num := mt_seq m, mp_height := mt_height m, mp_txn_id := mt_txn m\<rparr>))"

text \<open>
  The answer of a poll. Each element of \<open>data\<close> is a pointer; the document as a whole is read
  into a nil \<open>*MissedPacketDetails\<close>, which a null document leaves nil.
\<close>

definition decode_missed_ptr :: "json \<Rightarrow> missed_packet option res" where
  "decode_missed_ptr j =
     (case j of
        JNull \<Rightarrow> Inr None
      | _ \<Rightarrow> (case MissedPacket_UnmarshalJSON j zero_missed_packet of
               Inl e \<Rightarrow> Inl e | Inr m \<Rightarrow> Inr (Some m)))"

definition decode_missed_list :: "missed_packet_details field_decoder" where
  "decode_missed_list j a =
     (case j of
        JNull \<Rightarrow> Inr (a\<lparr>mpd_data := []\<rparr>)
      | JArr js \<Rightarrow> (case seq_res (map decode_missed_ptr js) of
                    Inl e \<Rightarrow> Inl e | Inr ms \<Rightarrow> Inr (a\<lparr>mpd_data := ms\<rparr>))
      | _ \<Rightarrow> Inl type_error)"

definition decode_details :: "missed_packet_details field_decoder" where
  "decode_details = decode_struct
     [(''data'', decode_missed_list), (''message'', decode_string (\<lambda>v a. a\<lparr>mpd_message := v\<rparr>))]"

definition unmarshal_details :: "string \<Rightarrow> missed_packet_details option res" where
  "unmarshal_details s =
     (case parse_json s of
        None \<Rightarrow> Inl syntax_error
      | Some JNull \<Rightarrow> Inr None
      | Some j \<Rightarrow> (case decode_details j \<lparr>mpd_data = [], mpd_message = []\<rparr> of
                     Inl e \<Rightarrow> Inl e | Inr d \<Rightarrow> Inr (Some d)))"

definition unmarshal_collector_response :: "string \<Rightarrow> collector_response res" where
  "unmarshal_collector_response s =
     unmarshal (decode_struct [(''message'', decode_string (\<lambda>v r. r\<lparr>cr_message := v\<rparr>))]) s
       \<lparr>cr_message = []\<rparr>"

text \<open>A \<open>map[string]string\<close>: later entries win, a null value gives the empty text.\<close>

fun decode_string_entries :: "(string \<times> json) list \<Rightarrow> (string \<rightharpoonup> string) \<Rightarrow> (string \<rightharpoonup> string) res" where
  "decode_string_entries [] m = Inr m"
| "decode_string_entries ((k, j) # r) m =
     (case j of
        JStr s \<Rightarrow> decode_string_entries r (m(k \<mapsto> s))
      | JNull \<Rightarrow> decode_string_entries r (m(k \<mapsto> []))
      | _ \<Rightarrow> Inl type_error)"

definition unmarshal_string_map :: "string \<Rightarrow> (string \<rightharpoonup> string) res" where
  "unmarshal_string_map s =
     (case parse_json s of
        None \<Rightarrow> Inl syntax_error
      | Some (JObj kvs) \<Rightarrow> decode_string_entries kvs Map.empty
      | Some JNull \<Rightarrow> Inr Map.empty
      | Some j \<Rightarrow> Inl type_error)"

section \<open>Round trips\<close>

definition ascii_address :: "network_address \<Rightarrow> bool" where
  "ascii_address n = ascii (na_address n)"

definition ascii_message :: "message \<Rightarrow> bool" where
  "ascii_message m = (ascii (m_dest_token_address m) \<and> ascii (m_sender_address m) \<and>
     ascii (m_receiver_address m))"

definition ascii_packet :: "packet \<Rightarrow> bool" where
  "ascii_packet p = (ascii_address (p_source p) \<and> ascii_address (p_destination p) \<and>
     ascii_message (p_message p))"

lemma wf_json_bigint [simp]: "wf_json (json_bigint b)"
  by (cases b) (simp_all add: json_bigint_def)

lemma wf_json_word [simp]: "wf_json (json_word w)"
  by (simp add: json_word_def itoa_word_def)

lemma wf_json_address [simp]: "ascii_address n \<Longrightarrow> wf_json (json_address n)"
  by (simp add: json_address_def ascii_address_def)

lemma wf_json_message [simp]: "ascii_message m \<Longrightarrow> wf_json (json_message m)"
  by (simp add: json_message_def ascii_message_def)

lemma wf_json_packet [simp]: "ascii_packet p \<Longrightarrow> wf_json (json_packet p)"
  by (simp add: json_packet_def ascii_packet_def)

lemma jdepth_bigint [simp]: "jdepth (json_bigint b) = 0"
  by (cases b) (simp_all add: json_bigint_def)

lemma jdepth_packet: "jdepth (json_packet p) = 2"
  by (simp add: json_packet_def json_address_def json_message_def json_word_def)

lemma decode_bigint_json [simp]: "decode_bigint f (json_bigint b) a = Inr (f b a)"
  by (cases b) (simp_all add: json_bigint_def decode_bigint_def)

lemma decode_uint_json [simp]:
  "decode_uint LENGTH('n::len) f (json_word (w :: 'n word)) a = Inr (f (unat w) a)"
  using unsigned_less [of w, where ?'a = nat]
  by (simp add: json_word_def decode_uint_def itoa_word_def digits_from_itoa)

lemma decode_uint_json_8 [simp]: "decode_uint 8 f (json_word (w :: u8)) a = Inr (f (unat w) a)"
  using decode_uint_json [of f w a] by simp

lemma decode_uint_json_64 [simp]: "decode_uint 64 f (json_word (w :: u64)) a = Inr (f (unat w) a)"
  using decode_uint_json [of f w a] by simp

lemma decode_string_json [simp]: "decode_string f (JStr s) a = Inr (f s a)"
  by (simp add: decode_string_def)

lemma decode_address_json [simp]: "decode_address (json_address n) a = Inr n"
  by (cases n, cases a) (simp add: decode_address_def json_address_def decode_struct_def find_field_def)

lemma decode_message_json [simp]: "decode_message (json_message m) a = Inr m"
  by (cases m, cases a) (simp add: decode_message_def json_message_def decode_struct_def find_field_def)

lemma decode_packet_json: "decode_packet (json_packet p) zero_packet = Inr (SetMissed p False)"
  by (cases p)
    (simp add: decode_packet_def json_packet_def decode_struct_def find_field_def decode_sub_def
      zero_packet_def SetMissed_def)

lemma unmarshal_marshal_packet:
  assumes "ascii_packet p"
  shows "unmarshal_packet (marshal_packet p) = Inr (SetMissed p False)"
proof -
  have "parse_json (print_json (json_packet p)) = Some (json_packet p)"
    using assms by (intro parse_print) (simp_all add: jdepth_packet max_depth_def)
  then show ?thesis
    by (simp add: unmarshal_packet_def marshal_packet_def unmarshal_def decode_packet_json)
qed

lemma unmarshal_marshal_screened:
  assumes "ascii_packet (sp_packet sp)"
  shows "unmarshal_screened (marshal_screened sp) =
    Inr \<lparr>spp_packet = Some (SetMissed (sp_packet sp) False), spp_is_white = sp_is_white sp\<rparr>"
proof -
  have "parse_json (print_json (json_screened sp)) = Some (json_screened sp)"
    using assms by (intro parse_print) (simp_all add: json_screened_def jdepth_packet max_depth_def)
  moreover have "decode_packet_ptr (json_packet p) a = Inr (a\<lparr>spp_packet := Some (SetMissed p False)\<rparr>)"
    if "spp_packet a = None" for p a
    using that decode_packet_json [of p] by (simp add: decode_packet_ptr_def json_packet_def)
  ultimately show ?thesis
    by (simp add: unmarshal_screened_def marshal_screened_def unmarshal_def decode_screened_def
        json_screened_def decode_struct_def find_field_def decode_bool_def)
qed

end
