(* ===== verification/Keccak.thy ===== *)
theory Keccak
  imports Sha256
begin

text \<open>
  Keccak-256, the hash function the bridge contract and go-ethereum's package \<open>crypto\<close> are built
  on. The model of the signing service takes the hash function as an argument; this theory is
  the function its contract is instantiated with, so that no theorem rests on a stand-in. The
  state is a list of 25 lanes of 64 bits, lane \<open>x + 5 * y\<close> being the one of column \<open>x\<close> and row
  \<open>y\<close>.
\<close>

section \<open>The permutation\<close>

type_synonym lanes = "u64 list"

definition rotl64 :: "nat \<Rightarrow> u64 \<Rightarrow> u64" where
  "rotl64 n w = push_bit n w OR drop_bit (64 - n) w"

definition rho_offsets :: "nat list" where
  "rho_offsets =
     [0, 1, 62, 28, 27, 36, 44, 6, 55, 20, 3, 10, 43, 25, 39, 41, 45, 15, 21, 8, 18, 2, 61, 56, 14]"

definition round_constants :: "u64 list" where
  "round_constants =
     [0x0000000000000001, 0x0000000000008082, 0x800000000000808A, 0x8000000080008000,
      0x000000000000808B, 0x0000000080000001, 0x8000000080008081, 0x8000000000008009,
      0x000000000000008A, 0x0000000000000088, 0x0000000080008009, 0x000000008000000A,
      0x000000008000808B, 0x800000000000008B, 0x8000000000008089, 0x8000000000008003,
      0x8000000000008002, 0x8000000000000080, 0x000000000000800A, 0x800000008000000A,
      0x8000000080008081, 0x8000000000008080, 0x0000000080000001, 0x8000000080008008]"

definition theta :: "lanes \<Rightarrow> lanes" where
  "theta a =
     (let c = map (\<lambda>x. a ! x XOR a ! (x + 5) XOR a ! (x + 10) XOR a ! (x + 15) XOR a ! (x + 20)) [0..<5];
          d = map (\<lambda>x. c ! ((x + 4) mod 5) XOR rotl64 1 (c ! ((x + 1) mod 5))) [0..<5]
      in map (\<lambda>i. a ! i XOR d ! (i mod 5)) [0..<25])"

definition rho_pi :: "lanes \<Rightarrow> lanes" where
  "rho_pi a =
     map (\<lambda>i. let x = (i mod 5 + 3 * (i div 5)) mod 5; j = x + 5 * (i mod 5)
              in rotl64 (rho_offsets ! j) (a ! j)) [0..<25]"

definition chi :: "lanes \<Rightarrow> lanes" where
  "chi a =
     map (\<lambda>i. let y = 5 * (i div 5); x = i mod 5
              in a ! i XOR (NOT (a ! (y + (x + 1) mod 5)) AND a ! (y + (x + 2) mod 5))) [0..<25]"

definition keccak_round :: "u64 \<Rightarrow> lanes \<Rightarrow> lanes" where
  "keccak_round rc a = (let b = chi (rho_pi (theta a)) in b[0 := b ! 0 XOR rc])"

definition keccak_f :: "lanes \<Rightarrow> lanes" where
  "keccak_f a = foldl (\<lambda>st rc. keccak_round rc st) a round_constants"

section \<open>The sponge\<close>

text \<open>Lanes are read and written with the least significant byte first; the rate is 136 bytes.\<close>

definition lane_of_bytes :: "bytes \<Rightarrow> u64" where
  "lane_of_bytes b = of_nat (be_nat (rev b))"

definition bytes_of_lane :: "u64 \<Rightarrow> bytes" where
  "bytes_of_lane w = rev (be64 w)"

definition absorb :: "lanes \<Rightarrow> bytes \<Rightarrow> lanes" where
  "absorb st block =
     keccak_f (map (\<lambda>i. if i < 17 then st ! i XOR lane_of_bytes (take 8 (drop (8 * i) block)) else st ! i) [0..<25])"

fun absorb_blocks :: "nat \<Rightarrow> lanes \<Rightarrow> bytes \<Rightarrow> lanes" where
  "absorb_blocks 0 st b = st"
| "absorb_blocks (Suc n) st b = absorb_blocks n (absorb st (take 136 b)) (drop 136 b)"

definition keccak_pad :: "bytes \<Rightarrow> bytes" where
  "keccak_pad m =
     (let k = 136 - length m mod 136
      in if k = 1 then m @ [0x81] else m @ [0x01] @ replicate (k - 2) 0 @ [0x80])"

definition keccak256 :: "bytes \<Rightarrow> bytes" where
  "keccak256 m =
     (let p = keccak_pad m; st = absorb_blocks (length p div 136) (replicate 25 0) p
      in concat (map (\<lambda>i. bytes_of_lane (st ! i)) [0..<4]))"

lemma length_keccak256 [simp]: "length (keccak256 m) = 32"
  by (simp add: keccak256_def Let_def bytes_of_lane_def upt_rec)

end
