(* ===== verification/EthSign.thy ===== *)
theory EthSign
  imports AleoUtils PacketJson Keccak
begin

text \<open>
  \<open>signingService/chain/ethereum/hash.go\<close> and \<open>sign.go\<close>: the digest of a screened packet for an
  Ethereum destination and its signature. Beside it stands the digest that the bridge contract
  recovers an attestor's address from (\<open>PacketLibrary.sol\<close>, \<open>ConsumedPacketManagerImpl.sol\<close>).
  The cryptographic functions of go-ethereum are the argument \<open>C\<close>, its address parser \<open>E\<close>.
\<close>

section \<open>The library\<close>

text \<open>
  \<open>Keccak256Hash\<close> takes any number of byte slices. A private key is a value of type \<open>'k\<close>, and the
  package variable \<open>pKey\<close> a pointer to one.
\<close>

record 'k eth_crypto =
  Keccak256Hash :: "bytes list \<Rightarrow> bytes"
  Hash_Hex :: "bytes \<Rightarrow> string"
  HexToHash :: "string \<Rightarrow> bytes"
  crypto_Sign :: "bytes \<Rightarrow> 'k option \<Rightarrow> bytes res"
  HexToECDSA :: "string \<Rightarrow> 'k res"
  PubkeyToAddress :: "'k \<Rightarrow> bytes"
  Address_Hex :: "bytes \<Rightarrow> string"

section \<open>hash.go\<close>

text \<open>\<open>big.Int.FillBytes\<close> writes the magnitude and panics when the buffer is too small.\<close>

definition FillBytes :: "bigint \<Rightarrow> nat \<Rightarrow> bytes res" where
  "FillBytes x n =
     (case x of
        None \<Rightarrow> Inl nil_deref
      | Some i \<Rightarrow>
          if 256 ^ n \<le> nat \<bar>i\<bar> then Inl (Panic ''math/big: buffer too small to fit value'')
          else Inr (be_bytes n (nat \<bar>i\<bar>)))"

text \<open>\<open>PutUint64\<close> into the last eight bytes of a zeroed buffer of 32 bytes.\<close>

definition uint64_in_32 :: "u64 \<Rightarrow> bytes" where
  "uint64_in_32 v = replicate 24 0 @ be64 v"

definition getEthBoolByte :: "bool \<Rightarrow> bytes res" where
  "getEthBoolByte b = (if b then FillBytes (Some 1) 1 else FillBytes (Some 0) 1)"

definition packet_fields :: "eth_common \<Rightarrow> packet \<Rightarrow> bytes list res" where
  "packet_fields E p =
     (case FillBytes (m_amount (p_message p)) 32 of
        Inl e \<Rightarrow> Inl e
      | Inr amountBytes \<Rightarrow>
     (case FillBytes (na_chain_id (p_source p)) 32 of
        Inl e \<Rightarrow> Inl e
      | Inr srcChainIDBytes \<Rightarrow>
     (case FillBytes (na_chain_id (p_destination p)) 32 of
        Inl e \<Rightarrow> Inl e
      | Inr dstChainIDBytes \<Rightarrow>
          Inr [uint64_in_32 (ucast (p_version p)),
               uint64_in_32 (p_sequence p),
               srcChainIDBytes,
               bytes_of_string (na_address (p_source p)),
               dstChainIDBytes,
               HexToAddress E (na_address (p_destination p)),
               bytes_of_string (m_sender_address (p_message p)),
               HexToAddress E (m_dest_token_address (p_message p)),
               amountBytes,
               HexToAddress E (m_receiver_address (p_message p)),
               uint64_in_32 (p_height p)])))"

definition sign_prefix :: bytes where
  "sign_prefix = bytes_of_string (CHR 0x19 # ''Ethereum Signed Message:'' @ [CHR 0x0A] @ itoa 32)"

definition eth_hash :: "'k eth_crypto \<Rightarrow> eth_common \<Rightarrow> screened_ptr \<Rightarrow> string res" where
  "eth_hash C E sp =
     (case spp_packet sp of
        None \<Rightarrow> Inl nil_deref
      | Some p \<Rightarrow>
     (case packet_fields E p of
        Inl e \<Rightarrow> Inl e
      | Inr flds \<Rightarrow>
          (let pktHash = Keccak256Hash C flds
           in case getEthBoolByte (spp_is_white sp) of
                Inl e \<Rightarrow> Inl e
              | Inr vote \<Rightarrow>
                  (let hashOfPktHashAndVote = Keccak256Hash C [pktHash, vote];
                       finalHash = Keccak256Hash C [sign_prefix, hashOfPktHashAndVote]
                   in Inr (Hash_Hex C finalHash)))))"

section \<open>sign.go\<close>

definition eth_sign :: "'k eth_crypto \<Rightarrow> 'k option \<Rightarrow> string \<Rightarrow> string res" where
  "eth_sign C pKey hashString =
     (case crypto_Sign C (HexToHash C hashString) pKey of
        Inl e \<Rightarrow> Inl e
      | Inr b \<Rightarrow> Inr (''0x'' @ hex_encode b))"

text \<open>
  \<open>strings.EqualFold\<close> where one side is ASCII text: besides the ASCII letters only two code points
  fold to a letter, and \<open>fold_name\<close> knows them.
\<close>

definition equal_fold :: "string \<Rightarrow> string \<Rightarrow> bool" where
  "equal_fold s t = (fold_name s = fold_name t)"

definition validateKey :: "'k eth_crypto \<Rightarrow> 'k \<Rightarrow> string \<Rightarrow> unit res" where
  "validateKey C privateKey addr =
     (if equal_fold (Address_Hex C (PubkeyToAddress C privateKey)) addr then Inr ()
      else Inl (ErrMsg ''private key cannot derive given wallet address''))"

record key_pair =
  kp_PrivateKey :: string
  kp_WalletAddress :: string

text \<open>The new value of the package variable \<open>pKey\<close> is the second component.\<close>

definition eth_SetUpPrivateKey ::
    "'k eth_crypto \<Rightarrow> key_pair \<Rightarrow> 'k option \<Rightarrow> unit res \<times> 'k option" where
  "eth_SetUpPrivateKey C keyPair pKey =
     (case HexToECDSA C (replace_first ''0x'' [] (kp_PrivateKey keyPair)) of
        Inl e \<Rightarrow> (Inl e, pKey)
      | Inr privateKey \<Rightarrow>
          (case validateKey C privateKey (kp_WalletAddress keyPair) of
             Inl e \<Rightarrow> (Inl e, pKey)
           | Inr u \<Rightarrow> (Inr (), Some privateKey)))"

definition eth_HashAndSign ::
    "'k eth_crypto \<Rightarrow> eth_common \<Rightarrow> 'k option \<Rightarrow> screened_ptr \<Rightarrow> (string \<times> string) res" where
  "eth_HashAndSign C E pKey sp =
     (case eth_hash C E sp of
        Inl e \<Rightarrow> Inl e
      | Inr hsh \<Rightarrow>
          (case eth_sign C pKey hsh of Inl e \<Rightarrow> Inl e | Inr signature \<Rightarrow> Inr (hsh, signature)))"

section \<open>What the library promises\<close>

text \<open>
  Documented behaviour of go-ethereum: the digest of several slices is that of their
  concatenation and has 32 bytes, \<open>Hash.Hex\<close> prints a digest in ASCII and \<open>HexToHash\<close> reads it back,
  and an address has 20 bytes.
\<close>

definition kec :: "'k eth_crypto \<Rightarrow> bytes \<Rightarrow> bytes" where
  "kec C b = Keccak256Hash C [b]"

locale eth_hashing =
  fixes C :: "'k eth_crypto" and E :: eth_common
  assumes kec_concat: "Keccak256Hash C bs = Keccak256Hash C [concat bs]"
    and kec_length: "length (Keccak256Hash C bs) = 32"
    and hex_hash: "length h = 32 \<Longrightarrow> HexToHash C (Hash_Hex C h) = h"
    and hash_ascii: "ascii (Hash_Hex C h)"
    and address_length: "length (HexToAddress E s) = 20"
begin

lemma kec_lists: "Keccak256Hash C bs = kec C (concat bs)"
  by (simp add: kec_def kec_concat [of bs])

lemma length_kec [simp]: "length (kec C b) = 32"
  by (simp add: kec_def kec_length)

lemma HexToHash_kec [simp]: "HexToHash C (Hash_Hex C (kec C b)) = kec C b"
  by (simp add: hex_hash)

end

text \<open>
  The functions of go-ethereum as far as this development defines them: Keccak-256, the printed
  form of a digest and the readers of hexadecimal text. Signing and key handling stay arguments.
\<close>

fun hex_decode :: "string \<Rightarrow> bytes" where
  "hex_decode (a # b # cs) =
     (case (digit_val a, digit_val b) of
        (Some x, Some y) \<Rightarrow> if x < 16 \<and> y < 16 then of_nat (16 * x + y) # hex_decode cs else []
      | _ \<Rightarrow> [])"
| "hex_decode _ = []"

definition from_hex :: "string \<Rightarrow> bytes" where
  "from_hex s =
     (let r = (case s of z # x # cs \<Rightarrow> if z = CHR ''0'' \<and> x \<in> {CHR ''x'', CHR ''X''} then cs else s | _ \<Rightarrow> s)
      in hex_decode (if odd (length r) then CHR ''0'' # r else r))"

definition fit_bytes :: "nat \<Rightarrow> bytes \<Rightarrow> bytes" where
  "fit_bytes n b = replicate (n - length b) 0 @ drop (length b - n) b"

lemma length_fit_bytes [simp]: "length (fit_bytes n b) = n"
  by (simp add: fit_bytes_def)

lemma hex_decode_encode [simp]: "hex_decode (hex_encode b) = b"
proof (induction b)
  case (Cons w b)
  have d: "unat w div 16 < 16" "unat w mod 16 < 16" using unat_u8_le [of w] by auto
  have v: "(of_nat (16 * (unat w div 16) + unat w mod 16) :: u8) = w"
    unfolding mult_div_mod_eq by simp
  have "hex_encode (w # b) = hex_digit (unat w div 16) # hex_digit (unat w mod 16) # hex_encode b"
    by (simp add: hex_encode_def)
  then show ?case
    using Cons digit_val_hex_digit [OF d(1)] digit_val_hex_digit [OF d(2)] d v
    by (simp del: of_nat_add of_nat_mult digit_val_hex_digit)
qed (simp add: hex_encode_def)

lemma from_hex_encode [simp]: "from_hex (CHR ''0'' # CHR ''x'' # hex_encode b) = b"
  by (simp add: from_hex_def length_hex_encode)

lemma ascii_hex_digit: "d < 16 \<Longrightarrow> in_range 0 127 (hex_digit d)"
  by (simp add: hex_digit_def in_range_def)

lemma ascii_hex_encode [simp]: "ascii (hex_encode b)"
proof (induction b)
  case (Cons w b)
  have "hex_encode (w # b) = hex_digit (unat w div 16) # hex_digit (unat w mod 16) # hex_encode b"
    by (simp add: hex_encode_def)
  then show ?case
    using Cons ascii_hex_digit [of "unat w div 16"] ascii_hex_digit [of "unat w mod 16"] unat_u8_le [of w]
    by (simp add: ascii_def)
qed (simp add: hex_encode_def ascii_def)

definition go_crypto ::
    "(bytes \<Rightarrow> 'k option \<Rightarrow> bytes res) \<Rightarrow> (string \<Rightarrow> 'k res) \<Rightarrow> ('k \<Rightarrow> bytes) \<Rightarrow> (bytes \<Rightarrow> string) \<Rightarrow> 'k eth_crypto" where
  "go_crypto sg toKey toAddress addrHex =
     \<lparr>Keccak256Hash = (\<lambda>bs. keccak256 (concat bs)), Hash_Hex = (\<lambda>h. ''0x'' @ hex_encode h),
      HexToHash = (\<lambda>s. fit_bytes 32 (from_hex s)), crypto_Sign = sg, HexToECDSA = toKey,
      PubkeyToAddress = toAddress, Address_Hex = addrHex\<rparr>"

definition go_common :: "(bytes \<Rightarrow> string) \<Rightarrow> eth_common" where
  "go_common addrHex =
     \<lparr>HexToAddress = (\<lambda>s. fit_bytes 20 (from_hex s)), BytesToAddress = fit_bytes 20,
      Address_String = addrHex\<rparr>"

interpretation go_eth: eth_hashing "go_crypto sg toKey toAddress addrHex" "go_common addrHex"
  for sg toKey toAddress addrHex
  by unfold_locales (auto simp: go_crypto_def go_common_def fit_bytes_def in_range_def)

section \<open>The contract\<close>

text \<open>
  \<open>PacketLibrary.InPacket\<close> and the digest \<open>_recover\<close> rebuilds. \<open>abi.encodePacked\<close> writes a
  \<open>uint256\<close> as 32 bytes, an \<open>address\<close> as 20, a \<open>string\<close> as its bytes, and an enum as one byte.
\<close>

type_synonym uint256 = "256 word"

datatype vote = NULL | YEA | NAY

record sol_out_address =
  so_chainId :: uint256
  so_addr :: string

record sol_in_address =
  si_chainId :: uint256
  si_addr :: bytes

record sol_in_message =
  sm_senderAddress :: string
  sm_destTokenAddress :: bytes
  sm_amount :: uint256
  sm_receiverAddress :: bytes

record sol_in_packet =
  sip_version :: uint256
  sip_sequence :: uint256
  sip_sourceTokenService :: sol_out_address
  sip_destTokenService :: sol_in_address
  sip_message :: sol_in_message
  sip_height :: uint256

definition abi_uint256 :: "uint256 \<Rightarrow> bytes" where
  "abi_uint256 w = be_bytes 32 (unat w)"

fun abi_vote :: "vote \<Rightarrow> bytes" where
  "abi_vote NULL = [0]"
| "abi_vote YEA = [1]"
| "abi_vote NAY = [2]"

definition sol_packed :: "sol_in_packet \<Rightarrow> bytes" where
  "sol_packed p = abi_uint256 (sip_version p) @ abi_uint256 (sip_sequence p) @
     abi_uint256 (so_chainId (sip_sourceTokenService p)) @ bytes_of_string (so_addr (sip_sourceTokenService p)) @
     abi_uint256 (si_chainId (sip_destTokenService p)) @ si_addr (sip_destTokenService p) @
     bytes_of_string (sm_senderAddress (sip_message p)) @ sm_destTokenAddress (sip_message p) @
     abi_uint256 (sm_amount (sip_message p)) @ sm_receiverAddress (sip_message p) @ abi_uint256 (sip_height p)"

definition sol_hash :: "(bytes \<Rightarrow> bytes) \<Rightarrow> sol_in_packet \<Rightarrow> bytes" where
  "sol_hash keccak p = keccak (sol_packed p)"

definition recover_digest :: "(bytes \<Rightarrow> bytes) \<Rightarrow> bytes \<Rightarrow> vote \<Rightarrow> bytes" where
  "recover_digest keccak packetHash tryVote =
     keccak (bytes_of_string (CHR 0x19 # ''Ethereum Signed Message:'' @ CHR 0x0A # ''32'') @
       keccak (packetHash @ abi_vote tryVote))"

end
