(* ===== verification/Config.thy ===== *)
theory Config
  imports GoText "HOL-Library.AList"
begin

text \<open>
  \<open>chainService/config/config.go\<close>: the configuration file, its defaults and the paths derived
  from it. The operating system's files are the argument \<open>F\<close> and the YAML decoder the argument
  \<open>decode\<close>. Durations are nanoseconds; maps are association lists with distinct keys.
\<close>

section \<open>Data\<close>

definition Development :: string where "Development = ''dev''"
definition Production :: string where "Production = ''prod''"
definition Stage :: string where "Stage = ''stage''"

definition dbFileName :: string where "dbFileName = ''verulinkBolt.db''"
definition logFileName :: string where "logFileName = ''verulink.log''"
definition perm :: nat where "perm = 744"

type_synonym duration = int

definition second :: duration where "second = 1000000000"
definition hour :: duration where "hour = 3600 * second"

record flag_args =
  fa_ConfigFile :: string
  fa_DBDir :: string
  fa_LogDir :: string
  fa_LogEnc :: string
  fa_Mode :: string
  fa_CleanStart :: bool

record chain_config =
  cc_Name :: string
  cc_ChainID :: bigint
  cc_BridgeContract :: string
  cc_NodeUrl :: string
  cc_PacketValidityWaitDuration :: duration
  cc_FeedPacketWaitDuration :: duration
  cc_FinalityHeight :: u64
  cc_WalletPath :: string
  cc_DestChains :: "string list"
  cc_WalletAddress :: string
  cc_StartSeqNum :: "(string \<times> u64) list"
  cc_StartHeight :: u64
  cc_FilterTopic :: string
  cc_RetryPacketWaitDur :: duration
  cc_PruneBaseSeqNumberWaitDur :: duration
  cc_AverageBlockGenDur :: duration

record logger_config =
  lc_Encoding :: string
  lc_OutputDir :: string
  lc_OutputPath :: string

record metrics_config =
  mc_Host :: string
  mc_JobName :: string

record signing_service_config =
  sc_Host :: string
  sc_Port :: int
  sc_Endpoint :: string
  sc_Scheme :: string
  sc_Username :: string
  sc_Password :: string
  sc_HealthEndpoint :: string

record collector_service_config =
  co_Uri :: string
  co_CollectorWaitDur :: duration
  co_CaCertificate :: string
  co_AttestorCertificate :: string
  co_AttestorKey :: string

text \<open>The elements of \<open>ChainConfigs\<close> and \<open>LogConfig\<close> are pointers, nil where the file has no value.\<close>

record config =
  cf_Name :: string
  cf_ChainConfigs :: "chain_config option list"
  cf_LogConfig :: "logger_config option"
  cf_DBDir :: string
  cf_DBPath :: string
  cf_ConsumePacketWorker :: int
  cf_Mode :: string
  cf_SigningServiceConfig :: signing_service_config
  cf_CollectorServiceConfig :: collector_service_config
  cf_CheckHealthServiceDur :: duration
  cf_MetricConfig :: metrics_config
  cf_Version :: string

section \<open>The file system\<close>

datatype stat_result = StatDir | StatFile | StatNotExist | StatError

text \<open>\<open>os.Remove\<close> answers whether the file was there, or an error of another kind.\<close>

record 'f filesystem =
  fs_read :: "'f \<Rightarrow> string \<Rightarrow> bytes res"
  fs_stat :: "'f \<Rightarrow> string \<Rightarrow> stat_result"
  fs_mkdir_all :: "'f \<Rightarrow> string \<Rightarrow> nat \<Rightarrow> 'f res"
  fs_remove :: "'f \<Rightarrow> string \<Rightarrow> 'f option res"

text \<open>\<open>filepath.Join\<close>: the elements joined by a slash and cleaned.\<close>

fun clean_elems :: "bool \<Rightarrow> string list \<Rightarrow> string list \<Rightarrow> string list" where
  "clean_elems rooted stk [] = rev stk"
| "clean_elems rooted stk (e # es) =
     (if e = [] \<or> e = ''.'' then clean_elems rooted stk es
      else if e = ''..'' then
        (case stk of
           t # stk' \<Rightarrow> if t \<noteq> ''..'' then clean_elems rooted stk' es else clean_elems rooted (e # stk) es
         | [] \<Rightarrow> if rooted then clean_elems rooted [] es else clean_elems rooted [e] es)
      else clean_elems rooted (e # stk) es)"

definition filepath_Clean :: "string \<Rightarrow> string" where
  "filepath_Clean p =
     (let rooted = (p \<noteq> [] \<and> hd p = CHR ''/'');
          r = (if rooted then ''/'' else []) @ go_join ''/'' (clean_elems rooted [] (go_split CHR ''/'' p))
      in if r = [] then ''.'' else r)"

definition filepath_Join :: "string list \<Rightarrow> string" where
  "filepath_Join es =
     (let es' = filter (\<lambda>e. e \<noteq> []) es
      in if es' = [] then [] else filepath_Clean (go_join ''/'' es'))"

section \<open>Paths\<close>

definition validateDirectory :: "'f filesystem \<Rightarrow> string \<Rightarrow> string \<Rightarrow> 'f \<Rightarrow> unit res \<times> 'f" where
  "validateDirectory F p fileName f =
     (if str_contains p fileName
      then (Inl (ErrMsg (''path '' @ p @ '' has ambiguous name. Should not contain '' @ fileName @
              '' in directory path'')), f)
      else (case fs_stat F f p of
              StatNotExist \<Rightarrow>
                (case fs_mkdir_all F f p perm of Inl e \<Rightarrow> (Inl e, f) | Inr f' \<Rightarrow> (Inr (), f'))
            | StatError \<Rightarrow> (Inl nil_deref, f)
            | StatFile \<Rightarrow> (Inl (ErrMsg (''invalid path '' @ p @ ''. Should be directory'')), f)
            | StatDir \<Rightarrow> (Inr (), f)))"

definition getPath :: "'f filesystem \<Rightarrow> string \<Rightarrow> string \<Rightarrow> string \<Rightarrow> 'f \<Rightarrow> string res \<times> 'f" where
  "getPath F pathFrmFlag pathFrmYaml fileName f =
     (if pathFrmFlag \<noteq> [] then
        (case validateDirectory F pathFrmFlag fileName f of
           (Inl e, f') \<Rightarrow> (Inl e, f')
         | (Inr u, f') \<Rightarrow> (Inr (filepath_Join [pathFrmFlag, fileName]), f'))
      else if pathFrmYaml \<noteq> [] then
        (case validateDirectory F pathFrmYaml fileName f of
           (Inl e, f') \<Rightarrow> (Inl e, f')
         | (Inr u, f') \<Rightarrow> (Inr (filepath_Join [pathFrmYaml, fileName]), f'))
      else (Inr (filepath_Join [''.'', fileName]), f))"

section \<open>Chain identifiers\<close>

text \<open>The first loop collects the identifiers by name; the second one rewrites every chain.\<close>

fun chain_ids :: "chain_config option list \<Rightarrow> (string \<rightharpoonup> string) \<Rightarrow> (string \<rightharpoonup> string) res" where
  "chain_ids [] m = Inr m"
| "chain_ids (None # cs) m = Inl nil_deref"
| "chain_ids (Some c # cs) m = chain_ids cs (m(cc_Name c \<mapsto> bigint_str (cc_ChainID c)))"

definition no_chain_id :: "string \<Rightarrow> gerror" where
  "no_chain_id name = ErrMsg (''chain-id not available for '' @ name)"

fun resolve_dests :: "(string \<rightharpoonup> string) \<Rightarrow> string list \<Rightarrow> string list \<Rightarrow> string list res" where
  "resolve_dests ids [] acc = Inr acc"
| "resolve_dests ids (name # names) acc =
     (case ids name of
        None \<Rightarrow> Inl (no_chain_id name)
      | Some chainID \<Rightarrow> resolve_dests ids names (acc @ [chainID]))"

fun resolve_seqs :: "(string \<rightharpoonup> string) \<Rightarrow> (string \<times> u64) list \<Rightarrow> (string \<times> u64) list \<Rightarrow>
    (string \<times> u64) list res" where
  "resolve_seqs ids [] acc = Inr acc"
| "resolve_seqs ids ((name, n) # rest) acc =
     (case ids name of
        None \<Rightarrow> Inl (no_chain_id name)
      | Some chainID \<Rightarrow> resolve_seqs ids rest (AList.update chainID n acc))"

fun resolve_chains :: "(string \<rightharpoonup> string) \<Rightarrow> chain_config option list \<Rightarrow> chain_config option list res" where
  "resolve_chains ids [] = Inr []"
| "resolve_chains ids (None # cs) = Inl nil_deref"
| "resolve_chains ids (Some c # cs) =
     (case resolve_dests ids (cc_DestChains c) [] of
        Inl e \<Rightarrow> Inl e
      | Inr ds \<Rightarrow>
          (case resolve_seqs ids (cc_StartSeqNum c) [] of
             Inl e \<Rightarrow> Inl e
           | Inr ss \<Rightarrow>
               (case resolve_chains ids cs of
                  Inl e \<Rightarrow> Inl e
                | Inr cs' \<Rightarrow> Inr (Some (c\<lparr>cc_DestChains := ds, cc_StartSeqNum := ss\<rparr>) # cs'))))"

definition validateChainConfig :: "config \<Rightarrow> config res" where
  "validateChainConfig cfg =
     (case chain_ids (cf_ChainConfigs cfg) Map.empty of
        Inl e \<Rightarrow> Inl e
      | Inr ids \<Rightarrow>
          (case resolve_chains ids (cf_ChainConfigs cfg) of
             Inl e \<Rightarrow> Inl e
           | Inr cs \<Rightarrow> Inr (cfg\<lparr>cf_ChainConfigs := cs\<rparr>)))"

section \<open>InitConfig\<close>

definition run_mode :: "string \<Rightarrow> string" where
  "run_mode m = (if m = Production then m else if m = Stage then m else Development)"

definition clean_start :: "'f filesystem \<Rightarrow> bool \<Rightarrow> string \<Rightarrow> 'f \<Rightarrow> unit res \<times> 'f" where
  "clean_start F wanted dbFilePath f =
     (if wanted then
        (case fs_remove F f dbFilePath of
           Inl e \<Rightarrow> (Inl e, f)
         | Inr None \<Rightarrow> (Inr (), f)
         | Inr (Some f') \<Rightarrow> (Inr (), f'))
      else (Inr (), f))"

definition set_output :: "flag_args \<Rightarrow> string \<Rightarrow> logger_config \<Rightarrow> logger_config" where
  "set_output a logFilePath l =
     (let l = l\<lparr>lc_OutputPath := logFilePath\<rparr>
      in if fa_LogEnc a \<noteq> [] then l\<lparr>lc_Encoding := fa_LogEnc a\<rparr> else l)"

definition InitConfig :: "'f filesystem \<Rightarrow> (bytes \<Rightarrow> config res) \<Rightarrow> flag_args \<Rightarrow> 'f \<Rightarrow> config res \<times> 'f" where
  "InitConfig F decode flagArgs f =
     (case fs_read F f (fa_ConfigFile flagArgs) of
        Inl e \<Rightarrow> (Inl e, f)
      | Inr b \<Rightarrow>
     (case decode b of
        Inl e \<Rightarrow> (Inl e, f)
      | Inr config0 \<Rightarrow>
     (case validateChainConfig config0 of
        Inl e \<Rightarrow> (Inl e, f)
      | Inr config \<Rightarrow>
     (let scheme = sc_Scheme (cf_SigningServiceConfig config) in
      if scheme \<noteq> ''https'' \<and> scheme \<noteq> ''http''
      then (Inl (ErrMsg (scheme @ '' scheme is not supported'')), f)
      else
     (let config = (if cf_ConsumePacketWorker config = 0 then config\<lparr>cf_ConsumePacketWorker := 10\<rparr> else config)
      in case getPath F (fa_DBDir flagArgs) (cf_DBDir config) dbFileName f of
        (Inl e, f1) \<Rightarrow> (Inl e, f1)
      | (Inr dbFilePath, f1) \<Rightarrow>
     (case cf_LogConfig config of
        None \<Rightarrow> (Inl nil_deref, f1)
      | Some l \<Rightarrow>
     (case getPath F (fa_LogDir flagArgs) (lc_OutputDir l) logFileName f1 of
        (Inl e, f2) \<Rightarrow> (Inl e, f2)
      | (Inr logFilePath, f2) \<Rightarrow>
     (case clean_start F (fa_CleanStart flagArgs) dbFilePath f2 of
        (Inl e, f3) \<Rightarrow> (Inl e, f3)
      | (Inr u, f3) \<Rightarrow>
          (Inr (config\<lparr>cf_DBPath := dbFilePath,
                       cf_LogConfig := Some (set_output flagArgs logFilePath l),
                       cf_Mode := run_mode (fa_Mode flagArgs)\<rparr>), f3)))))))))"

end
