(* ===== verification/SignService.thy ===== *)
theory SignService
  imports EthSign Config
begin

text \<open>
  The signing service (\<open>signingService/\<close>): its configuration (\<open>config/config.go\<close>), the Aleo
  hasher and signer (\<open>chain/aleo/\<close>), the choice of the destination chain (\<open>chain/chain.go\<close>),
  the HTTP handler (\<open>serve.go\<close>) and the start-up (\<open>main.go\<close>). The Rust program \<open>ahs\<close> that the
  Aleo part runs is the argument \<open>ahs\<close>, from its command line to its output.
\<close>

section \<open>config.go\<close>

record sign_cred =
  sc_username :: string
  sc_password :: string

record sign_chain =
  sch_Name :: string
  sch_ChainID :: bigint

record sign_config =
  sg_Chains :: "sign_chain list"
  sg_Cred :: sign_cred

definition zero_sign_config :: sign_config where
  "zero_sign_config = \<lparr>sg_Chains = [], sg_Cred = \<lparr>sc_username = [], sc_password = []\<rparr>\<rparr>"

text \<open>
  The package variable \<open>cfg\<close> is a pointer. The YAML decoder fills the new structure as far as it
  gets, so it returns the structure beside its error.
\<close>

definition LoadConfig ::
    "'f filesystem \<Rightarrow> (bytes \<Rightarrow> sign_config \<times> gerror option) \<Rightarrow> string \<Rightarrow> 'f \<Rightarrow> sign_config option \<Rightarrow>
     unit res \<times> sign_config option" where
  "LoadConfig F decode configPath f cfg =
     (case fs_read F f configPath of
        Inl e \<Rightarrow> (Inl e, cfg)
      | Inr b \<Rightarrow>
          (case decode b of
             (c, None) \<Rightarrow> (Inr (), Some c)
           | (c, Some e) \<Rightarrow> (Inl e, Some c)))"

definition GetChains :: "sign_config option \<Rightarrow> sign_chain list res" where
  "GetChains cfg = (case cfg of None \<Rightarrow> Inl nil_deref | Some c \<Rightarrow> Inr (sg_Chains c))"

definition GetUsernamePassword :: "sign_config option \<Rightarrow> (string \<times> string) res" where
  "GetUsernamePassword cfg =
     (case cfg of None \<Rightarrow> Inl nil_deref | Some c \<Rightarrow> Inr (sc_username (sg_Cred c), sc_password (sg_Cred c)))"

text \<open>The map of key pairs in the order in which its loop visits it; the pairs are pointers.\<close>

type_synonym chain_keys = "(string \<times> key_pair option) list"

definition LoadKeys :: "'f filesystem \<Rightarrow> (bytes \<Rightarrow> chain_keys res) \<Rightarrow> string \<Rightarrow> 'f \<Rightarrow> chain_keys res" where
  "LoadKeys F decode keyPath f = (case fs_read F f keyPath of Inl e \<Rightarrow> Inl e | Inr b \<Rightarrow> decode b)"

section \<open>Aleo: utils.go, hash.go and sign.go\<close>

type_synonym command_output = "string list \<Rightarrow> string res"

definition ahs_command :: string where "ahs_command = ''ahs''"
definition hashCmd :: string where "hashCmd = ''hash''"
definition hashType :: string where "hashType = ''bhp256''"
definition hashOutput :: string where "hashOutput = ''field''"
definition signCmd :: string where "signCmd = ''sign''"
definition deriveAddr :: string where "deriveAddr = ''derive-addr''"
definition aleoTrue :: string where "aleoTrue = ''true''"
definition aleoFalse :: string where "aleoFalse = ''false''"

definition ss_constructEthAddressForAleoParameter :: "eth_common \<Rightarrow> string \<Rightarrow> string" where
  "ss_constructEthAddressForAleoParameter E serviceContract =
     (let serviceContractByte = HexToAddress E serviceContract;
          lenDifference = 32 - length serviceContractByte;
          appendString = ''u8, '';
          aleoAddress = ''[ '' @ concat (replicate lenDifference ''0u8, '') @
            concat (map (\<lambda>b. itoa (unat b) @ appendString) serviceContractByte);
          l = length appendString - length ''u8''
      in take (length aleoAddress - l) aleoAddress @ '' ]'')"

definition ss_constructAleoPacket :: "eth_common \<Rightarrow> packet \<Rightarrow> string" where
  "ss_constructAleoPacket E pkt =
     ''{ version: '' @ itoa_word (p_version pkt) @ ''u8, sequence: '' @ itoa_word (p_sequence pkt) @ ''u64, '' @
     ''source: { chain_id: '' @ bigint_str (na_chain_id (p_source pkt)) @ ''u128, addr: '' @
       ss_constructEthAddressForAleoParameter E (na_address (p_source pkt)) @ '' }, '' @
     ''destination: { chain_id: '' @ bigint_str (na_chain_id (p_destination pkt)) @ ''u128, addr: '' @
       na_address (p_destination pkt) @ '' }, '' @
     ''message: { sender_address: '' @ ss_constructEthAddressForAleoParameter E (m_sender_address (p_message pkt)) @
       '', dest_token_id: '' @ m_dest_token_address (p_message pkt) @
       '' , amount: '' @ bigint_str (m_amount (p_message pkt)) @
       ''u128 , receiver_address: '' @ m_receiver_address (p_message pkt) @ '' }, '' @
     ''height: '' @ itoa_word (p_height pkt) @ ''u64 }''"

definition constructAleoScreeningPacket :: "string \<Rightarrow> string \<Rightarrow> string" where
  "constructAleoScreeningPacket packetHash screening =
     ''{packet_hash:'' @ packetHash @ '',screening_passed:'' @ screening @ ''}''"

definition getAleoBool :: "bool \<Rightarrow> string" where
  "getAleoBool isWhite = (if isWhite then aleoTrue else aleoFalse)"

definition aleo_hash :: "command_output \<Rightarrow> eth_common \<Rightarrow> screened_ptr \<Rightarrow> string res" where
  "aleo_hash ahs E sp =
     (case spp_packet sp of
        None \<Rightarrow> Inl nil_deref
      | Some p \<Rightarrow>
          (case ahs [hashCmd, hashType, ss_constructAleoPacket E p, hashOutput] of
             Inl e \<Rightarrow> Inl e
           | Inr packetHash \<Rightarrow>
               ahs [hashCmd, hashType,
                    constructAleoScreeningPacket packetHash (getAleoBool (spp_is_white sp)), hashOutput]))"

definition aleo_sign :: "command_output \<Rightarrow> string \<Rightarrow> string \<Rightarrow> string res" where
  "aleo_sign ahs sKey s = ahs [signCmd, sKey, s]"

definition aleo_HashAndSign :: "command_output \<Rightarrow> eth_common \<Rightarrow> string \<Rightarrow> screened_ptr \<Rightarrow> (string \<times> string) res" where
  "aleo_HashAndSign ahs E sKey sp =
     (case aleo_hash ahs E sp of
        Inl e \<Rightarrow> Inl e
      | Inr hsh \<Rightarrow>
          (case aleo_sign ahs sKey hsh of Inl e \<Rightarrow> Inl e | Inr signature \<Rightarrow> Inr (hsh, signature)))"

definition validateAleoPrivateKey :: "command_output \<Rightarrow> string \<Rightarrow> string \<Rightarrow> unit res" where
  "validateAleoPrivateKey ahs privateKey publicKey =
     (case ahs [deriveAddr, privateKey] of
        Inl e \<Rightarrow> Inl e
      | Inr addr \<Rightarrow>
          if publicKey \<noteq> addr then Inl (ErrMsg ''supplied private key couldnot derive supplied public key'')
          else Inr ())"

definition aleo_SetUpPrivateKey :: "command_output \<Rightarrow> key_pair \<Rightarrow> string \<Rightarrow> unit res \<times> string" where
  "aleo_SetUpPrivateKey ahs keyPair sKey =
     (case validateAleoPrivateKey ahs (kp_PrivateKey keyPair) (kp_WalletAddress keyPair) of
        Inl e \<Rightarrow> (Inl e, sKey)
      | Inr u \<Rightarrow> (Inr (), kp_PrivateKey keyPair))"

definition IsAhsCommandAvailable :: "(string \<Rightarrow> string res) \<Rightarrow> bool" where
  "IsAhsCommandAvailable lookPath = (case lookPath ahs_command of Inl e \<Rightarrow> False | Inr u \<Rightarrow> True)"

section \<open>chain.go\<close>

definition Aleo :: string where "Aleo = ''aleo''"
definition Ethereum :: string where "Ethereum = ''ethereum''"

text \<open>The package variables of the service.\<close>

record 'k sign_state =
  ss_cfg :: "sign_config option"
  ss_chainIDToName :: "string \<rightharpoonup> string"
  ss_sKey :: string
  ss_pKey :: "'k option"

text \<open>What the service runs on: the program \<open>ahs\<close> and the functions of go-ethereum.\<close>

record 'k sign_env =
  se_ahs :: command_output
  se_crypto :: "'k eth_crypto"
  se_common :: eth_common

definition sign_destination :: "'k sign_env \<Rightarrow> 'k sign_state \<Rightarrow> string \<Rightarrow> screened_ptr \<Rightarrow> (string \<times> string) res" where
  "sign_destination V st chainName sp =
     (if chainName = Aleo then aleo_HashAndSign (se_ahs V) (se_common V) (ss_sKey st) sp
      else if chainName = Ethereum then eth_HashAndSign (se_crypto V) (se_common V) (ss_pKey st) sp
      else Inl (ErrMsg (''chain '' @ chainName @ '' is not supported'')))"

definition HashAndSign :: "'k sign_env \<Rightarrow> 'k sign_state \<Rightarrow> bytes \<Rightarrow> (string \<times> string) res" where
  "HashAndSign V st data =
     (case unmarshal_screened data of
        Inl e \<Rightarrow> Inl e
      | Inr sp \<Rightarrow>
     (case spp_packet sp of
        None \<Rightarrow> Inl nil_deref
      | Some p \<Rightarrow>
          (let chainID = bigint_str (na_chain_id (p_destination p))
           in case ss_chainIDToName st chainID of
                None \<Rightarrow> Inl (ErrMsg (''chain-id '' @ chainID @ '' is not supported''))
              | Some chainName \<Rightarrow> sign_destination V st chainName sp)))"

definition SetUpChains :: "'k sign_state \<Rightarrow> 'k sign_state res" where
  "SetUpChains st =
     (case GetChains (ss_cfg st) of
        Inl e \<Rightarrow> Inl e
      | Inr cs \<Rightarrow>
          Inr (st\<lparr>ss_chainIDToName :=
            fold (\<lambda>c m. m(bigint_str (sch_ChainID c) \<mapsto> sch_Name c)) cs (ss_chainIDToName st)\<rparr>))"

section \<open>serve.go\<close>

text \<open>
  A request as the handler reads it: method, the credentials of basic authentication and the
  body or the error of reading it. A panic of a handler aborts the connection without an answer.
\<close>

record sign_request =
  sr_Method :: string
  sr_BasicAuth :: "(string \<times> string) option"
  sr_Body :: "bytes res"

record sign_response =
  sp_Status :: nat
  sp_Body :: string

definition StatusOK :: nat where "StatusOK = 200"
definition StatusCreated :: nat where "StatusCreated = 201"
definition StatusBadRequest :: nat where "StatusBadRequest = 400"
definition StatusForbidden :: nat where "StatusForbidden = 403"
definition MethodGet :: string where "MethodGet = ''GET''"
definition MethodPost :: string where "MethodPost = ''POST''"

definition signatureField :: string where "signatureField = ''signature''"
definition hashField :: string where "hashField = ''hash''"

definition methodErr :: "string \<Rightarrow> string" where
  "methodErr s = ''method '' @ s @ '' not supported''"

text \<open>The JSON document of the answer has its keys in order.\<close>

definition sign_answer :: "string \<Rightarrow> string \<Rightarrow> string" where
  "sign_answer hsh signature = print_json (JObj [(hashField, JStr hsh), (signatureField, JStr signature)])"

definition bad_request :: "string \<Rightarrow> gerror \<Rightarrow> sign_response res" where
  "bad_request context e =
     (if is_panic e then Inl e
      else Inr \<lparr>sp_Status = StatusBadRequest, sp_Body = context @ error_text e\<rparr>)"

definition sign_handler :: "'k sign_env \<Rightarrow> 'k sign_state \<Rightarrow> sign_request \<Rightarrow> sign_response res" where
  "sign_handler V st r =
     (let (username, password) = (case sr_BasicAuth r of None \<Rightarrow> ([], []) | Some up \<Rightarrow> up)
      in case GetUsernamePassword (ss_cfg st) of
           Inl e \<Rightarrow> Inl e
         | Inr (cfgUser, cfgPass) \<Rightarrow>
             if username \<noteq> cfgUser \<or> password \<noteq> cfgPass then Inr \<lparr>sp_Status = StatusForbidden, sp_Body = []\<rparr>
             else if sr_Method r \<noteq> MethodPost
             then Inr \<lparr>sp_Status = StatusBadRequest, sp_Body = methodErr (sr_Method r)\<rparr>
             else (case sr_Body r of
                     Inl e \<Rightarrow> bad_request ''error reading request body: '' e
                   | Inr data \<Rightarrow>
                       (case HashAndSign V st data of
                          Inl e \<Rightarrow> bad_request ''error hashing and signing data: '' e
                        | Inr (hsh, signature) \<Rightarrow>
                            Inr \<lparr>sp_Status = StatusOK, sp_Body = sign_answer hsh signature\<rparr>)))"

definition health_handler :: "sign_request \<Rightarrow> sign_response res" where
  "health_handler r = Inr \<lparr>sp_Status = StatusOK, sp_Body = ''OK''\<rparr>"

text \<open>The routes that \<open>registerHandlers\<close> installs; every other path is answered with 404.\<close>

definition registerHandlers :: "'k sign_env \<Rightarrow> 'k sign_state \<Rightarrow> string \<Rightarrow> sign_request \<Rightarrow> sign_response res" where
  "registerHandlers V st path r =
     (if path = ''/sign'' then sign_handler V st r
      else if path = ''/health'' then health_handler r
      else Inr \<lparr>sp_Status = 404, sp_Body = ''404 page not found'' @ [CHR 0x0A]\<rparr>)"

section \<open>main.go\<close>

definition setup_key :: "'k sign_env \<Rightarrow> string \<Rightarrow> key_pair option \<Rightarrow> 'k sign_state \<Rightarrow> unit res \<times> 'k sign_state" where
  "setup_key V chainName cfg st =
     (if chainName = Aleo then
        (case cfg of
           None \<Rightarrow> (Inl nil_deref, st)
         | Some kp \<Rightarrow> (let (r, k) = aleo_SetUpPrivateKey (se_ahs V) kp (ss_sKey st) in (r, st\<lparr>ss_sKey := k\<rparr>)))
      else if chainName = Ethereum then
        (case cfg of
           None \<Rightarrow> (Inl nil_deref, st)
         | Some kp \<Rightarrow> (let (r, k) = eth_SetUpPrivateKey (se_crypto V) kp (ss_pKey st) in (r, st\<lparr>ss_pKey := k\<rparr>)))
      else (Inl (ErrMsg (''unsupported chain '' @ chainName)), st))"

fun setup_keys :: "'k sign_env \<Rightarrow> chain_keys \<Rightarrow> 'k sign_state \<Rightarrow> unit res \<times> 'k sign_state" where
  "setup_keys V [] st = (Inr (), st)"
| "setup_keys V ((chainName, cfg) # m) st =
     (case setup_key V chainName cfg st of
        (Inl e, st') \<Rightarrow>
          (Inl (if is_panic e then e else ErrMsg (''error setting up private key: '' @ error_text e)), st')
      | (Inr u, st') \<Rightarrow> setup_keys V m st')"

text \<open>
  The start-up: the state in which the service starts to serve, or the error with which the
  process exits. The flags are the two paths.
\<close>

definition sign_main ::
    "'k sign_env \<Rightarrow> (string \<Rightarrow> string res) \<Rightarrow> 'f filesystem \<Rightarrow> (bytes \<Rightarrow> sign_config \<times> gerror option) \<Rightarrow>
     (bytes \<Rightarrow> chain_keys res) \<Rightarrow> string \<Rightarrow> string \<Rightarrow> 'f \<Rightarrow> 'k sign_state res" where
  "sign_main V lookPath F decodeCfg decodeKeys configPath keyPath f =
     (case LoadConfig F decodeCfg configPath f None of
        (Inl e, cfg) \<Rightarrow> Inl (ErrMsg (''can not load config path: '' @ error_text e))
      | (Inr u, cfg) \<Rightarrow>
     (if \<not> IsAhsCommandAvailable lookPath
      then Inl (ErrMsg ''Ahs(Aleo hasher+signer) command is not available'')
      else
     (case LoadKeys F decodeKeys keyPath f of
        Inl e \<Rightarrow> Inl (ErrMsg (''unable to load keys: '' @ error_text e))
      | Inr m \<Rightarrow>
     (case setup_keys V m \<lparr>ss_cfg = cfg, ss_chainIDToName = Map.empty, ss_sKey = [], ss_pKey = None\<rparr> of
        (Inl e, st) \<Rightarrow> Inl e
      | (Inr u, st) \<Rightarrow> SetUpChains st))))"

end
