(* ===== verification/EthSignProps.thy ===== *)
theory EthSignProps
  imports EthSign
begin

text \<open>
  What the signing service promises for Ethereum destinations: the digest it signs is the one the
  bridge contract checks, and it commits to every field of the packet. The theory also shows
  where the two sides disagree: on the vote of a packet that failed screening.
\<close>

section \<open>Encodings\<close>

text \<open>The packet as it arrives at the contract.\<close>

definition uint256_of :: "bigint \<Rightarrow> uint256" where
  "uint256_of x = (case x of None \<Rightarrow> 0 | Some i \<Rightarrow> of_int i)"

definition to_contract :: "eth_common \<Rightarrow> packet \<Rightarrow> sol_in_packet" where
  "to_contract E p =
     \<lparr>sip_version = ucast (p_version p), sip_sequence = ucast (p_sequence p),
      sip_sourceTokenService = \<lparr>so_chainId = uint256_of (na_chain_id (p_source p)), so_addr = na_address (p_source p)\<rparr>,
      sip_destTokenService = \<lparr>si_chainId = uint256_of (na_chain_id (p_destination p)),
                              si_addr = HexToAddress E (na_address (p_destination p))\<rparr>,
      sip_message = \<lparr>sm_senderAddress = m_sender_address (p_message p),
                     sm_destTokenAddress = HexToAddress E (m_dest_token_address (p_message p)),
                     sm_amount = uint256_of (m_amount (p_message p)),
                     sm_receiverAddress = HexToAddress E (m_receiver_address (p_message p))\<rparr>,
      sip_height = ucast (p_height p)\<rparr>"

definition is_uint256 :: "bigint \<Rightarrow> bool" where
  "is_uint256 x = (case x of None \<Rightarrow> False | Some i \<Rightarrow> 0 \<le> i \<and> i < 2 ^ 256)"

definition uint256_packet :: "packet \<Rightarrow> bool" where
  "uint256_packet p \<longleftrightarrow> is_uint256 (m_amount (p_message p)) \<and> is_uint256 (na_chain_id (p_source p)) \<and>
     is_uint256 (na_chain_id (p_destination p))"

lemma be_bytes_add: "be_bytes (n + m) v = be_bytes n (v div 256 ^ m) @ be_bytes m v"
proof (induction m arbitrary: v)
  case (Suc m)
  have "be_bytes (n + Suc m) v = be_bytes (n + m) (v div 256) @ [of_nat v]" by simp
  also have "\<dots> = (be_bytes n (v div 256 div 256 ^ m) @ be_bytes m (v div 256)) @ [of_nat v]"
    by (simp only: Suc.IH)
  finally show ?case by (simp only: div_mult2_eq [symmetric] power_Suc be_bytes.simps append_assoc)
qed simp

lemma be_bytes_zero [simp]: "be_bytes n 0 = replicate n 0"
  by (induction n) (simp_all add: replicate_append_same)

lemma unat_ucast_256 [simp]: "unat (ucast (w :: u64) :: uint256) = unat w"
  using unsigned_less [of w, where ?'a = nat] by (simp add: unsigned_ucast_eq take_bit_nat_eq_self)

lemma abi_uint64: "abi_uint256 (ucast (w :: u64)) = uint64_in_32 w"
proof -
  have w: "unat w < 256 ^ 8" using unsigned_less [of w, where ?'a = nat] by simp
  have "be_bytes 32 (unat w) = be_bytes 24 (unat w div 256 ^ 8) @ be_bytes 8 (unat w)"
    using be_bytes_add [of 24 8 "unat w"] by simp
  then show ?thesis using w by (simp add: abi_uint256_def uint64_in_32_def be64_def)
qed

lemma abi_uint8: "abi_uint256 (ucast (w :: u8)) = uint64_in_32 (ucast w)"
proof -
  have w: "unat w < 256" using unsigned_less [of w, where ?'a = nat] by simp
  have u: "unat (ucast w :: u64) = unat w" "unat (ucast w :: uint256) = unat w"
    using w by (simp_all add: unsigned_ucast_eq take_bit_nat_eq_self)
  have "(ucast w :: uint256) = ucast (ucast w :: u64)"
    using u by (simp only: word_unat_eq_iff unat_ucast_256)
  then show ?thesis by (simp only: abi_uint64)
qed

lemma FillBytes_uint256: "is_uint256 x \<Longrightarrow> FillBytes x 32 = Inr (abi_uint256 (uint256_of x))"
proof (cases x)
  case (Some i)
  assume "is_uint256 x"
  then have i: "0 \<le> i" "i < 2 ^ 256" using Some by (simp_all add: is_uint256_def)
  then have "nat i < 256 ^ 32" by (simp add: nat_less_iff)
  moreover have "unat (of_int i :: uint256) = nat i"
    using i by (simp add: unsigned_of_int take_bit_int_eq_self)
  ultimately show ?thesis using i Some by (simp add: FillBytes_def uint256_of_def abi_uint256_def)
qed (simp add: is_uint256_def)

lemma packet_fields_packed:
  assumes "uint256_packet p"
  shows "\<exists>flds. packet_fields E p = Inr flds \<and> concat flds = sol_packed (to_contract E p)"
  using assms
  by (simp add: packet_fields_def uint256_packet_def FillBytes_uint256 sol_packed_def to_contract_def
      abi_uint64 abi_uint8)

lemma getEthBoolByte_simps [simp]: "getEthBoolByte True = Inr [1]" "getEthBoolByte False = Inr [0]"
  by (simp_all add: getEthBoolByte_def FillBytes_def One_nat_def)

definition vote_of :: "bool \<Rightarrow> vote" where
  "vote_of isWhite = (if isWhite then YEA else NULL)"

lemma sign_prefix_text:
  "sign_prefix = bytes_of_string (CHR 0x19 # ''Ethereum Signed Message:'' @ CHR 0x0A # ''32'')"
  by (simp add: sign_prefix_def itoa.simps digit_char_def char_of_eq_iff take_bit_eq_mod)

context eth_hashing
begin

lemma eth_hash_digest:
  assumes "uint256_packet p"
  shows "eth_hash C E \<lparr>spp_packet = Some p, spp_is_white = w\<rparr> =
    Inr (Hash_Hex C (recover_digest (kec C) (sol_hash (kec C) (to_contract E p)) (vote_of w)))"
proof -
  obtain flds where f: "packet_fields E p = Inr flds" "concat flds = sol_packed (to_contract E p)"
    using packet_fields_packed [OF assms] by blast
  have v: "getEthBoolByte w = Inr (abi_vote (vote_of w))" by (cases w) (simp_all add: vote_of_def)
  show ?thesis
    by (simp add: eth_hash_def f v kec_lists sol_hash_def recover_digest_def sign_prefix_text Let_def)
qed

lemma signed_digest:
  assumes "eth_hash C E sp = Inr hsh"
  shows "\<exists>d. hsh = Hash_Hex C (kec C d) \<and> HexToHash C hsh = kec C d"
  using assms by (auto simp: eth_hash_def Let_def kec_lists split: option.splits sum.splits)

end

text \<open>
  C8. The service signs what the contract checks. For every packet whose amount and chain
  identifiers are 256-bit unsigned integers, the text \<open>HashAndSign\<close> hashes to and the digest it
  signs are those from which the bridge contract recovers the signer of a positive vote when the
  packet passed screening: the packed encoding of all eleven fields, hashed, extended by the vote
  and hashed under the Ethereum message prefix.
\<close>

theorem eth_hash_is_contract_digest:
  assumes "eth_hashing C E" and "uint256_packet p"
  shows "let digest = recover_digest (kec C) (sol_hash (kec C) (to_contract E p)) YEA in
    eth_HashAndSign C E pKey \<lparr>spp_packet = Some p, spp_is_white = True\<rparr> =
      (case crypto_Sign C digest pKey of
         Inl e \<Rightarrow> Inl e | Inr b \<Rightarrow> Inr (Hash_Hex C digest, ''0x'' @ hex_encode b))"
  using eth_hashing.eth_hash_digest [OF assms, of True] eth_hashing.HexToHash_kec [OF assms(1)]
  by (auto simp: eth_HashAndSign_def eth_sign_def vote_of_def recover_digest_def Let_def split: sum.splits)

definition attested_packet :: packet where
  "attested_packet =
     \<lparr>p_version = 1,
      p_source = \<lparr>na_chain_id = Some 2,
                  na_address = ''aleo1fg8y0ax9g0yhahrknngzwxkpcf7ejy3mm6cent4mmtwew5ueps8s6jzl27''\<rparr>,
      p_destination = \<lparr>na_chain_id = Some 1, na_address = ''0x2D9B1dF35e4fAc995377aD7f7a84070CD36400Ff''\<rparr>,
      p_sequence = 1,
      p_message = \<lparr>m_dest_token_address = ''0xc9788ef51c8deB28F3F205b0B2F124F6884541A4'',
                   m_sender_address = ''aleo1fg8y0ax9g0yhahrknngzwxkpcf7ejy3mm6cent4mmtwew5ueps8s6jzl27'',
                   m_amount = Some 10, m_receiver_address = ''0xBd31ba048373A07bE0357B7Ad3182F4206c8064d''\<rparr>,
      p_height = 100, p_is_missed = False\<rparr>"

definition sample_crypto :: "unit eth_crypto" where
  "sample_crypto =
     go_crypto (\<lambda>d k. case k of None \<Rightarrow> Inl nil_deref | Some u \<Rightarrow> Inr (d @ d @ [27])) (\<lambda>s. Inr ())
       (\<lambda>k. replicate 20 9) (\<lambda>a. ''0x'' @ hex_encode a)"

definition sample_common :: eth_common where
  "sample_common = go_common (\<lambda>a. ''0x'' @ hex_encode a)"

lemma sample_hashing: "eth_hashing sample_crypto sample_common"
  unfolding sample_crypto_def sample_common_def by (rule go_eth.eth_hashing_axioms)

lemma attested_uint256: "uint256_packet attested_packet"
  by (simp add: uint256_packet_def is_uint256_def attested_packet_def)

theorem eth_hash_is_contract_digest_witness:
  "eth_HashAndSign sample_crypto sample_common (Some ()) \<lparr>spp_packet = Some attested_packet, spp_is_white = True\<rparr> =
     (let d = recover_digest (kec sample_crypto)
                (sol_hash (kec sample_crypto) (to_contract sample_common attested_packet)) YEA
      in Inr (Hash_Hex sample_crypto d, ''0x'' @ hex_encode (d @ d @ [27])))"
  using eth_hash_is_contract_digest [OF sample_hashing, OF attested_uint256, of "Some ()"]
  by (simp add: Let_def sample_crypto_def go_crypto_def)

section \<open>What the digest commits to\<close>

definition same_fields :: "eth_common \<Rightarrow> packet \<Rightarrow> packet \<Rightarrow> bool" where
  "same_fields E p q \<longleftrightarrow> p_version p = p_version q \<and> p_sequence p = p_sequence q \<and> p_height p = p_height q \<and>
     map_option abs (na_chain_id (p_source p)) = map_option abs (na_chain_id (p_source q)) \<and>
     na_address (p_source p) = na_address (p_source q) \<and>
     map_option abs (na_chain_id (p_destination p)) = map_option abs (na_chain_id (p_destination q)) \<and>
     HexToAddress E (na_address (p_destination p)) = HexToAddress E (na_address (p_destination q)) \<and>
     m_sender_address (p_message p) = m_sender_address (p_message q) \<and>
     HexToAddress E (m_dest_token_address (p_message p)) = HexToAddress E (m_dest_token_address (p_message q)) \<and>
     map_option abs (m_amount (p_message p)) = map_option abs (m_amount (p_message q)) \<and>
     HexToAddress E (m_receiver_address (p_message p)) = HexToAddress E (m_receiver_address (p_message q))"

lemma uint64_in_32_inj [simp]: "uint64_in_32 v = uint64_in_32 w \<longleftrightarrow> v = w"
  by (simp add: uint64_in_32_def)

lemma length_uint64_in_32 [simp]: "length (uint64_in_32 v) = 32"
  by (simp add: uint64_in_32_def)

lemma FillBytes_inj:
  assumes "FillBytes x n = Inr b" and "FillBytes y n = Inr b"
  shows "map_option abs x = map_option abs y"
proof -
  obtain i j where ij: "x = Some i" "y = Some j" "nat \<bar>i\<bar> < 256 ^ n" "nat \<bar>j\<bar> < 256 ^ n"
    "be_bytes n (nat \<bar>i\<bar>) = be_bytes n (nat \<bar>j\<bar>)"
    using assms by (auto simp: FillBytes_def split: option.splits if_splits)
  then have "nat \<bar>i\<bar> = nat \<bar>j\<bar>" using be_bytes_inj by blast
  then show ?thesis using ij by simp
qed

lemma length_FillBytes: "FillBytes x n = Inr b \<Longrightarrow> length b = n"
  by (auto simp: FillBytes_def split: option.splits if_splits)

lemma packet_fields_cases:
  assumes "packet_fields E p = Inr f"
  obtains am src dst where
    "FillBytes (m_amount (p_message p)) 32 = Inr am" "FillBytes (na_chain_id (p_source p)) 32 = Inr src"
    "FillBytes (na_chain_id (p_destination p)) 32 = Inr dst"
    "f = [uint64_in_32 (ucast (p_version p)), uint64_in_32 (p_sequence p), src,
       bytes_of_string (na_address (p_source p)), dst, HexToAddress E (na_address (p_destination p)),
       bytes_of_string (m_sender_address (p_message p)), HexToAddress E (m_dest_token_address (p_message p)),
       am, HexToAddress E (m_receiver_address (p_message p)), uint64_in_32 (p_height p)]"
  using assms by (auto simp: packet_fields_def split: sum.splits)

lemma concat_eq_same_lengths:
  assumes "map length xs = map length ys" and "concat xs = concat ys"
  shows "xs = ys"
  using assms
proof (induction xs arbitrary: ys)
  case (Cons x xs)
  then show ?case by (cases ys) auto
qed simp

lemma ucast_u8_inj: "(ucast (v :: u8) :: u64) = ucast w \<Longrightarrow> v = w"
proof -
  have "unat (ucast x :: u64) = unat x" for x :: u8
    using unsigned_less [of x, where ?'a = nat] by (simp add: unsigned_ucast_eq take_bit_nat_eq_self)
  then show "ucast v = (ucast w :: u64) \<Longrightarrow> v = w" by (metis word_unat_eq_iff)
qed

lemma packet_fields_inj:
  assumes f: "packet_fields E p = Inr f" and g: "packet_fields E q = Inr g"
    and eq: "concat f = concat g"
    and src: "length (na_address (p_source p)) = length (na_address (p_source q))"
    and addr: "\<And>s. length (HexToAddress E s) = 20"
  shows "same_fields E p q"
proof -
  obtain am1 s1 d1 where 1: "FillBytes (m_amount (p_message p)) 32 = Inr am1"
    "FillBytes (na_chain_id (p_source p)) 32 = Inr s1" "FillBytes (na_chain_id (p_destination p)) 32 = Inr d1"
    "f = [uint64_in_32 (ucast (p_version p)), uint64_in_32 (p_sequence p), s1,
       bytes_of_string (na_address (p_source p)), d1, HexToAddress E (na_address (p_destination p)),
       bytes_of_string (m_sender_address (p_message p)), HexToAddress E (m_dest_token_address (p_message p)),
       am1, HexToAddress E (m_receiver_address (p_message p)), uint64_in_32 (p_height p)]"
    using packet_fields_cases [OF f] by blast
  obtain am2 s2 d2 where 2: "FillBytes (m_amount (p_message q)) 32 = Inr am2"
    "FillBytes (na_chain_id (p_source q)) 32 = Inr s2" "FillBytes (na_chain_id (p_destination q)) 32 = Inr d2"
    "g = [uint64_in_32 (ucast (p_version q)), uint64_in_32 (p_sequence q), s2,
       bytes_of_string (na_address (p_source q)), d2, HexToAddress E (na_address (p_destination q)),
       bytes_of_string (m_sender_address (p_message q)), HexToAddress E (m_dest_token_address (p_message q)),
       am2, HexToAddress E (m_receiver_address (p_message q)), uint64_in_32 (p_height q)]"
    using packet_fields_cases [OF g] by blast
  note len = length_FillBytes [OF 1(1)] length_FillBytes [OF 1(2)] length_FillBytes [OF 1(3)]
    length_FillBytes [OF 2(1)] length_FillBytes [OF 2(2)] length_FillBytes [OF 2(3)]
  have "length (concat f) = length (concat g)" using eq by simp
  then have "length (m_sender_address (p_message p)) = length (m_sender_address (p_message q))"
    using src by (simp add: 1(4) 2(4) len addr)
  then have "map length f = map length g" using src by (simp add: 1(4) 2(4) len addr)
  then have fg: "f = g" using eq by (rule concat_eq_same_lengths)
  have e: "am2 = am1" "s2 = s1" "d2 = d1" using fg unfolding 1(4) 2(4) by simp_all
  have "p_version p = p_version q" by (rule ucast_u8_inj) (use fg in \<open>simp add: 1(4) 2(4)\<close>)
  moreover note FillBytes_inj [OF 1(1) 2(1) [unfolded e]] FillBytes_inj [OF 1(2) 2(2) [unfolded e]]
    FillBytes_inj [OF 1(3) 2(3) [unfolded e]]
  moreover have "p_sequence p = p_sequence q" "p_height p = p_height q"
    "na_address (p_source p) = na_address (p_source q)"
    "HexToAddress E (na_address (p_destination p)) = HexToAddress E (na_address (p_destination q))"
    "m_sender_address (p_message p) = m_sender_address (p_message q)"
    "HexToAddress E (m_dest_token_address (p_message p)) = HexToAddress E (m_dest_token_address (p_message q))"
    "HexToAddress E (m_receiver_address (p_message p)) = HexToAddress E (m_receiver_address (p_message q))"
    using fg unfolding 1(4) 2(4) by simp_all
  ultimately show ?thesis unfolding same_fields_def by blast
qed

text \<open>The three texts that are hashed for a packet and a screening result.\<close>

definition hash_inputs :: "'k eth_crypto \<Rightarrow> eth_common \<Rightarrow> packet \<Rightarrow> bool \<Rightarrow> bytes list" where
  "hash_inputs C E p w =
     (let f = (case packet_fields E p of Inl e \<Rightarrow> [] | Inr flds \<Rightarrow> concat flds);
          v = kec C f @ abi_vote (vote_of w)
      in [f, v, sign_prefix @ kec C v])"

lemma eth_hash_inputs:
  assumes "eth_hashing C E" and "eth_hash C E \<lparr>spp_packet = Some p, spp_is_white = w\<rparr> = Inr h"
  shows "HexToHash C h = kec C (hash_inputs C E p w ! 2) \<and> (\<exists>f. packet_fields E p = Inr f)"
proof -
  have v: "getEthBoolByte w = Inr (abi_vote (vote_of w))" by (cases w) (simp_all add: vote_of_def)
  obtain f where f: "packet_fields E p = Inr f"
    using assms(2) by (auto simp: eth_hash_def split: sum.splits)
  then have "h = Hash_Hex C (kec C (hash_inputs C E p w ! 2))"
    using assms(2) by (simp add: eth_hash_def v hash_inputs_def eth_hashing.kec_lists [OF assms(1)] Let_def)
  then show ?thesis using f eth_hashing.HexToHash_kec [OF assms(1)] by simp
qed

text \<open>
  C22. The digest commits to the packet and to the vote. Two packets whose source addresses have
  the same length, as all Aleo addresses have, are signed under the same hash text only if they
  agree in version, sequence number, height, the magnitudes of the chain identifiers and the
  amount, all addresses as the contract reads them and the screening result, or if one of the
  three pairs of texts hashed on the way is a collision of the hash function.
\<close>

theorem eth_hash_commits:
  assumes "eth_hashing C E"
    and "eth_hash C E \<lparr>spp_packet = Some p, spp_is_white = v\<rparr> = Inr h"
    and "eth_hash C E \<lparr>spp_packet = Some q, spp_is_white = w\<rparr> = Inr h"
    and "length (na_address (p_source p)) = length (na_address (p_source q))"
  shows "same_fields E p q \<and> v = w \<or>
    (\<exists>i < 3. hash_inputs C E p v ! i \<noteq> hash_inputs C E q w ! i \<and>
       kec C (hash_inputs C E p v ! i) = kec C (hash_inputs C E q w ! i))"
proof (rule disjCI)
  let ?x = "hash_inputs C E p v" and ?y = "hash_inputs C E q w"
  assume "\<not> (\<exists>i < 3. ?x ! i \<noteq> ?y ! i \<and> kec C (?x ! i) = kec C (?y ! i))"
  then have no: "kec C (?x ! i) = kec C (?y ! i) \<Longrightarrow> ?x ! i = ?y ! i" if "i < 3" for i
    using that by blast
  obtain f where f: "packet_fields E p = Inr f" using eth_hash_inputs [OF assms(1,2)] by blast
  obtain g where g: "packet_fields E q = Inr g" using eth_hash_inputs [OF assms(1,3)] by blast
  have "?x ! 2 = ?y ! 2"
    using no [of 2] eth_hash_inputs [OF assms(1,2)] eth_hash_inputs [OF assms(1,3)] by simp
  then have "?x ! 1 = ?y ! 1" using no [of 1] by (simp add: hash_inputs_def Let_def)
  then have 1: "kec C (?x ! 0) = kec C (?y ! 0)" "abi_vote (vote_of v) = abi_vote (vote_of w)"
    using eth_hashing.length_kec [OF assms(1)] by (simp_all add: hash_inputs_def Let_def)
  then have "concat f = concat g" using no [of 0] by (simp add: hash_inputs_def Let_def f g)
  from packet_fields_inj [OF f g this assms(4) eth_hashing.address_length [OF assms(1)]]
  have "same_fields E p q" .
  moreover have "v = w" using 1(2) by (cases v; cases w) (simp_all add: vote_of_def)
  ultimately show "same_fields E p q \<and> v = w" ..
qed

theorem eth_hash_commits_witness:
  "\<exists>h. eth_hash sample_crypto sample_common \<lparr>spp_packet = Some attested_packet, spp_is_white = True\<rparr> = Inr h \<and>
     (same_fields sample_common attested_packet attested_packet \<and> True = True \<or>
      (\<exists>i < 3. hash_inputs sample_crypto sample_common attested_packet True ! i \<noteq>
           hash_inputs sample_crypto sample_common attested_packet True ! i \<and>
         kec sample_crypto (hash_inputs sample_crypto sample_common attested_packet True ! i) =
           kec sample_crypto (hash_inputs sample_crypto sample_common attested_packet True ! i)))"
proof -
  obtain h where
    "eth_hash sample_crypto sample_common \<lparr>spp_packet = Some attested_packet, spp_is_white = True\<rparr> = Inr h"
    using eth_hashing.eth_hash_digest [OF sample_hashing attested_uint256] by blast
  then show ?thesis using eth_hash_commits [OF sample_hashing] by blast
qed

section \<open>The vote of a rejected packet\<close>

text \<open>
  A negative screening result is not a negative vote. For a packet that failed screening the
  service signs the digest with the vote byte 0, which is \<open>Vote.NULL\<close>; the contract tries only
  \<open>Vote.NAY\<close>, whose byte is 2, and \<open>Vote.YEA\<close>. The signed digest is neither of the two unless
  Keccak collides on texts that differ in the vote byte or on the two that follow from them, so a
  signature over a rejected packet counts as one of an unknown signer.
\<close>

theorem rejected_packet_signs_null_vote:
  assumes "eth_hashing C E" and "uint256_packet p" and "v \<in> {YEA, NAY}"
  shows "let h = sol_hash (kec C) (to_contract E p); d = recover_digest (kec C) h in
    eth_hash C E \<lparr>spp_packet = Some p, spp_is_white = False\<rparr> = Inr (Hash_Hex C (d NULL)) \<and>
    (d NULL \<noteq> d v \<or> kec C (h @ [0]) = kec C (h @ abi_vote v) \<or>
     (let x = kec C (h @ [0]); y = kec C (h @ abi_vote v)
      in x \<noteq> y \<and> kec C (sign_prefix @ x) = kec C (sign_prefix @ y)))"
  using eth_hashing.eth_hash_digest [OF assms(1,2), of False] assms(3)
  by (auto simp: vote_of_def recover_digest_def sign_prefix_text Let_def)

theorem rejected_packet_signs_null_vote_witness:
  "eth_hash sample_crypto sample_common \<lparr>spp_packet = Some attested_packet, spp_is_white = False\<rparr> =
     Inr (Hash_Hex sample_crypto (recover_digest (kec sample_crypto)
       (sol_hash (kec sample_crypto) (to_contract sample_common attested_packet)) NULL))"
  using rejected_packet_signs_null_vote [OF sample_hashing, OF attested_uint256, of NAY]
  by (simp add: Let_def)

section \<open>Packets that cannot be hashed\<close>

definition fits_32 :: "bigint \<Rightarrow> bool" where
  "fits_32 x = (case x of None \<Rightarrow> False | Some i \<Rightarrow> \<bar>i\<bar> < 2 ^ 256)"

lemma FillBytes_fits: "(\<exists>b. FillBytes x 32 = Inr b) \<longleftrightarrow> fits_32 x"
proof (cases x)
  case (Some i)
  have "nat \<bar>i\<bar> < 256 ^ 32 \<longleftrightarrow> \<bar>i\<bar> < 2 ^ 256" by (simp add: nat_less_iff)
  then show ?thesis using Some by (auto simp: FillBytes_def fits_32_def not_less)
qed (simp add: FillBytes_def fits_32_def)

lemma FillBytes_panic: "FillBytes x n = Inl e \<Longrightarrow> is_panic e"
  by (auto simp: FillBytes_def split: option.splits if_splits)

text \<open>
  Hashing fails only by a panic, and exactly for a document without a packet or with an
  amount or chain identifier that is missing or has a magnitude of more than 256 bits. Every other
  screened packet is hashed, one with a negative amount under the hash of its magnitude.
\<close>

theorem eth_hash_defined:
  "(case eth_hash C E sp of
      Inr h \<Rightarrow> \<exists>p. spp_packet sp = Some p \<and> fits_32 (m_amount (p_message p)) \<and>
        fits_32 (na_chain_id (p_source p)) \<and> fits_32 (na_chain_id (p_destination p))
    | Inl e \<Rightarrow> is_panic e \<and> (spp_packet sp = None \<or> (\<exists>p. spp_packet sp = Some p \<and>
        \<not> (fits_32 (m_amount (p_message p)) \<and> fits_32 (na_chain_id (p_source p)) \<and>
           fits_32 (na_chain_id (p_destination p))))))"
proof (cases "spp_packet sp")
  case (Some p)
  let ?w = "spp_is_white sp"
  have v: "getEthBoolByte ?w = Inr (abi_vote (vote_of ?w))" by (cases ?w) (simp_all add: vote_of_def)
  show ?thesis
    using Some FillBytes_fits [of "m_amount (p_message p)"] FillBytes_fits [of "na_chain_id (p_source p)"]
      FillBytes_fits [of "na_chain_id (p_destination p)"]
    by (auto simp: eth_hash_def packet_fields_def v Let_def dest: FillBytes_panic split: sum.splits)
qed (simp add: eth_hash_def)

end
