(* ===== verification/AleoParse.thy ===== *)
theory AleoParse
  imports AleoUtils
begin

text \<open>
  What \<open>parseMessage\<close> and \<open>parseAleoPacket\<close> read from the text in which the Aleo ledger prints
  a value of the bridge program's struct \<open>OutPacket\<close>: the packet that was emitted, with the
  addresses of the other chain in the form \<open>constructEthAddressForAleoParameter\<close> writes.
\<close>

section \<open>Cleaning a text\<close>

definition trimmed_char :: "char \<Rightarrow> bool" where
  "trimmed_char c \<longleftrightarrow> c \<in> set [CHR ''{'', CHR ''}'', CHR ''['', CHR '']'', CHR '' '', CHR 0x22]"

lemma trim_filter:
  assumes "CHR 0x5C \<notin> set s"
  shows "trim s = filter (\<lambda>c. \<not> trimmed_char c) s"
  using assms
  by (induction s) (auto simp: trim_def trimmed_char_def)

text \<open>A text without white space, brackets, quotes, backslashes and separators.\<close>

definition clean :: "string \<Rightarrow> bool" where
  "clean w \<longleftrightarrow> (\<forall>c \<in> set w. \<not> trimmed_char c \<and> c \<noteq> CHR 0x5C \<and> c \<noteq> CHR '','' \<and> c \<noteq> CHR '':'')"

lemma clean_filter: "clean w \<Longrightarrow> filter (\<lambda>c. \<not> trimmed_char c) w = w"
  by (simp add: clean_def filter_id_conv)

lemma clean_no_sep:
  "clean w \<Longrightarrow> CHR '','' \<notin> set w" "clean w \<Longrightarrow> CHR '':'' \<notin> set w" "clean w \<Longrightarrow> CHR 0x5C \<notin> set w"
  by (auto simp: clean_def)

lemma clean_append [simp]: "clean (v @ w) \<longleftrightarrow> clean v \<and> clean w"
  by (auto simp: clean_def)

lemma clean_itoa [simp]: "clean (itoa n)"
proof -
  have "is_digit c" if "c \<in> set (itoa n)" for c
    using that itoa_all_digits [of n] by (simp add: list_all_iff)
  moreover have "\<not> is_digit (CHR 0x5C)" "\<not> is_digit (CHR '','')" "\<not> is_digit (CHR '':'')"
    by (simp_all add: is_digit_def)
  moreover have "\<not> is_digit c" if "trimmed_char c" for c
    using that by (auto simp: trimmed_char_def is_digit_def)
  ultimately show ?thesis unfolding clean_def by metis
qed

lemma clean_units [simp]: "clean ''u8''" "clean ''u64''" "clean ''u128''"
  by (simp_all add: clean_def trimmed_char_def)

section \<open>Tokens\<close>

text \<open>The words the parser reacts to. A value must not be one of them.\<close>

definition field_words :: "string list" where
  "field_words = required_names @ [''chain_id'', ''addr'', ''dest_token_address'', ''sender_address'',
     ''receiver_address'', ''amount'']"

lemma parse_fields_skip:
  "\<forall>w \<in> set ws. w \<notin> set required_names \<Longrightarrow> parse_fields (ws @ rest) st = parse_fields rest st"
  by (induction ws) (auto simp: parse_field_def Let_def required_names_def)

lemma source_loop_skip:
  "\<forall>w \<in> set ws. w \<notin> set field_words \<Longrightarrow> source_loop (length ws + n) (ws @ rest) a = source_loop n rest a"
  by (induction ws) (auto simp: field_words_def required_names_def)

lemma destination_loop_skip:
  "\<forall>w \<in> set ws. w \<notin> set field_words \<Longrightarrow>
   destination_loop (length ws + n) (ws @ rest) a = destination_loop n rest a"
  by (induction ws) (auto simp: field_words_def required_names_def)

lemma message_loop_skip:
  "\<forall>w \<in> set ws. w \<notin> set field_words \<Longrightarrow>
   message_loop (length ws + n) (ws @ rest) a = message_loop n rest a"
  by (induction ws) (auto simp: field_words_def required_names_def)

lemma next_32_append: "length ws = 32 \<Longrightarrow> next_32 (ws @ rest) = Inr (go_join '' '' ws)"
  by (simp add: next_32_def)

lemma destination_loop_array:
  assumes "length ws = 32" and "\<forall>w \<in> set ws. w \<notin> set field_words"
  shows "destination_loop 32 (ws @ rest) a = Inr a"
  using destination_loop_skip [OF assms(2), of 0] assms(1) by simp

lemma message_loop_array:
  assumes "length ws = 32" and "\<forall>w \<in> set ws. w \<notin> set field_words"
  shows "message_loop (32 + n) (ws @ rest) a = message_loop n rest a"
  using message_loop_skip [OF assms(2)] assms(1) by simp

text \<open>A record of the tokens of a well-formed ledger value.\<close>

record ledger_value =
  lv_version :: string
  lv_sequence :: string
  lv_source_chain :: string
  lv_source_addr :: string
  lv_dest_chain :: string
  lv_dest_addr :: "string list"
  lv_sender :: string
  lv_token :: "string list"
  lv_amount :: string
  lv_receiver :: "string list"
  lv_height :: string

definition lv_words :: "ledger_value \<Rightarrow> string set" where
  "lv_words l = {lv_version l, lv_sequence l, lv_source_chain l, lv_source_addr l, lv_dest_chain l,
     lv_sender l, lv_amount l, lv_height l} \<union> set (lv_dest_addr l) \<union> set (lv_token l) \<union> set (lv_receiver l)"

definition lv_ok :: "ledger_value \<Rightarrow> bool" where
  "lv_ok l \<longleftrightarrow> length (lv_dest_addr l) = 32 \<and> length (lv_token l) = 32 \<and> length (lv_receiver l) = 32 \<and>
     (\<forall>w \<in> lv_words l. clean w \<and> w \<notin> set field_words)"

definition lv_tokens :: "ledger_value \<Rightarrow> string list" where
  "lv_tokens l =
     [''version'', lv_version l, ''sequence'', lv_sequence l,
      ''source'', ''chain_id'', lv_source_chain l, ''addr'', lv_source_addr l,
      ''destination'', ''chain_id'', lv_dest_chain l, ''addr''] @ lv_dest_addr l @
     [''message'', ''sender_address'', lv_sender l, ''dest_token_address''] @ lv_token l @
     [''amount'', lv_amount l, ''receiver_address''] @ lv_receiver l @
     [''height'', lv_height l]"

definition lv_packet :: "ledger_value \<Rightarrow> aleo_packet" where
  "lv_packet l =
     \<lparr>ap_version = lv_version l,
      ap_source = \<lparr>ap_chainID = lv_source_chain l, ap_address = lv_source_addr l\<rparr>,
      ap_sequence = lv_sequence l,
      ap_destination = \<lparr>ap_chainID = lv_dest_chain l, ap_address = go_join '' '' (lv_dest_addr l)\<rparr>,
      ap_message = \<lparr>am_token = go_join '' '' (lv_token l), am_receiver = go_join '' '' (lv_receiver l),
                    am_amount = lv_amount l, am_sender = lv_sender l\<rparr>,
      ap_height = lv_height l\<rparr>"

section \<open>The fields one by one\<close>

lemma field_word_required: "w \<notin> set field_words \<Longrightarrow> w \<notin> set required_names"
  by (simp add: field_words_def)

lemma parse_skip1: "w \<notin> set required_names \<Longrightarrow> parse_fields (w # rest) st = parse_fields rest st"
  using parse_fields_skip [of "[w]" rest st] by simp

lemma parse_step:
  "parse_field v rest st = Inr st' \<Longrightarrow> parse_fields (v # rest) st = parse_fields rest st'"
  by simp

lemma parse_label_value:
  assumes "parse_field v (w # rest) st = Inr st'" and "w \<notin> set field_words"
  shows "parse_fields (v # w # rest) st = parse_fields rest st'"
  using parse_step [OF assms(1)] parse_skip1 [OF field_word_required [OF assms(2)]] by metis

lemma parse_version:
  "w \<notin> set field_words \<Longrightarrow> parse_fields (''version'' # w # rest) st =
   parse_fields rest (mark ''version'' st (ps_pkt st\<lparr>ap_version := w\<rparr>))"
  by (rule parse_label_value) (simp_all add: parse_field_def)

lemma parse_sequence:
  "w \<notin> set field_words \<Longrightarrow> parse_fields (''sequence'' # w # rest) st =
   parse_fields rest (mark ''sequence'' st (ps_pkt st\<lparr>ap_sequence := w\<rparr>))"
  by (rule parse_label_value) (simp_all add: parse_field_def)

lemma parse_height:
  "w \<notin> set field_words \<Longrightarrow> parse_fields (''height'' # w # rest) st =
   parse_fields rest (mark ''height'' st (ps_pkt st\<lparr>ap_height := w\<rparr>))"
  by (rule parse_label_value) (simp_all add: parse_field_def)

lemma labels_skip:
  "''chain_id'' \<notin> set required_names" "''addr'' \<notin> set required_names"
  "''sender_address'' \<notin> set required_names" "''dest_token_address'' \<notin> set required_names"
  "''amount'' \<notin> set required_names" "''receiver_address'' \<notin> set required_names"
  by (simp_all add: required_names_def)

lemma source_loop_value:
  "c \<notin> set field_words \<Longrightarrow> a \<notin> set field_words \<Longrightarrow>
   source_loop 4 (''chain_id'' # c # ''addr'' # a # rest) x = Inr \<lparr>ap_chainID = c, ap_address = a\<rparr>"
  by (cases x) (simp add: numeral_eq_Suc at_next_def field_words_def)

lemma parse_source:
  assumes "c \<notin> set field_words" and "a \<notin> set field_words"
  shows "parse_fields (''source'' # ''chain_id'' # c # ''addr'' # a # rest) st =
    parse_fields rest (mark ''source'' st (ps_pkt st\<lparr>ap_source := \<lparr>ap_chainID = c, ap_address = a\<rparr>\<rparr>))"
proof -
  have "parse_field ''source'' (''chain_id'' # c # ''addr'' # a # rest) st =
      Inr (mark ''source'' st (ps_pkt st\<lparr>ap_source := \<lparr>ap_chainID = c, ap_address = a\<rparr>\<rparr>))"
    using source_loop_value [OF assms] by (simp add: parse_field_def sub_slice_def)
  then show ?thesis
    using assms by (simp only: parse_step parse_skip1 labels_skip field_word_required not_False_eq_True)
qed

lemma destination_loop_value:
  assumes "c \<notin> set field_words" and "length d = 32" and "\<forall>w \<in> set d. w \<notin> set field_words"
  shows "destination_loop 35 (''chain_id'' # c # ''addr'' # d @ rest) x =
    Inr \<lparr>ap_chainID = c, ap_address = go_join '' '' d\<rparr>"
proof -
  have "35 = Suc (Suc (Suc 32))" by simp
  then show ?thesis
    using assms(1) destination_loop_array [OF assms(2,3)] next_32_append [OF assms(2)]
    by (cases x) (simp only: destination_loop.simps, simp add: at_next_def field_words_def)
qed

lemma parse_destination:
  assumes "c \<notin> set field_words" and "length d = 32" and "\<forall>w \<in> set d. w \<notin> set field_words"
  shows "parse_fields (''destination'' # ''chain_id'' # c # ''addr'' # d @ rest) st =
    parse_fields rest (mark ''destination'' st
      (ps_pkt st\<lparr>ap_destination := \<lparr>ap_chainID = c, ap_address = go_join '' '' d\<rparr>\<rparr>))"
proof -
  have "parse_field ''destination'' (''chain_id'' # c # ''addr'' # d @ rest) st =
      Inr (mark ''destination'' st
        (ps_pkt st\<lparr>ap_destination := \<lparr>ap_chainID = c, ap_address = go_join '' '' d\<rparr>\<rparr>))"
    using destination_loop_value [OF assms] assms(2) by (simp add: parse_field_def sub_slice_def)
  moreover have "\<forall>w \<in> set d. w \<notin> set required_names" using assms(3) field_word_required by blast
  ultimately show ?thesis
    using assms(1)
    by (simp only: parse_step parse_skip1 parse_fields_skip labels_skip field_word_required
        not_False_eq_True)
qed

lemma message_loop_value:
  assumes "s \<notin> set field_words" and "m \<notin> set field_words"
    and "length t = 32" and "\<forall>w \<in> set t. w \<notin> set field_words"
    and "length r = 32" and "\<forall>w \<in> set r. w \<notin> set field_words"
  shows "message_loop 70 (''sender_address'' # s # ''dest_token_address'' # t @
      ''amount'' # m # ''receiver_address'' # r @ rest) x =
    Inr \<lparr>am_token = go_join '' '' t, am_receiver = go_join '' '' r, am_amount = m, am_sender = s\<rparr>"
proof -
  have r: "message_loop 32 (r @ rest) y = Inr y" for y
    using message_loop_array [OF assms(5,6), of 0] by simp
  have "35 = Suc (Suc (Suc 32))" by simp
  then have tail: "message_loop 35 (''amount'' # m # ''receiver_address'' # r @ rest) y =
      Inr (y\<lparr>am_amount := m, am_receiver := go_join '' '' r\<rparr>)" for y
    using assms(2) by (simp only: message_loop.simps)
      (simp add: at_next_def field_words_def next_32_append [OF assms(5)] r)
  have token: "message_loop 67 (t @ ''amount'' # m # ''receiver_address'' # r @ rest) y =
      message_loop 35 (''amount'' # m # ''receiver_address'' # r @ rest) y" for y
    using message_loop_array [OF assms(3,4), of 35] by simp
  have "70 = Suc (Suc (Suc 67))" by simp
  then show ?thesis
    using assms(1)
    by (cases x) (simp only: message_loop.simps, simp add: at_next_def field_words_def
        next_32_append [OF assms(3)] token tail)
qed

lemma parse_message:
  assumes "s \<notin> set field_words" and "m \<notin> set field_words"
    and "length t = 32" and "\<forall>w \<in> set t. w \<notin> set field_words"
    and "length r = 32" and "\<forall>w \<in> set r. w \<notin> set field_words"
  shows "parse_fields (''message'' # ''sender_address'' # s # ''dest_token_address'' # t @
      ''amount'' # m # ''receiver_address'' # r @ rest) st =
    parse_fields rest (mark ''message'' st (ps_pkt st\<lparr>ap_message :=
      \<lparr>am_token = go_join '' '' t, am_receiver = go_join '' '' r, am_amount = m, am_sender = s\<rparr>\<rparr>))"
proof -
  have "parse_field ''message'' (''sender_address'' # s # ''dest_token_address'' # t @
      ''amount'' # m # ''receiver_address'' # r @ rest) st =
    Inr (mark ''message'' st (ps_pkt st\<lparr>ap_message :=
      \<lparr>am_token = go_join '' '' t, am_receiver = go_join '' '' r, am_amount = m, am_sender = s\<rparr>\<rparr>))"
    using message_loop_value [OF assms] assms(3,5) by (simp add: parse_field_def sub_slice_def)
  moreover have "\<forall>w \<in> set t. w \<notin> set required_names" "\<forall>w \<in> set r. w \<notin> set required_names"
    using assms(4,6) field_word_required by blast+
  ultimately show ?thesis
    using assms(1,2)
    by (simp only: parse_step parse_skip1 parse_fields_skip labels_skip field_word_required
        not_False_eq_True)
qed

lemma parse_lv_tokens:
  assumes "lv_ok l"
  shows "\<exists>req. parse_fields (lv_tokens l) \<lparr>ps_pkt = zero_aleo_packet, ps_required = req0\<rparr> =
    Inr \<lparr>ps_pkt = lv_packet l, ps_required = req\<rparr> \<and> (\<forall>f \<in> set required_names. req f = Some True)"
proof -
  have w: "lv_version l \<notin> set field_words" "lv_sequence l \<notin> set field_words"
    "lv_source_chain l \<notin> set field_words" "lv_source_addr l \<notin> set field_words"
    "lv_dest_chain l \<notin> set field_words" "\<forall>w \<in> set (lv_dest_addr l). w \<notin> set field_words"
    "lv_sender l \<notin> set field_words" "\<forall>w \<in> set (lv_token l). w \<notin> set field_words"
    "lv_amount l \<notin> set field_words" "\<forall>w \<in> set (lv_receiver l). w \<notin> set field_words"
    "lv_height l \<notin> set field_words"
    "length (lv_dest_addr l) = 32" "length (lv_token l) = 32" "length (lv_receiver l) = 32"
    using assms by (simp_all add: lv_ok_def lv_words_def)
  show ?thesis
    unfolding lv_tokens_def append_Cons append_Nil
    by (simp only: parse_version [OF w(1)] parse_sequence [OF w(2)] parse_source [OF w(3,4)]
        parse_destination [OF w(5,12,6)] parse_message [OF w(7,9,13,8,14,10)]
        parse_height [OF w(11)] parse_fields.simps(1))
      (auto simp: mark_def lv_packet_def zero_aleo_packet_def required_names_def)
qed

section \<open>The printed form\<close>

text \<open>
  How the ledger prints the struct, as in the sample values of the package's tests: fields and
  array elements are separated by a comma and a blank. \<open>glue\<close> is that separator.
\<close>

definition ledger_text :: "ledger_value \<Rightarrow> string" where
  "ledger_text l =
     ''{ version: '' @ lv_version l @ '', sequence: '' @ lv_sequence l @
     '', source: { chain_id: '' @ lv_source_chain l @ '', addr: '' @ lv_source_addr l @
     '' }, destination: { chain_id: '' @ lv_dest_chain l @ '', addr: [ '' @ go_join '', '' (lv_dest_addr l) @
     '' ] }, message: { sender_address: '' @ lv_sender l @
     '', dest_token_address: [ '' @ go_join '', '' (lv_token l) @ '' ], amount: '' @ lv_amount l @
     '', receiver_address: [ '' @ go_join '', '' (lv_receiver l) @ '' ] }, height: '' @ lv_height l @ '' }''"

lemma trimmed_punctuation [simp]:
  "trimmed_char CHR '' ''" "trimmed_char CHR ''{''" "trimmed_char CHR ''}''" "trimmed_char CHR ''[''"
  "trimmed_char CHR '']''" "\<not> trimmed_char CHR '',''" "\<not> trimmed_char CHR '':''"
  by (simp_all add: trimmed_char_def)

lemma filter_join:
  "\<forall>w \<in> set ws. clean w \<Longrightarrow> filter (\<lambda>c. \<not> trimmed_char c) (go_join '', '' ws) = go_join '','' ws"
  by (induction "'', ''" ws rule: go_join.induct) (auto simp: clean_filter)

lemma join_backslash: "\<forall>w \<in> set ws. clean w \<Longrightarrow> CHR 0x5C \<notin> set (go_join '', '' ws)"
  by (induction "'', ''" ws rule: go_join.induct) (auto simp: clean_no_sep)

text \<open>Splitting at the commas and then at the colons.\<close>

definition split2 :: "string \<Rightarrow> string list" where
  "split2 s = concat (map (go_split CHR '':'') (go_split CHR '','' s))"

lemma split2_word: "clean w \<Longrightarrow> split2 w = [w]"
  by (simp add: split2_def go_split_no_sep clean_no_sep)

lemma split2_comma: "clean w \<Longrightarrow> split2 (w @ CHR '','' # s) = w # split2 s"
  by (simp add: split2_def go_split_append_sep go_split_no_sep clean_no_sep)

lemma go_split_prefix:
  "sep \<notin> set w \<Longrightarrow> go_split sep (w @ s) = (w @ hd (go_split sep s)) # List.tl (go_split sep s)"
proof (induction w)
  case Nil
  then show ?case by (cases "go_split sep s") auto
qed (auto split: list.splits)

lemma split2_colon:
  assumes "clean w"
  shows "split2 (w @ CHR '':'' # s) = w # split2 s"
proof -
  obtain x xs where s: "go_split CHR '','' s = x # xs" by (cases "go_split CHR '','' s") auto
  have "CHR '','' \<notin> set (w @ [CHR '':''])" using clean_no_sep [OF assms] by simp
  from go_split_prefix [OF this, of s] have "go_split CHR '','' (w @ CHR '':'' # s) = (w @ CHR '':'' # x) # xs"
    by (simp add: s)
  then show ?thesis
    using clean_no_sep [OF assms] by (simp add: split2_def s go_split_append_sep)
qed

lemma split2_join:
  assumes "ws \<noteq> []" and "\<forall>w \<in> set ws. clean w"
  shows "split2 (go_join '','' ws @ CHR '','' # s) = ws @ split2 s"
  using assms
  by (induction "'',''" ws rule: go_join.induct) (simp_all add: split2_comma)

lemma clean_labels:
  "clean ''version''" "clean ''sequence''" "clean ''source''" "clean ''chain_id''" "clean ''addr''"
  "clean ''destination''" "clean ''message''" "clean ''sender_address''"
  "clean ''dest_token_address''" "clean ''amount''" "clean ''receiver_address''" "clean ''height''"
  by (simp_all add: clean_def trimmed_char_def)

lemma filter_label: "clean w \<Longrightarrow> filter (\<lambda>c. \<not> trimmed_char c) (w @ s) = w @ filter (\<lambda>c. \<not> trimmed_char c) s"
  by (simp add: clean_filter)

text \<open>What is left of such a text when it is trimmed.\<close>

definition trimmed_text :: "ledger_value \<Rightarrow> string" where
  "trimmed_text l =
      ''version'' @ CHR '':'' # lv_version l @ CHR '','' # ''sequence'' @ CHR '':'' # lv_sequence l @ CHR '','' #
      ''source'' @ CHR '':'' # ''chain_id'' @ CHR '':'' # lv_source_chain l @ CHR '','' #
      ''addr'' @ CHR '':'' # lv_source_addr l @ CHR '','' #
      ''destination'' @ CHR '':'' # ''chain_id'' @ CHR '':'' # lv_dest_chain l @ CHR '','' #
      ''addr'' @ CHR '':'' # go_join '','' (lv_dest_addr l) @ CHR '','' #
      ''message'' @ CHR '':'' # ''sender_address'' @ CHR '':'' # lv_sender l @ CHR '','' #
      ''dest_token_address'' @ CHR '':'' # go_join '','' (lv_token l) @ CHR '','' #
      ''amount'' @ CHR '':'' # lv_amount l @ CHR '','' #
      ''receiver_address'' @ CHR '':'' # go_join '','' (lv_receiver l) @ CHR '','' #
      ''height'' @ CHR '':'' # lv_height l"

lemma split_trimmed_text:
  assumes "lv_ok l"
  shows "split2 (trimmed_text l) = lv_tokens l"
proof -
  have c: "clean (lv_version l)" "clean (lv_sequence l)" "clean (lv_source_chain l)"
    "clean (lv_source_addr l)" "clean (lv_dest_chain l)" "clean (lv_sender l)" "clean (lv_amount l)"
    "clean (lv_height l)" "\<forall>w \<in> set (lv_dest_addr l). clean w" "\<forall>w \<in> set (lv_token l). clean w"
    "\<forall>w \<in> set (lv_receiver l). clean w"
    and ne: "lv_dest_addr l \<noteq> []" "lv_token l \<noteq> []" "lv_receiver l \<noteq> []"
    using assms by (auto simp: lv_ok_def lv_words_def)
  show ?thesis
    unfolding trimmed_text_def
    by (simp only: split2_colon split2_comma clean_labels c split2_word split2_join [OF ne(1) c(9)]
        split2_join [OF ne(2) c(10)] split2_join [OF ne(3) c(11)] not_False_eq_True)
      (simp add: lv_tokens_def)
qed

lemma trim_ledger_text:
  assumes "lv_ok l"
  shows "trim (ledger_text l) = trimmed_text l"
proof -
  have c: "clean (lv_version l)" "clean (lv_sequence l)" "clean (lv_source_chain l)"
    "clean (lv_source_addr l)" "clean (lv_dest_chain l)" "clean (lv_sender l)" "clean (lv_amount l)"
    "clean (lv_height l)" "\<forall>w \<in> set (lv_dest_addr l). clean w" "\<forall>w \<in> set (lv_token l). clean w"
    "\<forall>w \<in> set (lv_receiver l). clean w"
    using assms by (auto simp: lv_ok_def lv_words_def)
  have "CHR 0x5C \<notin> set (ledger_text l)"
    unfolding ledger_text_def
    by (simp add: clean_no_sep [OF c(1)] clean_no_sep [OF c(2)] clean_no_sep [OF c(3)]
        clean_no_sep [OF c(4)] clean_no_sep [OF c(5)] clean_no_sep [OF c(6)] clean_no_sep [OF c(7)]
        clean_no_sep [OF c(8)] join_backslash [OF c(9)] join_backslash [OF c(10)] join_backslash [OF c(11)])
  then have "trim (ledger_text l) = filter (\<lambda>c. \<not> trimmed_char c) (ledger_text l)" by (rule trim_filter)
  then show ?thesis
    unfolding ledger_text_def trimmed_text_def
    by (simp add: c(1-8) [THEN clean_filter] filter_join [OF c(9)] filter_join [OF c(10)] filter_join [OF c(11)])
      (simp add: trimmed_char_def)
qed

section \<open>Byte arrays\<close>

definition aleo_array :: "bytes \<Rightarrow> string list" where
  "aleo_array bs = map (\<lambda>b. itoa (unat b) @ ''u8'') bs"

lemma no_u_in_itoa: "CHR ''u'' \<notin> set (itoa n)"
  by (rule not_digit_in_itoa) (simp add: is_digit_def)

lemma no_blank_in_itoa: "CHR '' '' \<notin> set (itoa n)"
  by (rule not_digit_in_itoa) (simp add: is_digit_def)

lemma count_skip: "CHR ''u'' \<notin> set w \<Longrightarrow> str_count ''u8'' (w @ s) = str_count ''u8'' s"
  by (induction w) auto

lemma replace_skip: "CHR ''u'' \<notin> set w \<Longrightarrow> replace_all ''u8'' [] (w @ s) = w @ replace_all ''u8'' [] s"
  by (induction w) auto

lemma count_array: "str_count ''u8'' (go_join '' '' (aleo_array bs)) = length bs"
proof (induction bs)
  case (Cons b bs)
  then show ?case by (cases bs) (simp_all add: aleo_array_def count_skip no_u_in_itoa)
qed (simp add: aleo_array_def)

lemma replace_array:
  "replace_all ''u8'' [] (go_join '' '' (aleo_array bs)) = go_join '' '' (map (\<lambda>b. itoa (unat b)) bs)"
proof (induction bs)
  case (Cons b bs)
  then show ?case by (cases bs) (simp_all add: aleo_array_def replace_skip no_u_in_itoa)
qed (simp add: aleo_array_def)

lemma trim_spaces_id:
  assumes "s \<noteq> []" and "hd s \<noteq> CHR '' ''" and "last s \<noteq> CHR '' ''"
  shows "trim_spaces s = s"
proof -
  have "dropWhile (\<lambda>c. c = CHR '' '') s = s" using assms(1,2) by (cases s) auto
  moreover have "dropWhile (\<lambda>c. c = CHR '' '') (rev s) = rev s"
    using assms(1,3) by (cases "rev s") (auto simp: last_rev [of "rev s", simplified] hd_rev [symmetric])
  ultimately show ?thesis by (simp add: trim_spaces_def)
qed

lemma join_ends:
  assumes "ws \<noteq> []" and "\<forall>w \<in> set ws. w \<noteq> [] \<and> CHR '' '' \<notin> set w"
  shows "go_join '' '' ws \<noteq> [] \<and> hd (go_join '' '' ws) \<noteq> CHR '' '' \<and> last (go_join '' '' ws) \<noteq> CHR '' ''"
  using assms
proof (induction "'' ''" ws rule: go_join.induct)
  case (2 w)
  then have "hd w \<in> set w" "last w \<in> set w" "CHR '' '' \<notin> set w" by auto
  then have "hd w \<noteq> CHR '' ''" "last w \<noteq> CHR '' ''" by metis+
  with 2 show ?case by simp
next
  case (3 w v ws)
  then have "hd w \<in> set w" "CHR '' '' \<notin> set w" by auto
  then have "hd w \<noteq> CHR '' ''" by metis
  with 3 show ?case by simp
qed simp

lemma parse_uint0_itoa: "n < 256 \<Longrightarrow> parse_uint0 8 (itoa n) = Some n"
proof -
  assume n: "n < 256"
  have "filter (\<lambda>c. c \<noteq> CHR ''_'') (itoa n) = itoa n"
    using not_digit_in_itoa [of "CHR ''_''" n] by (auto simp: is_digit_def filter_id_conv)
  moreover have "CHR ''_'' \<notin> set (itoa n)" by (rule not_digit_in_itoa) (simp add: is_digit_def)
  moreover have "uint_base0 (itoa n) = (10, itoa n)" if "n \<noteq> 0"
    using itoa_no_leading_zero [of n] that by (cases "itoa n") (auto simp: uint_base0_def)
  ultimately show ?thesis
    using n digits_from_itoa [of 0 n]
    by (cases "n = 0") (simp_all add: parse_uint0_def itoa_zero uint_base0_def)
qed

text \<open>Only the last twenty of the elements matter.\<close>

lemma parse_array:
  assumes "length bs = 32"
  shows "parseAleoEthAddrToHexString E (go_join '' '' (aleo_array bs)) =
    Inr (Address_String E (BytesToAddress E (drop 12 bs)))"
proof -
  let ?ws = "map (\<lambda>b. itoa (unat b)) bs"
  have ws: "?ws \<noteq> []" "\<forall>w \<in> set ?ws. w \<noteq> [] \<and> CHR '' '' \<notin> set w"
    using assms no_blank_in_itoa by auto
  have "trim_spaces (go_join '' '' ?ws) = go_join '' '' ?ws"
    using join_ends [OF ws] by (intro trim_spaces_id) auto
  then have "go_split CHR '' '' (trim_spaces (replace_all ''u8'' [] (go_join '' '' (aleo_array bs)))) = ?ws"
    using go_split_join [OF ws(1), of "CHR '' ''"] ws(2) by (simp only: replace_array) blast
  moreover have "(case parse_uint0 8 (itoa (unat b)) of None \<Rightarrow> Inl (ErrLib ''strconv.ParseUint'')
      | Some bt \<Rightarrow> Inr (of_nat bt :: u8)) = Inr b" for b :: u8
    using unsigned_less [of b, where ?'a = nat] by (simp add: parse_uint0_itoa)
  ultimately show ?thesis
    using assms
    by (simp add: parseAleoEthAddrToHexString_def count_array drop_map o_def seq_res_map_Inr [where g = id])
qed

section \<open>Packets of the ledger\<close>

text \<open>
  The ledger value of a packet that goes to an Ethereum chain. The three addresses on that chain
  are given as 20 bytes; the ledger holds them padded to 32.
\<close>

definition padded :: "bytes \<Rightarrow> bytes" where
  "padded a = replicate 12 0 @ a"

definition ledger_of :: "packet \<Rightarrow> bytes \<Rightarrow> bytes \<Rightarrow> bytes \<Rightarrow> ledger_value" where
  "ledger_of p dest token receiver =
     \<lparr>lv_version = itoa_word (p_version p) @ ''u8'',
      lv_sequence = itoa_word (p_sequence p) @ ''u64'',
      lv_source_chain = bigint_str (na_chain_id (p_source p)) @ ''u128'',
      lv_source_addr = na_address (p_source p),
      lv_dest_chain = bigint_str (na_chain_id (p_destination p)) @ ''u128'',
      lv_dest_addr = aleo_array (padded dest),
      lv_sender = m_sender_address (p_message p),
      lv_token = aleo_array (padded token),
      lv_amount = bigint_str (m_amount (p_message p)) @ ''u128'',
      lv_receiver = aleo_array (padded receiver),
      lv_height = itoa_word (p_height p) @ ''u64''\<rparr>"

definition aleo_word :: "string \<Rightarrow> bool" where
  "aleo_word w \<longleftrightarrow> clean w \<and> w \<notin> set field_words"

text \<open>A packet as it leaves \<open>parseAleoPacket\<close>.\<close>

definition from_ledger :: "eth_common \<Rightarrow> packet \<Rightarrow> bytes \<Rightarrow> bytes \<Rightarrow> bytes \<Rightarrow> bool" where
  "from_ledger E p dest token receiver \<longleftrightarrow>
     length dest = 20 \<and> length token = 20 \<and> length receiver = 20 \<and>
     na_chain_id (p_source p) \<noteq> None \<and> na_chain_id (p_destination p) \<noteq> None \<and>
     m_amount (p_message p) \<noteq> None \<and> \<not> p_is_missed p \<and>
     aleo_word (na_address (p_source p)) \<and> aleo_word (m_sender_address (p_message p)) \<and>
     na_address (p_destination p) = Address_String E (BytesToAddress E dest) \<and>
     m_dest_token_address (p_message p) = Address_String E (BytesToAddress E token) \<and>
     m_receiver_address (p_message p) = Address_String E (BytesToAddress E receiver)"

lemma clean_itoa_int [simp]: "clean (itoa_int i)"
proof -
  have "clean [CHR ''-'']" by (simp add: clean_def trimmed_char_def)
  then have "clean ([CHR ''-''] @ itoa n)" for n by (simp only: clean_append clean_itoa simp_thms)
  then show ?thesis by (simp add: itoa_int_def)
qed

lemma not_field_word:
  assumes "w \<noteq> []" and "is_digit (hd w) \<or> hd w = CHR ''-''"
  shows "w \<notin> set field_words"
  using assms by (auto simp: field_words_def required_names_def is_digit_def)

lemma number_field_word: "itoa n @ s \<notin> set field_words" "itoa_int i @ s \<notin> set field_words"
proof -
  show "itoa n @ s \<notin> set field_words" for n
    using hd_itoa_digit [of n] by (intro not_field_word) simp_all
  then show "itoa_int i @ s \<notin> set field_words"
    using not_field_word [of "itoa_int i @ s"] by (auto simp: itoa_int_def)
qed

lemma array_words: "\<forall>w \<in> set (aleo_array bs). clean w \<and> w \<notin> set field_words"
  by (auto simp: aleo_array_def number_field_word)

lemma ledger_of_ok: "from_ledger E p dest token receiver \<Longrightarrow> lv_ok (ledger_of p dest token receiver)"
  using array_words
  by (auto simp: from_ledger_def lv_ok_def lv_words_def ledger_of_def aleo_word_def itoa_word_def
      bigint_str_def number_field_word padded_def) (auto simp: aleo_array_def)

lemma parseMessage_trimmed:
  assumes "lv_ok l" and "trim s = trimmed_text l"
  shows "parseMessage s = Inr (lv_packet l)"
proof -
  obtain req where req: "parse_fields (lv_tokens l)
      \<lparr>ps_pkt = zero_aleo_packet, ps_required = map_of (map (\<lambda>f. (f, False)) required_names)\<rparr> =
    Inr \<lparr>ps_pkt = lv_packet l, ps_required = req\<rparr>" "\<forall>f \<in> set required_names. req f = Some True"
    using parse_lv_tokens [OF assms(1)] by blast
  have "message_tokens s = lv_tokens l"
    using split_trimmed_text [OF assms(1)] assms(2) by (simp add: message_tokens_def split2_def)
  moreover have "filter (\<lambda>f. req f \<noteq> Some True) required_names = []" using req(2) by (simp add: filter_empty_conv)
  ultimately show ?thesis by (simp add: parseMessage_def req(1) Let_def)
qed

lemma parseMessage_ledger: "lv_ok l \<Longrightarrow> parseMessage (ledger_text l) = Inr (lv_packet l)"
  by (rule parseMessage_trimmed [OF _ trim_ledger_text])

lemma replace_first_unit:
  "CHR ''u'' \<notin> set w \<Longrightarrow> replace_first (CHR ''u'' # u) [] (w @ CHR ''u'' # u) = w"
  by (induction w) auto

lemma no_u_in_itoa_int: "CHR ''u'' \<notin> set (itoa_int i)"
  by (simp add: itoa_int_def no_u_in_itoa)

lemma set_string10_itoa:
  "set_string10 (CHR ''u'' # u) (itoa n @ CHR ''u'' # u) e = Inr (int n)"
  "set_string10 (CHR ''u'' # u) (itoa_int i @ CHR ''u'' # u) e = Inr i"
  by (simp_all add: set_string10_def replace_first_unit no_u_in_itoa no_u_in_itoa_int)

lemma big_uint64_uint [simp]: "big_uint64 (uint (s :: u64)) = s"
  using big_uint64_unat [of s] by simp

lemma big_uint64_version [simp]: "ucast (big_uint64 (uint (v :: u8))) = v"
proof -
  have "big_uint64 (uint v) = ucast v"
    using big_uint64_unat [of "ucast v :: u64"] by (simp add: uint_up_ucast is_up_def source_size_def target_size_def word_size)
  then show ?thesis by (simp add: ucast_up_ucast_id is_up_def source_size_def target_size_def word_size)
qed

lemma parse_padded:
  "length a = 20 \<Longrightarrow> parseAleoEthAddrToHexString E (go_join '' '' (aleo_array (padded a))) =
   Inr (Address_String E (BytesToAddress E a))"
  using parse_array [of "padded a" E] by (simp add: padded_def)

lemma parseAleoPacket_ledger:
  assumes "from_ledger E p dest token receiver"
  shows "parseAleoPacket E (lv_packet (ledger_of p dest token receiver)) = Inr p"
  using assms
  by (cases p; cases "p_source p"; cases "p_destination p"; cases "p_message p")
    (auto simp: from_ledger_def parseAleoPacket_def lv_packet_def ledger_of_def itoa_word_def
      bigint_str_def set_string10_itoa parse_padded replace_first_unit no_u_in_itoa_int)

section \<open>Properties\<close>

lemma constructEth_text:
  assumes "length (HexToAddress E s) = 20"
  shows "constructEthAddressForAleoParameter E s =
    ''[ '' @ go_join '', '' (aleo_array (padded (HexToAddress E s))) @ '' ]''"
proof -
  have join: "concat (map (\<lambda>b. itoa (unat b) @ ''u8, '') bs) = go_join '', '' (aleo_array bs) @ '', ''"
    if "bs \<noteq> []" for bs :: bytes
    using that
  proof (induction bs)
    case (Cons b bs)
    then show ?case by (cases bs) (simp_all add: aleo_array_def)
  qed simp
  have "concat (replicate 12 ''0u8, '') = concat (map (\<lambda>b. itoa (unat (b :: u8)) @ ''u8, '') (replicate 12 0))"
    by (simp add: itoa_zero)
  then have "''[ '' @ concat (replicate (32 - length (HexToAddress E s)) ''0u8, '') @
      concat (map (\<lambda>b. itoa (unat b) @ ''u8, '') (HexToAddress E s)) =
    (''[ '' @ go_join '', '' (aleo_array (padded (HexToAddress E s)))) @ '', ''"
    using join [of "padded (HexToAddress E s)"] assms by (simp add: padded_def)
  then show ?thesis
    by (simp only: constructEthAddressForAleoParameter_def Let_def) simp
qed

text \<open>
  C14. A packet emitted on Aleo is relayed as it was emitted: for every packet to an Ethereum chain
  whose addresses on Aleo are proper words, parsing the text in which the ledger prints the packet
  with \<open>parseMessage\<close> and converting the result with \<open>parseAleoPacket\<close> gives back that very
  packet, all eleven fields of it.
\<close>

theorem aleo_packet_roundtrip:
  assumes "from_ledger E p dest token receiver"
  shows "(case parseMessage (ledger_text (ledger_of p dest token receiver)) of
            Inl e \<Rightarrow> Inl e | Inr ap \<Rightarrow> parseAleoPacket E ap) = Inr p"
  using parseMessage_ledger [OF ledger_of_ok [OF assms]] parseAleoPacket_ledger [OF assms] by simp

definition sample_eth :: eth_common where
  "sample_eth = \<lparr>HexToAddress = (\<lambda>s. replicate 20 7), BytesToAddress = (\<lambda>b. b),
     Address_String = (\<lambda>b. ''0x'' @ hex_encode b)\<rparr>"

definition sample_aleo_packet :: packet where
  "sample_aleo_packet =
     \<lparr>p_version = 1,
      p_source = \<lparr>na_chain_id = Some 6694886634401, na_address = ''aleo1rhg''\<rparr>,
      p_destination = \<lparr>na_chain_id = Some 443067135441324596,
                       na_address = ''0x'' @ hex_encode (replicate 20 1)\<rparr>,
      p_sequence = 18446744073709551615,
      p_message = \<lparr>m_dest_token_address = ''0x'' @ hex_encode (replicate 20 2),
                   m_sender_address = ''aleo18z3'', m_amount = Some 102,
                   m_receiver_address = ''0x'' @ hex_encode (replicate 20 3)\<rparr>,
      p_height = 55, p_is_missed = False\<rparr>"

theorem aleo_packet_roundtrip_witness:
  "(case parseMessage (ledger_text (ledger_of sample_aleo_packet
       (replicate 20 1) (replicate 20 2) (replicate 20 3))) of
      Inl e \<Rightarrow> Inl e | Inr ap \<Rightarrow> parseAleoPacket sample_eth ap) = Inr sample_aleo_packet"
  by (rule aleo_packet_roundtrip)
    (simp add: from_ledger_def sample_aleo_packet_def sample_eth_def aleo_word_def clean_def
      trimmed_char_def field_words_def required_names_def)

text \<open>
  The two address conversions agree: reading back, as \<open>parseMessage\<close> delivers it, the array
  that \<open>constructEthAddressForAleoParameter\<close> writes for an Ethereum address gives the canonical
  text of the same address.
\<close>

theorem eth_address_roundtrip:
  assumes "length (HexToAddress E s) = 20"
  shows "parseAleoEthAddrToHexString E
      (go_join '' '' (go_split CHR '','' (trim (constructEthAddressForAleoParameter E s)))) =
    Inr (Address_String E (BytesToAddress E (HexToAddress E s)))"
proof -
  let ?ws = "aleo_array (padded (HexToAddress E s))"
  have ok: "\<forall>w \<in> set ?ws. clean w" and ne: "?ws \<noteq> []"
    using array_words by (auto simp: aleo_array_def padded_def)
  have "CHR 0x5C \<notin> set (constructEthAddressForAleoParameter E s)"
    using join_backslash [OF ok] by (simp add: constructEth_text [OF assms])
  then have "trim (constructEthAddressForAleoParameter E s) = go_join '','' ?ws"
    by (simp add: trim_filter) (simp add: constructEth_text [OF assms] filter_join [OF ok])
  moreover have "go_split CHR '','' (go_join '','' ?ws) = ?ws"
    using ok by (intro go_split_join ne) (simp add: clean_no_sep)
  ultimately show ?thesis using parse_padded [OF assms] by simp
qed

theorem eth_address_roundtrip_witness:
  "parseAleoEthAddrToHexString sample_eth
     (go_join '' '' (go_split CHR '','' (trim (constructEthAddressForAleoParameter sample_eth ''x'')))) =
   Inr (''0x'' @ hex_encode (replicate 20 7))"
  using eth_address_roundtrip [of sample_eth "''x''"] by (simp add: sample_eth_def)

lemma parse_field_required:
  "parse_field v rest st = Inr st' \<Longrightarrow> ps_required st' f = Some True \<Longrightarrow>
   ps_required st f = Some True \<or> f = v"
  by (auto simp: parse_field_def Let_def mark_def split: if_splits list.splits sum.splits)

lemma parse_fields_required:
  "parse_fields ts st = Inr st' \<Longrightarrow> ps_required st' f = Some True \<Longrightarrow>
   ps_required st f = Some True \<or> f \<in> set ts"
proof (induction ts arbitrary: st)
  case (Cons v rest)
  then show ?case using parse_field_required by (fastforce split: sum.splits)
qed simp

text \<open>
  A value from the ledger can not bring the client down. \<open>parseMessage\<close> never panics on
  any text: an index beyond the end of the token list comes back as an error. And it accepts a
  text only when the names of all six required fields occur in it.
\<close>

theorem parseMessage_safe:
  "case parseMessage s of
     Inl e \<Rightarrow> \<not> is_panic e
   | Inr ap \<Rightarrow> set required_names \<subseteq> set (message_tokens s)"
proof (cases "parse_fields (message_tokens s)
    \<lparr>ps_pkt = zero_aleo_packet, ps_required = map_of (map (\<lambda>f. (f, False)) required_names)\<rparr>")
  case (Inl e)
  then show ?thesis by (cases e) (simp_all add: parseMessage_def recovered_def)
next
  case (Inr st)
  have "f \<in> set (message_tokens s)" if "ps_required st f = Some True" for f
    using parse_fields_required [OF Inr that]
    by (auto simp: required_names_def split: if_splits)
  then show ?thesis
    using Inr by (auto simp: parseMessage_def Let_def filter_empty_conv)
qed

text \<open>
  Of an address array only the last twenty elements count: whatever bytes the first twelve
  elements hold, \<open>parseAleoEthAddrToHexString\<close> returns the address of the last twenty, so two
  different 32-byte values of the Aleo program can name one Ethereum address.
\<close>

theorem parse_address_ignores_padding:
  assumes "length pre = 12" and "length a = 20"
  shows "parseAleoEthAddrToHexString E (go_join '' '' (aleo_array (pre @ a))) =
    Inr (Address_String E (BytesToAddress E a))"
  using parse_array [of "pre @ a" E] assms by simp

theorem parse_address_ignores_padding_witness:
  "parseAleoEthAddrToHexString sample_eth (go_join '' '' (aleo_array (replicate 12 9 @ replicate 20 7))) =
   Inr (''0x'' @ hex_encode (replicate 20 7))"
  using parse_address_ignores_padding [of "replicate 12 9" "replicate 20 7" sample_eth]
  by (simp add: sample_eth_def)

end
