(* ===== verification/SignProps.thy ===== *)
theory SignProps
  imports SignService EthSignProps AleoParse
begin

text \<open>
  What the signing service promises as a whole: the text hashed for Aleo commits to the packet, a
  signature is given only to the holder of the credentials, and the service starts only with keys
  that belong to the configured wallets.
\<close>

section \<open>The text hashed for Aleo\<close>

lemma split_at_first:
  assumes "x @ c # r = y @ c # s" and "c \<notin> set x" and "c \<notin> set y"
  shows "x = y \<and> r = s"
  using assms
proof (induction x arbitrary: y)
  case Nil
  then show ?case by (cases y) auto
next
  case (Cons a x)
  then show ?case by (cases y) auto
qed

lemma split_after_word:
  "u @ w # r = v @ w # s \<Longrightarrow> w \<notin> set u \<Longrightarrow> w \<notin> set v \<Longrightarrow> u = v" 
  "u @ w # r = v @ w # s \<Longrightarrow> w \<notin> set u \<Longrightarrow> w \<notin> set v \<Longrightarrow> r = s"
  using split_at_first by fast+

lemma itoa_word_split:
  assumes "itoa_word (v :: 'a::len word) @ CHR ''u'' # r = itoa_word w @ CHR ''u'' # s"
  shows "v = w \<and> r = s"
proof -
  have "CHR ''u'' \<notin> set (itoa n)" for n by (rule not_digit_in_itoa) (simp add: is_digit_def)
  then have "itoa (unat v) = itoa (unat w) \<and> r = s"
    using split_at_first [OF assms] by (simp add: itoa_word_def)
  then show ?thesis using itoa_inj by (metis word_unat_eq_iff)
qed

text \<open>A missing number prints as text, and differs from every number.\<close>

lemma bigint_str_no: "c \<in> {CHR ''u'', CHR '' ''} \<Longrightarrow> c \<notin> set (bigint_str b)"
proof -
  assume c: "c \<in> {CHR ''u'', CHR '' ''}"
  then have "c \<notin> set (itoa n)" for n by (intro not_digit_in_itoa) (auto simp: is_digit_def)
  then show ?thesis using c by (auto simp: bigint_str_def itoa_int_def split: option.splits)
qed

lemma bigint_str_inj: "bigint_str a = bigint_str b \<Longrightarrow> a = b"
proof -
  have no: "itoa_int i \<noteq> ''<nil>'' \<and> ''<nil>'' \<noteq> itoa_int i" for i
  proof -
    have "big_set10 ''<nil>'' = None" by (simp add: big_set10_def split_sign_def digit_val_def)
    then show ?thesis using big_set10_itoa_int [of i] by fastforce
  qed
  assume "bigint_str a = bigint_str b"
  then show "a = b" by (cases a; cases b) (simp_all add: bigint_str_def no)
qed

lemma bigint_str_split:
  assumes "bigint_str a @ CHR ''u'' # r = bigint_str b @ CHR ''u'' # s"
  shows "a = b \<and> r = s"
  using split_at_first [OF assms] bigint_str_no [of "CHR ''u''"] bigint_str_inj by blast

definition byte_list_text :: "bytes \<Rightarrow> string" where
  "byte_list_text bs = concat (map (\<lambda>b. itoa (unat b) @ ''u8, '') bs)"

lemma byte_list_text_inj: "byte_list_text bs = byte_list_text cs \<Longrightarrow> bs = cs"
proof (induction bs arbitrary: cs)
  case Nil
  then show ?case by (cases cs) (simp_all add: byte_list_text_def)
next
  case (Cons b bs)
  then obtain c cs' where cs: "cs = c # cs'" by (cases cs) (simp_all add: byte_list_text_def)
  have "itoa_word b @ CHR ''u'' # ''8, '' @ byte_list_text bs =
      itoa_word c @ CHR ''u'' # ''8, '' @ byte_list_text cs'"
    using Cons.prems by (simp add: cs byte_list_text_def itoa_word_def)
  from itoa_word_split [OF this] show ?case using Cons.IH cs by simp
qed

lemma byte_list_text_end: "bs \<noteq> [] \<Longrightarrow> \<exists>w. byte_list_text bs = w @ '', ''"
  by (cases bs rule: rev_cases) (auto simp: byte_list_text_def)

lemma byte_list_text_no: "CHR '']'' \<notin> set (byte_list_text bs)"
proof -
  have "CHR '']'' \<notin> set (itoa n)" for n by (rule not_digit_in_itoa) (simp add: is_digit_def)
  then show ?thesis by (auto simp: byte_list_text_def)
qed

lemma address_text:
  assumes "length (HexToAddress E s) = 20"
  shows "\<exists>w. byte_list_text (replicate 12 0 @ HexToAddress E s) = w @ '', '' \<and>
    ss_constructEthAddressForAleoParameter E s = (''[ '' @ w @ '' '') @ CHR '']'' # []"
proof -
  have z: "concat (replicate n ''0u8, '') = byte_list_text (replicate n 0)" for n
    by (induction n) (simp_all add: byte_list_text_def itoa_zero)
  let ?b = "byte_list_text (replicate 12 0 @ HexToAddress E s)"
  have "concat (replicate 12 ''0u8, '') @ concat (map (\<lambda>b. itoa (unat b) @ ''u8, '') (HexToAddress E s)) = ?b"
    unfolding z by (simp add: byte_list_text_def)
  then have "ss_constructEthAddressForAleoParameter E s = take (length (''[ '' @ ?b) - 2) (''[ '' @ ?b) @ '' ]''"
    by (simp only: ss_constructEthAddressForAleoParameter_def Let_def assms) simp
  moreover obtain w where w: "?b = w @ '', ''" using byte_list_text_end by fastforce
  ultimately show ?thesis by (intro exI [of _ w]) simp
qed

lemma address_split:
  assumes "length (HexToAddress E s) = 20" and "length (HexToAddress E t) = 20"
    and eq: "ss_constructEthAddressForAleoParameter E s @ r = ss_constructEthAddressForAleoParameter E t @ r'"
  shows "HexToAddress E s = HexToAddress E t \<and> r = r'"
proof -
  obtain w where w: "byte_list_text (replicate 12 0 @ HexToAddress E s) = w @ '', ''"
    "ss_constructEthAddressForAleoParameter E s = (''[ '' @ w @ '' '') @ CHR '']'' # []"
    using address_text [OF assms(1)] by blast
  obtain v where v: "byte_list_text (replicate 12 0 @ HexToAddress E t) = v @ '', ''"
    "ss_constructEthAddressForAleoParameter E t = (''[ '' @ v @ '' '') @ CHR '']'' # []"
    using address_text [OF assms(2)] by blast
  have no: "CHR '']'' \<notin> set (''[ '' @ w @ '' '')" "CHR '']'' \<notin> set (''[ '' @ v @ '' '')"
    using byte_list_text_no [of "replicate 12 0 @ HexToAddress E s"]
      byte_list_text_no [of "replicate 12 0 @ HexToAddress E t"] by (auto simp: w(1) v(1))
  have "(''[ '' @ w @ '' '') @ CHR '']'' # r = (''[ '' @ v @ '' '') @ CHR '']'' # r'"
    using eq by (simp add: w(2) v(2))
  then have "''[ '' @ w @ '' '' = ''[ '' @ v @ '' '' \<and> r = r'" using no by (rule split_at_first)
  moreover from this have "replicate 12 0 @ HexToAddress E s = replicate 12 0 @ HexToAddress E t"
    by (intro byte_list_text_inj) (simp add: w(1) v(1))
  ultimately show ?thesis by simp
qed

definition spaceless :: "string \<Rightarrow> bool" where
  "spaceless s \<longleftrightarrow> CHR '' '' \<notin> set s \<and> CHR '','' \<notin> set s"

lemma spaceless_split:
  assumes "spaceless x" and "spaceless y" and "c \<in> {CHR '' '', CHR '',''}" and "x @ c # r = y @ c # s"
  shows "x = y \<and> r = s"
  using split_at_first [OF assms(4)] assms(1-3) by (auto simp: spaceless_def)

text \<open>The packet up to the case and padding of its Ethereum addresses.\<close>

definition same_aleo_fields :: "eth_common \<Rightarrow> packet \<Rightarrow> packet \<Rightarrow> bool" where
  "same_aleo_fields E p q \<longleftrightarrow> p_version p = p_version q \<and> p_sequence p = p_sequence q \<and> p_height p = p_height q \<and>
     na_chain_id (p_source p) = na_chain_id (p_source q) \<and>
     HexToAddress E (na_address (p_source p)) = HexToAddress E (na_address (p_source q)) \<and>
     p_destination p = p_destination q \<and>
     HexToAddress E (m_sender_address (p_message p)) = HexToAddress E (m_sender_address (p_message q)) \<and>
     m_dest_token_address (p_message p) = m_dest_token_address (p_message q) \<and>
     m_amount (p_message p) = m_amount (p_message q) \<and>
     m_receiver_address (p_message p) = m_receiver_address (p_message q)"

definition spaceless_packet :: "packet \<Rightarrow> bool" where
  "spaceless_packet p \<longleftrightarrow> spaceless (na_address (p_destination p)) \<and>
     spaceless (m_dest_token_address (p_message p)) \<and> spaceless (m_receiver_address (p_message p))"

text \<open>
  C34. The text hashed for an Aleo destination commits to the packet. Two packets whose Aleo
  addresses and token identifiers contain neither spaces nor commas give the same text only if
  they agree in every field, the Ethereum addresses as 20 bytes. Unlike the Ethereum digest the
  text keeps the sign of the amount and tells a missing number from every other.
\<close>

theorem aleo_text_commits:
  assumes "\<forall>s. length (HexToAddress E s) = 20" and "spaceless_packet p" and "spaceless_packet q"
    and "ss_constructAleoPacket E p = ss_constructAleoPacket E q"
  shows "same_aleo_fields E p q"
proof -
  let ?a = "ss_constructEthAddressForAleoParameter E"
  have len: "length (HexToAddress E s) = 20" for s using assms(1) by simp
  have sp: "spaceless (na_address (p_destination p))" "spaceless (na_address (p_destination q))"
    "spaceless (m_dest_token_address (p_message p))" "spaceless (m_dest_token_address (p_message q))"
    "spaceless (m_receiver_address (p_message p))" "spaceless (m_receiver_address (p_message q))"
    using assms(2,3) by (simp_all add: spaceless_packet_def)
  note eq = assms(4) [unfolded ss_constructAleoPacket_def, simplified]
  note version = itoa_word_split [OF eq]
  note sequence = itoa_word_split [OF conjunct2 [OF version, simplified]]
  note source = bigint_str_split [OF conjunct2 [OF sequence, simplified]]
  note src_addr = address_split [OF len len conjunct2 [OF source, simplified]]
  note destination = bigint_str_split [OF conjunct2 [OF src_addr, simplified]]
  note dst_addr = spaceless_split [OF sp(1,2) _ conjunct2 [OF destination, simplified], simplified]
  note sender = address_split [OF len len conjunct2 [OF dst_addr, simplified]]
  note token = spaceless_split [OF sp(3,4) _ conjunct2 [OF sender, simplified], simplified]
  note amount = bigint_str_split [OF conjunct2 [OF token, simplified]]
  note receiver = spaceless_split [OF sp(5,6) _ conjunct2 [OF amount, simplified], simplified]
  have "itoa_word (p_height p) = itoa_word (p_height q)" using conjunct2 [OF receiver] by simp
  then have height: "p_height p = p_height q"
    unfolding itoa_word_def by (metis itoa_inj word_unat_eq_iff)
  show ?thesis
    using version sequence source src_addr destination dst_addr sender token amount receiver height
    by (simp add: same_aleo_fields_def)
qed


definition aleo_bound_packet :: packet where
  "aleo_bound_packet =
     \<lparr>p_version = 2,
      p_source = \<lparr>na_chain_id = Some 1, na_address = ''0x14779F992B2F2c42b8660Ffa42DBcb3C7C9930B0''\<rparr>,
      p_destination = \<lparr>na_chain_id = Some 2,
                       na_address = ''aleo1rhgdu77hgyqd3xjj8ucu3jj9r2krwz6mnzyd80gncr5fxcwlh5rsvzp9px''\<rparr>,
      p_sequence = 1,
      p_message = \<lparr>m_dest_token_address = ''5595373416687012447808431171621112175713243308139308694591328825799485714900field'',
                   m_sender_address = ''0x14779F992B2F2c42b8660Ffa42DBcb3C7C9930B0'', m_amount = Some 102,
                   m_receiver_address = ''aleo18z337vpafgfgmpvd4dgevel6la75r8eumcmuyafp6aa4nnkqmvrsht2skn''\<rparr>,
      p_height = 55, p_is_missed = False\<rparr>"

lemma aleo_bound_ascii: "ascii_packet aleo_bound_packet"
  by (simp add: ascii_packet_def ascii_address_def ascii_message_def ascii_def in_range_def aleo_bound_packet_def)

lemma aleo_bound_spaceless: "spaceless_packet aleo_bound_packet" "spaceless_packet (SetMissed aleo_bound_packet True)"
  by (simp_all add: spaceless_packet_def spaceless_def aleo_bound_packet_def SetMissed_def)

theorem aleo_text_commits_witness:
  "same_aleo_fields sample_common aleo_bound_packet (SetMissed aleo_bound_packet True)"
proof (rule aleo_text_commits [OF _ aleo_bound_spaceless])
  show "\<forall>s. length (HexToAddress sample_common s) = 20"
    using eth_hashing.address_length [OF sample_hashing] by blast
qed (simp add: ss_constructAleoPacket_def SetMissed_def)

section \<open>Choosing the destination\<close>

lemma fold_chains:
  "fold (\<lambda>c m. m(bigint_str (sch_ChainID c) \<mapsto> sch_Name c)) cs m k = Some n \<Longrightarrow>
   m k = Some n \<or> (\<exists>c \<in> set cs. bigint_str (sch_ChainID c) = k \<and> sch_Name c = n)"
proof (induction cs arbitrary: m)
  case (Cons c cs)
  then show ?case using Cons.IH [of "m(bigint_str (sch_ChainID c) \<mapsto> sch_Name c)"] by (auto split: if_splits)
qed simp

lemma SetMissed_destination [simp]: "p_destination (SetMissed p b) = p_destination p"
  by (simp add: SetMissed_def)

lemma HashAndSign_marshalled:
  assumes "ascii_packet (sp_packet sp)"
  shows "HashAndSign V st (marshal_screened sp) =
    (let chainID = bigint_str (na_chain_id (p_destination (sp_packet sp)))
     in case ss_chainIDToName st chainID of
          None \<Rightarrow> Inl (ErrMsg (''chain-id '' @ chainID @ '' is not supported''))
        | Some chainName \<Rightarrow> sign_destination V st chainName
            \<lparr>spp_packet = Some (SetMissed (sp_packet sp) False), spp_is_white = sp_is_white sp\<rparr>)"
  using unmarshal_marshal_screened [OF assms]
  by (simp add: HashAndSign_def Let_def)

text \<open>
  Only configured destinations are signed for, each by its own signer. When the service gives a
  hash and a signature for a request body, the body is a screened packet whose destination chain
  identifier is that of a configured chain, that chain is named aleo or ethereum, and the result is
  the one of the signer of that name. A configured chain of any other name is refused.
\<close>

theorem HashAndSign_destination:
  assumes "SetUpChains st0 = Inr st" and "ss_chainIDToName st0 = Map.empty"
    and "HashAndSign V st data = Inr (hsh, sig)"
  shows "\<exists>cfg c sp p. ss_cfg st0 = Some cfg \<and> c \<in> set (sg_Chains cfg) \<and>
    unmarshal_screened data = Inr sp \<and> spp_packet sp = Some p \<and>
    na_chain_id (p_destination p) = sch_ChainID c \<and>
    (sch_Name c = ''aleo'' \<and> aleo_HashAndSign (se_ahs V) (se_common V) (ss_sKey st) sp = Inr (hsh, sig) \<or>
     sch_Name c = ''ethereum'' \<and> eth_HashAndSign (se_crypto V) (se_common V) (ss_pKey st) sp = Inr (hsh, sig))"
proof -
  obtain cfg where cfg: "ss_cfg st0 = Some cfg" and
    st: "ss_chainIDToName st =
      fold (\<lambda>c m. m(bigint_str (sch_ChainID c) \<mapsto> sch_Name c)) (sg_Chains cfg) Map.empty"
    using assms(1,2) by (auto simp: SetUpChains_def GetChains_def split: option.splits)
  obtain sp p n where sp: "unmarshal_screened data = Inr sp" "spp_packet sp = Some p"
    "ss_chainIDToName st (bigint_str (na_chain_id (p_destination p))) = Some n"
    "sign_destination V st n sp = Inr (hsh, sig)"
    using assms(3) by (auto simp: HashAndSign_def Let_def split: sum.splits option.splits)
  obtain c where c: "c \<in> set (sg_Chains cfg)"
    "bigint_str (sch_ChainID c) = bigint_str (na_chain_id (p_destination p))" "sch_Name c = n"
    using fold_chains [of "sg_Chains cfg" Map.empty] sp(3) st by auto
  have "na_chain_id (p_destination p) = sch_ChainID c" using bigint_str_inj [OF c(2)] by simp
  then show ?thesis
    using cfg c sp by (auto simp: sign_destination_def Aleo_def Ethereum_def split: if_splits)
qed


text \<open>A service for the two chains, with a program \<open>ahs\<close> that echoes its last argument.\<close>

definition sample_env :: "unit sign_env" where
  "sample_env = \<lparr>se_ahs = (\<lambda>args. Inr (last args)), se_crypto = sample_crypto, se_common = sample_common\<rparr>"

definition sample_sign_config :: sign_config where
  "sample_sign_config =
     \<lparr>sg_Chains = [\<lparr>sch_Name = ''aleo'', sch_ChainID = Some 2\<rparr>, \<lparr>sch_Name = ''ethereum'', sch_ChainID = Some 1\<rparr>],
      sg_Cred = \<lparr>sc_username = ''user'', sc_password = ''secret''\<rparr>\<rparr>"

definition fresh_sign_state :: "unit sign_state" where
  "fresh_sign_state =
     \<lparr>ss_cfg = Some sample_sign_config, ss_chainIDToName = Map.empty, ss_sKey = ''key'', ss_pKey = Some ()\<rparr>"

definition sample_sign_state :: "unit sign_state" where
  "sample_sign_state = fresh_sign_state\<lparr>ss_chainIDToName := [''2'' \<mapsto> ''aleo'', ''1'' \<mapsto> ''ethereum'']\<rparr>"

lemma itoa_one_two: "bigint_str (Some 1) = ''1''" "bigint_str (Some 2) = ''2''"
proof -
  have "[digit_char 1] = ''1''" "[digit_char 2] = ''2''" by (simp_all add: digit_char_def char_of_eq_iff take_bit_eq_mod)
  then show "bigint_str (Some 1) = ''1''" "bigint_str (Some 2) = ''2''"
    by (simp_all add: bigint_str_def itoa_int_def itoa.simps)
qed

lemma sample_set_up: "SetUpChains fresh_sign_state = Inr sample_sign_state"
  by (simp add: SetUpChains_def GetChains_def fresh_sign_state_def sample_sign_state_def sample_sign_config_def
      itoa_one_two)

lemma sample_aleo_sign:
  "HashAndSign sample_env sample_sign_state (marshal_screened \<lparr>sp_packet = aleo_bound_packet, sp_is_white = True\<rparr>) =
     Inr (''field'', ''field'')"
proof -
  let ?sp = "\<lparr>sp_packet = aleo_bound_packet, sp_is_white = True\<rparr>"
  let ?ptr = "\<lparr>spp_packet = Some (SetMissed aleo_bound_packet False), spp_is_white = True\<rparr>"
  have dest: "bigint_str (na_chain_id (p_destination (sp_packet ?sp))) = ''2''"
    by (simp add: aleo_bound_packet_def itoa_one_two)
  have "HashAndSign sample_env sample_sign_state (marshal_screened ?sp) =
      sign_destination sample_env sample_sign_state ''aleo'' ?ptr"
    using HashAndSign_marshalled [of ?sp sample_env sample_sign_state] aleo_bound_ascii
    unfolding dest Let_def by (simp add: sample_sign_state_def)
  then show ?thesis
    by (simp add: sign_destination_def aleo_HashAndSign_def aleo_hash_def aleo_sign_def sample_env_def
        Aleo_def hashOutput_def)
qed

theorem HashAndSign_destination_witness:
  "\<exists>c \<in> set (sg_Chains sample_sign_config). sch_ChainID c = Some 2 \<and> sch_Name c \<in> {''aleo'', ''ethereum''}"
proof -
  let ?sp = "\<lparr>sp_packet = aleo_bound_packet, sp_is_white = True\<rparr>"
  have "ascii_packet (sp_packet ?sp)" by (simp add: aleo_bound_ascii)
  then have "unmarshal_screened (marshal_screened ?sp) = Inr sp \<Longrightarrow> spp_packet sp = Some p \<Longrightarrow>
      na_chain_id (p_destination p) = Some 2" for sp p
    using unmarshal_marshal_screened [of ?sp] by (auto simp: aleo_bound_packet_def)
  then show ?thesis
    using HashAndSign_destination [OF sample_set_up _ sample_aleo_sign]
    by (fastforce simp: fresh_sign_state_def)
qed

section \<open>The handler\<close>

text \<open>
  C23. Signatures are for the holder of the credentials only. The handler answers a request with
  status 200 exactly when its credentials are the configured ones, its method is POST, its body was
  read and hashing and signing it succeeded, and the answer then carries the hash and the
  signature. With other credentials the answer is 403 and empty; all further answers are 400, and a
  panic while hashing ends the request without one.
\<close>

theorem sign_handler_answers:
  assumes "ss_cfg st = Some cfg"
  shows "let creds = (case sr_BasicAuth r of None \<Rightarrow> ([], []) | Some up \<Rightarrow> up);
      authorised = (creds = (sc_username (sg_Cred cfg), sc_password (sg_Cred cfg)))
    in (sign_handler V st r = Inr \<lparr>sp_Status = 200, sp_Body = b\<rparr> \<longleftrightarrow>
          authorised \<and> sr_Method r = ''POST'' \<and>
          (\<exists>data hsh sig. sr_Body r = Inr data \<and> HashAndSign V st data = Inr (hsh, sig) \<and> b = sign_answer hsh sig)) \<and>
       (\<not> authorised \<longrightarrow> sign_handler V st r = Inr \<lparr>sp_Status = 403, sp_Body = []\<rparr>) \<and>
       (\<forall>x. sign_handler V st r = Inr x \<longrightarrow> sp_Status x \<in> {200, 400, 403}) \<and>
       (\<forall>e. sign_handler V st r = Inl e \<longrightarrow> is_panic e)"
  using assms
  by (auto simp: sign_handler_def GetUsernamePassword_def bad_request_def StatusOK_def StatusBadRequest_def
      StatusForbidden_def MethodPost_def Let_def split: prod.splits sum.splits if_splits option.splits)

theorem sign_handler_answers_witness:
  "sign_handler sample_env sample_sign_state
     \<lparr>sr_Method = ''POST'', sr_BasicAuth = Some (''user'', ''secret''),
      sr_Body = Inr (marshal_screened \<lparr>sp_packet = aleo_bound_packet, sp_is_white = True\<rparr>)\<rparr> =
   Inr \<lparr>sp_Status = 200, sp_Body = sign_answer ''field'' ''field''\<rparr>"
proof -
  have "ss_cfg sample_sign_state = Some sample_sign_config"
    by (simp add: sample_sign_state_def fresh_sign_state_def)
  from sign_handler_answers [OF this, of
      "\<lparr>sr_Method = ''POST'', sr_BasicAuth = Some (''user'', ''secret''),
        sr_Body = Inr (marshal_screened \<lparr>sp_packet = aleo_bound_packet, sp_is_white = True\<rparr>)\<rparr>"
      sample_env "sign_answer ''field'' ''field''"]
  show ?thesis using sample_aleo_sign by (simp add: sample_sign_config_def Let_def)
qed


section \<open>Starting with the right keys\<close>

definition aleo_key_of :: "'k sign_env \<Rightarrow> chain_keys \<Rightarrow> string \<Rightarrow> bool" where
  "aleo_key_of V m k \<longleftrightarrow> (\<exists>kp. (Aleo, Some kp) \<in> set m \<and> kp_PrivateKey kp = k \<and>
     se_ahs V [deriveAddr, k] = Inr (kp_WalletAddress kp))"

definition eth_key_of :: "'k sign_env \<Rightarrow> chain_keys \<Rightarrow> 'k \<Rightarrow> bool" where
  "eth_key_of V m k \<longleftrightarrow> (\<exists>kp. (Ethereum, Some kp) \<in> set m \<and>
     HexToECDSA (se_crypto V) (replace_first ''0x'' [] (kp_PrivateKey kp)) = Inr k \<and>
     equal_fold (Address_Hex (se_crypto V) (PubkeyToAddress (se_crypto V) k)) (kp_WalletAddress kp))"

lemma setup_key_ok:
  assumes "setup_key V n c st = (Inr u, st')"
  shows "n = Aleo \<and> st' = st\<lparr>ss_sKey := ss_sKey st'\<rparr> \<and> aleo_key_of V [(n, c)] (ss_sKey st') \<or>
    n = Ethereum \<and> st' = st\<lparr>ss_pKey := ss_pKey st'\<rparr> \<and> (\<exists>k. ss_pKey st' = Some k \<and> eth_key_of V [(n, c)] k)"
  using assms
  by (auto simp: setup_key_def aleo_SetUpPrivateKey_def validateAleoPrivateKey_def eth_SetUpPrivateKey_def
      validateKey_def aleo_key_of_def eth_key_of_def Let_def
      split: if_splits option.splits sum.splits prod.splits)

lemma setup_keys_ok:
  assumes "setup_keys V m st = (Inr u, st')"
  shows "fst ` set m \<subseteq> {Aleo, Ethereum} \<and>
    (if Aleo \<in> fst ` set m then aleo_key_of V m (ss_sKey st') else ss_sKey st' = ss_sKey st) \<and>
    (if Ethereum \<in> fst ` set m then \<exists>k. ss_pKey st' = Some k \<and> eth_key_of V m k else ss_pKey st' = ss_pKey st) \<and>
    ss_cfg st' = ss_cfg st"
  using assms
proof (induction m arbitrary: st)
  case (Cons nc m)
  obtain n c where nc: "nc = (n, c)" by fastforce
  obtain st1 where st1: "setup_key V n c st = (Inr (), st1)" "setup_keys V m st1 = (Inr u, st')"
    using Cons.prems by (auto simp: nc split: prod.splits sum.splits)
  have mono: "aleo_key_of V m' k \<Longrightarrow> set m' \<subseteq> set (nc # m) \<Longrightarrow> aleo_key_of V (nc # m) k"
    "eth_key_of V m' j \<Longrightarrow> set m' \<subseteq> set (nc # m) \<Longrightarrow> eth_key_of V (nc # m) j" for m' k j
    unfolding aleo_key_of_def eth_key_of_def by blast+
  have ne: "Aleo \<noteq> Ethereum" by (simp add: Aleo_def Ethereum_def)
  have sub: "set m \<subseteq> set (nc # m)" "set [(n, c)] \<subseteq> set (nc # m)" by (auto simp: nc)
  note IH = Cons.IH [OF st1(2)]
  from setup_key_ok [OF st1(1)] show ?case
  proof (elim disjE conjE exE)
    assume n: "n = Aleo" and eq: "st1 = st\<lparr>ss_sKey := ss_sKey st1\<rparr>" and k: "aleo_key_of V [(n, c)] (ss_sKey st1)"
    have same: "ss_pKey st1 = ss_pKey st" "ss_cfg st1 = ss_cfg st" by (subst eq, simp)+
    show ?thesis using IH n k same mono [OF _ sub(1)] mono(1) [OF k sub(2)] ne by (auto simp: nc split: if_splits)
  next
    fix j
    assume n: "n = Ethereum" and eq: "st1 = st\<lparr>ss_pKey := ss_pKey st1\<rparr>"
      and k: "ss_pKey st1 = Some j" "eth_key_of V [(n, c)] j"
    have same: "ss_sKey st1 = ss_sKey st" "ss_cfg st1 = ss_cfg st" by (subst eq, simp)+
    show ?thesis using IH n k same mono [OF _ sub(1)] mono(2) [OF k(2) sub(2)] ne by (auto simp: nc split: if_splits)
  qed
qed simp

text \<open>
  The service serves only with keys that belong to the configured wallets. When it starts, the
  key file names no chain besides aleo and ethereum; the Aleo key is that of an entry whose wallet
  address \<open>ahs\<close> derives from it, the Ethereum key that of an entry whose wallet address is the
  address of its public key up to case, and a chain without an entry has no key.
\<close>

theorem sign_main_keys:
  assumes "sign_main V lookPath F decodeCfg decodeKeys configPath keyPath f = Inr st"
  shows "\<exists>m. LoadKeys F decodeKeys keyPath f = Inr m \<and> fst ` set m \<subseteq> {''aleo'', ''ethereum''} \<and>
    (if ''aleo'' \<in> fst ` set m then aleo_key_of V m (ss_sKey st) else ss_sKey st = []) \<and>
    (if ''ethereum'' \<in> fst ` set m then \<exists>k. ss_pKey st = Some k \<and> eth_key_of V m k else ss_pKey st = None) \<and>
    (\<exists>cfg. LoadConfig F decodeCfg configPath f None = (Inr (), Some cfg) \<and> ss_cfg st = Some cfg)"
proof -
  obtain cfg m st1 where 1: "LoadConfig F decodeCfg configPath f None = (Inr (), cfg)"
    "LoadKeys F decodeKeys keyPath f = Inr m"
    "setup_keys V m \<lparr>ss_cfg = cfg, ss_chainIDToName = Map.empty, ss_sKey = [], ss_pKey = None\<rparr> = (Inr (), st1)"
    "SetUpChains st1 = Inr st"
    using assms by (auto simp: sign_main_def split: prod.splits sum.splits if_splits)
  have "ss_sKey st = ss_sKey st1 \<and> ss_pKey st = ss_pKey st1 \<and> ss_cfg st = ss_cfg st1"
    using 1(4) by (auto simp: SetUpChains_def split: sum.splits)
  moreover have "\<exists>c. cfg = Some c"
    using 1(1) by (auto simp: LoadConfig_def split: sum.splits prod.splits option.splits)
  ultimately show ?thesis
    using setup_keys_ok [OF 1(3)] 1(1,2) by (auto simp: Aleo_def Ethereum_def)
qed

definition sample_files :: "unit filesystem" where
  "sample_files = \<lparr>fs_read = (\<lambda>f p. Inr []), fs_stat = (\<lambda>f p. StatDir), fs_mkdir_all = (\<lambda>f p m. Inr f),
     fs_remove = (\<lambda>f p. Inr None)\<rparr>"

definition sample_keys :: chain_keys where
  "sample_keys = [(''aleo'', Some \<lparr>kp_PrivateKey = ''key'', kp_WalletAddress = ''key''\<rparr>)]"

theorem sign_main_keys_witness:
  "\<exists>st. sign_main sample_env (\<lambda>s. Inr s) sample_files (\<lambda>b. (sample_sign_config, None)) (\<lambda>b. Inr sample_keys)
      ''config.yaml'' ''keys.yaml'' () = Inr st \<and>
    aleo_key_of sample_env sample_keys (ss_sKey st) \<and> ss_pKey st = None"
proof -
  obtain st where st: "sign_main sample_env (\<lambda>s. Inr s) sample_files (\<lambda>b. (sample_sign_config, None))
      (\<lambda>b. Inr sample_keys) ''config.yaml'' ''keys.yaml'' () = Inr st"
    by (simp add: sign_main_def LoadConfig_def LoadKeys_def IsAhsCommandAvailable_def sample_files_def sample_keys_def
        setup_key_def aleo_SetUpPrivateKey_def validateAleoPrivateKey_def sample_env_def Aleo_def SetUpChains_def
        GetChains_def)
  then show ?thesis
    using sign_main_keys [OF st] by (auto simp: LoadKeys_def sample_files_def sample_keys_def)
qed

end
