(* ===== verification/Bolt.thy ===== *)
theory Bolt
  imports Packets
begin

text \<open>
  \<open>chainService/store/bolt.go\<close>: the key-value operations over a bbolt database. The bbolt
  library itself (\<open>go.etcd.io/bbolt\<close>) is not in the repository. It is a parameter, the record
  \<open>bolt\<close> of the transaction-level calls the file makes, over a type of database states; the
  locale \<open>bbolt\<close> states what its documentation promises. Every database function of the file
  takes the library and the state and returns its result with the new state.
\<close>

section \<open>The library\<close>

text \<open>
  Within a transaction the code asks for a bucket (\<open>tx.Bucket\<close>, nil when it does not exist),
  creates one, and reads, writes and deletes keys. A cursor is its position: \<open>bo_next tx ns k\<close>
  is the pair \<open>Cursor.Next\<close> returns when the last pair it returned had key \<open>k\<close>.
  \<open>bo_commit\<close> is the outcome of the commit at the end of \<open>db.Update\<close>.
\<close>

record 'd bolt =
  bo_bucket :: "'d \<Rightarrow> string \<Rightarrow> bool"
  bo_create :: "'d \<Rightarrow> string \<Rightarrow> 'd res"
  bo_get :: "'d \<Rightarrow> string \<Rightarrow> bytes \<Rightarrow> bytes option"
  bo_put :: "'d \<Rightarrow> string \<Rightarrow> bytes \<Rightarrow> bytes \<Rightarrow> 'd res"
  bo_delete :: "'d \<Rightarrow> string \<Rightarrow> bytes \<Rightarrow> 'd res"
  bo_first :: "'d \<Rightarrow> string \<Rightarrow> (bytes \<times> bytes) option"
  bo_last :: "'d \<Rightarrow> string \<Rightarrow> (bytes \<times> bytes) option"
  bo_next :: "'d \<Rightarrow> string \<Rightarrow> bytes \<Rightarrow> (bytes \<times> bytes) option"
  bo_commit :: "'d \<Rightarrow> gerror option"

section \<open>bolt.go\<close>

text \<open>
  \<open>db.Update(fn)\<close>: the transaction is rolled back when \<open>fn\<close> or the commit fails, and the error
  is returned. \<open>db.Batch\<close> behaves like \<open>db.Update\<close> for the deletions it is used for.
\<close>

definition db_update :: "'d bolt \<Rightarrow> ('d \<Rightarrow> ('a \<times> 'd) res) \<Rightarrow> 'd \<Rightarrow> 'a res \<times> 'd" where
  "db_update B fn d =
     (case fn d of
        Inl e \<Rightarrow> (Inl e, d)
      | Inr (a, tx) \<Rightarrow> (case bo_commit B tx of None \<Rightarrow> (Inr a, tx) | Some e \<Rightarrow> (Inl e, d)))"

definition createBucket :: "'d bolt \<Rightarrow> string \<Rightarrow> 'd \<Rightarrow> unit res \<times> 'd" where
  "createBucket B ns =
     db_update B (\<lambda>tx. case bo_create B tx ns of Inl e \<Rightarrow> Inl e | Inr tx' \<Rightarrow> Inr ((), tx'))"

definition bkt_delete :: "'d bolt \<Rightarrow> string \<Rightarrow> bytes \<Rightarrow> 'd \<Rightarrow> (unit \<times> 'd) res" where
  "bkt_delete B bucket key tx =
     (if \<not> bo_bucket B tx bucket then Inl nil_deref
      else case bo_delete B tx bucket key of Inl e \<Rightarrow> Inl e | Inr tx' \<Rightarrow> Inr ((), tx'))"

definition delete_key :: "'d bolt \<Rightarrow> string \<Rightarrow> bytes \<Rightarrow> 'd \<Rightarrow> unit res \<times> 'd" where
  "delete_key B bucket key = db_update B (bkt_delete B bucket key)"

definition batchDelete :: "'d bolt \<Rightarrow> string \<Rightarrow> bytes \<Rightarrow> 'd \<Rightarrow> unit res \<times> 'd" where
  "batchDelete B bucket key = db_update B (bkt_delete B bucket key)"

definition put :: "'d bolt \<Rightarrow> string \<Rightarrow> bytes \<Rightarrow> bytes \<Rightarrow> 'd \<Rightarrow> unit res \<times> 'd" where
  "put B bucket key value =
     db_update B (\<lambda>tx.
       if \<not> bo_bucket B tx bucket then Inl nil_deref
       else case bo_put B tx bucket key value of Inl e \<Rightarrow> Inl e | Inr tx' \<Rightarrow> Inr ((), tx'))"

definition get :: "'d bolt \<Rightarrow> string \<Rightarrow> bytes \<Rightarrow> 'd \<Rightarrow> bytes option res" where
  "get B bucket key tx =
     (if \<not> bo_bucket B tx bucket then Inl nil_deref else Inr (bo_get B tx bucket key))"

definition getAndDelete :: "'d bolt \<Rightarrow> string \<Rightarrow> bytes \<Rightarrow> 'd \<Rightarrow> bytes res \<times> 'd" where
  "getAndDelete B bucket key =
     db_update B (\<lambda>tx.
       if \<not> bo_bucket B tx bucket then Inl nil_deref
       else case bo_get B tx bucket key of
              None \<Rightarrow> Inl (ErrMsg ''key does not exist'')
            | Some data \<Rightarrow>
                (case bo_delete B tx bucket key of Inl e \<Rightarrow> Inl e | Inr tx' \<Rightarrow> Inr (data, tx')))"

definition getFirstKey :: "'d bolt \<Rightarrow> string \<Rightarrow> 'd \<Rightarrow> bytes option" where
  "getFirstKey B bucket tx =
     (if \<not> bo_bucket B tx bucket then None else map_option fst (bo_first B tx bucket))"

text \<open>A missing bucket and an empty one both give two nil slices, here empty lists.\<close>

definition getLastKeyValue :: "'d bolt \<Rightarrow> string \<Rightarrow> 'd \<Rightarrow> bytes \<times> bytes" where
  "getLastKeyValue B bucket tx =
     (if \<not> bo_bucket B tx bucket then ([], [])
      else case bo_last B tx bucket of None \<Rightarrow> ([], []) | Some (k, v) \<Rightarrow> (k, v))"

definition existsInGivenBucket :: "'d bolt \<Rightarrow> string \<Rightarrow> bytes \<Rightarrow> 'd \<Rightarrow> bool" where
  "existsInGivenBucket B bktName key tx =
     (bo_bucket B tx bktName \<and> bo_get B tx bktName key \<noteq> None)"

text \<open>
  \<open>retrieveNKeyValuesFromFirst\<close> fills a channel with the first \<open>n\<close> pairs in cursor order and
  closes it: the model is the list of what the channel delivers. The cursor loop stops on
  \<open>count = n\<close> or at the end of the bucket. On a missing bucket the goroutine panics.
\<close>

fun cursor_pairs :: "'d bolt \<Rightarrow> 'd \<Rightarrow> string \<Rightarrow> nat \<Rightarrow> (bytes \<times> bytes) option \<Rightarrow> (bytes \<times> bytes) list" where
  "cursor_pairs B tx ns 0 cur = []"
| "cursor_pairs B tx ns (Suc n) cur =
     (case cur of
        None \<Rightarrow> []
      | Some (k, v) \<Rightarrow> (k, v) # cursor_pairs B tx ns n (bo_next B tx ns k))"

definition retrieveNKeyValuesFromFirst ::
    "'d bolt \<Rightarrow> string \<Rightarrow> nat \<Rightarrow> 'd \<Rightarrow> (bytes \<times> bytes) list res" where
  "retrieveNKeyValuesFromFirst B bucket n tx =
     (if \<not> bo_bucket B tx bucket then Inl nil_deref
      else Inr (cursor_pairs B tx bucket n (bo_first B tx bucket)))"

text \<open>
  \<open>retrieveAndDeleteNKeysFromFirst\<close> deletes each key before it moves the cursor on, and fails on
  an empty bucket; a failure rolls every deletion back.
\<close>

fun take_and_delete :: "'d bolt \<Rightarrow> string \<Rightarrow> nat \<Rightarrow> (bytes \<times> bytes) option \<Rightarrow> 'd \<Rightarrow> (bytes list \<times> 'd) res" where
  "take_and_delete B ns 0 cur tx = Inr ([], tx)"
| "take_and_delete B ns (Suc n) cur tx =
     (case cur of
        None \<Rightarrow> Inr ([], tx)
      | Some (k, v) \<Rightarrow>
          (case bo_delete B tx ns k of
             Inl e \<Rightarrow> Inl e
           | Inr tx' \<Rightarrow>
               (case take_and_delete B ns n (bo_next B tx' ns k) tx' of
                  Inl e \<Rightarrow> Inl e
                | Inr (vs, tx'') \<Rightarrow> Inr (v # vs, tx''))))"

definition retrieveAndDeleteNKeysFromFirst ::
    "'d bolt \<Rightarrow> string \<Rightarrow> nat \<Rightarrow> 'd \<Rightarrow> bytes list res \<times> 'd" where
  "retrieveAndDeleteNKeysFromFirst B bucket n =
     db_update B (\<lambda>tx.
       if \<not> bo_bucket B tx bucket then Inl nil_deref
       else case take_and_delete B bucket n (bo_first B tx bucket) tx of
              Inl e \<Rightarrow> Inl e
            | Inr (vs, tx') \<Rightarrow>
                if vs = [] then Inl (ErrMsg (''empty bucket: '' @ bucket)) else Inr (vs, tx'))"

section \<open>The contract of the library\<close>

text \<open>
  A bucket is a finite map from keys to values. \<open>least_pair\<close> and \<open>greatest_pair\<close> are its ends
  in byte order, \<open>items\<close> the list of its pairs in that order.
\<close>

definition least_pair :: "(bytes \<rightharpoonup> bytes) \<Rightarrow> (bytes \<times> bytes) option" where
  "least_pair m = (if dom m = {} then None else Some (Min (dom m), the (m (Min (dom m)))))"

definition greatest_pair :: "(bytes \<rightharpoonup> bytes) \<Rightarrow> (bytes \<times> bytes) option" where
  "greatest_pair m = (if dom m = {} then None else Some (Max (dom m), the (m (Max (dom m)))))"

definition items :: "(bytes \<rightharpoonup> bytes) \<Rightarrow> (bytes \<times> bytes) list" where
  "items m = map (\<lambda>k. (k, the (m k))) (sorted_list_of_set (dom m))"

text \<open>
  The documented behaviour of bbolt, stated over an abstraction \<open>view\<close> of a database state: a
  partial map from bucket names to buckets. Creating an existing bucket changes nothing;
  deleting an absent key changes nothing; a cursor visits the keys in byte order.
\<close>

locale bbolt =
  fixes B :: "'d bolt" and view :: "'d \<Rightarrow> string \<Rightarrow> (bytes \<rightharpoonup> bytes) option"
  assumes bucket_iff: "bo_bucket B d ns \<longleftrightarrow> view d ns \<noteq> None"
    and finite_view: "view d ns = Some m \<Longrightarrow> finite (dom m)"
    and create_view: "bo_create B d ns = Inr d' \<Longrightarrow>
      view d' = (case view d ns of None \<Rightarrow> (view d)(ns \<mapsto> Map.empty) | Some m \<Rightarrow> view d)"
    and get_view: "view d ns = Some m \<Longrightarrow> bo_get B d ns k = m k"
    and put_view: "view d ns = Some m \<Longrightarrow> bo_put B d ns k v = Inr d' \<Longrightarrow>
      view d' = (view d)(ns \<mapsto> m(k \<mapsto> v))"
    and delete_view: "view d ns = Some m \<Longrightarrow> bo_delete B d ns k = Inr d' \<Longrightarrow>
      view d' = (view d)(ns \<mapsto> m(k := None))"
    and first_view: "view d ns = Some m \<Longrightarrow> bo_first B d ns = least_pair m"
    and last_view: "view d ns = Some m \<Longrightarrow> bo_last B d ns = greatest_pair m"
    and next_view: "view d ns = Some m \<Longrightarrow> m k \<noteq> None \<Longrightarrow>
      bo_next B d ns k = least_pair (m |` {k'. k < k'})"

text \<open>
  A database that has room and a sound disk: a commit succeeds, and so does every call with
  arguments the library accepts (a non-blank key of at most 32768 bytes, a value of at most
  \<open>2 ^ 31 - 2\<close> bytes).
\<close>

locale bbolt_reliable = bbolt +
  assumes commit_ok: "bo_commit B d = None"
    and create_ok: "ns \<noteq> [] \<Longrightarrow> \<exists>d'. bo_create B d ns = Inr d'"
    and put_ok: "view d ns \<noteq> None \<Longrightarrow> k \<noteq> [] \<Longrightarrow> length k \<le> 32768 \<Longrightarrow> length v \<le> 2147483646 \<Longrightarrow>
      \<exists>d'. bo_put B d ns k v = Inr d'"
    and delete_ok: "view d ns \<noteq> None \<Longrightarrow> \<exists>d'. bo_delete B d ns k = Inr d'"

text \<open>
  \<open>retrieveAndDeleteNKeysFromFirst\<close> goes on with a cursor whose current key it has just
  deleted. The library's documentation says that a cursor must be repositioned after a
  mutation, so this continuation is an assumption of its own: the next pair is the first one
  beyond the deleted key.
\<close>

locale bbolt_cursor = bbolt_reliable +
  assumes next_deleted: "view d ns = Some m \<Longrightarrow> m k = None \<Longrightarrow>
    bo_next B d ns k = least_pair (m |` {k'. k < k'})"

section \<open>Facts about buckets\<close>

lemma items_empty [simp]: "items Map.empty = []"
  by (simp add: items_def)

lemma set_items: "finite (dom m) \<Longrightarrow> (k, v) \<in> set (items m) \<longleftrightarrow> m k = Some v"
  by (force simp: items_def)

lemma keys_items: "finite (dom m) \<Longrightarrow> set (map fst (items m)) = dom m"
  by (simp add: items_def o_def)

lemma sorted_items: "sorted (map fst (items m))"
  by (simp add: items_def o_def)

lemma distinct_items: "distinct (map fst (items m))"
  by (simp add: items_def o_def)

lemma length_items: "length (items m) = card (dom m)"
  by (simp add: items_def)

lemma items_Nil_iff: "finite (dom m) \<Longrightarrow> items m = [] \<longleftrightarrow> dom m = {}"
  by (simp add: items_def)

lemma items_Cons:
  assumes fin: "finite (dom m)" and ne: "dom m \<noteq> {}"
  defines "k \<equiv> Min (dom m)"
  shows "items m = (k, the (m k)) # items (m(k := None))"
proof -
  have "sorted_list_of_set (dom m) = k # sorted_list_of_set (dom m - {k})"
    using fin ne unfolding k_def by (rule sorted_list_of_set_nonempty)
  moreover have "map (\<lambda>x. (x, the (m x))) (sorted_list_of_set (dom m - {k})) = items (m(k := None))"
    using fin by (auto simp: items_def)
  ultimately show ?thesis by (simp add: items_def)
qed

lemma least_pair_items:
  "finite (dom m) \<Longrightarrow> least_pair m = (case items m of [] \<Rightarrow> None | p # ps \<Rightarrow> Some p)"
  by (auto simp: least_pair_def items_Cons items_Nil_iff)

lemma above_Min:
  assumes "finite (dom m)" and "dom m \<noteq> {}"
  shows "m(Min (dom m) := None) = m |` {k'. Min (dom m) < k'}"
proof
  fix x
  show "(m(Min (dom m) := None)) x = (m |` {k'. Min (dom m) < k'}) x"
  proof (cases "m x")
    case None
    then show ?thesis by (simp add: restrict_map_def)
  next
    case (Some v)
    then have "Min (dom m) \<le> x" using assms by (auto intro: Min_le)
    then show ?thesis by (auto simp: restrict_map_def)
  qed
qed

section \<open>What the operations do to the buckets\<close>

text \<open>\<open>bkt_of\<close> is the state of one bucket; the operations below change one bucket only.\<close>

context bbolt
begin

lemma cursor_pairs_take:
  assumes v: "view d ns = Some m" and up: "\<And>x y. x \<in> S \<Longrightarrow> x < y \<Longrightarrow> y \<in> S"
  shows "cursor_pairs B d ns n (least_pair (m |` S)) = take n (items (m |` S))"
  using up
proof (induction n arbitrary: S)
  case 0
  then show ?case by simp
next
  case (Suc n)
  define mS where "mS = m |` S"
  have fin: "finite (dom mS)" using finite_view [OF v] by (auto simp: mS_def)
  show ?case
  proof (cases "dom mS = {}")
    case True
    then show ?thesis using fin by (simp add: least_pair_def items_Nil_iff flip: mS_def)
  next
    case False
    define k where "k = Min (dom mS)"
    have k: "k \<in> dom mS" unfolding k_def using fin False by (rule Min_in)
    then have mk: "m k \<noteq> None" and kS: "k \<in> S"
      by (auto simp: mS_def restrict_map_def split: if_splits)
    have "mS(k := None) = mS |` {k'. k < k'}"
      unfolding k_def by (rule above_Min [OF fin False])
    also have "\<dots> = m |` {k'. k < k'}"
      using Suc.prems [OF kS] by (auto simp: mS_def restrict_map_def fun_eq_iff)
    finally have rest: "mS(k := None) = m |` {k'. k < k'}" .
    have "cursor_pairs B d ns n (least_pair (m |` {k'. k < k'})) = take n (items (m |` {k'. k < k'}))"
      by (rule Suc.IH) auto
    moreover have "least_pair mS = Some (k, the (mS k))"
      using False by (simp add: least_pair_def k_def)
    moreover have "items mS = (k, the (mS k)) # items (m |` {k'. k < k'})"
      using items_Cons [OF fin False] by (simp add: rest flip: k_def)
    ultimately show ?thesis using next_view [OF v mk] by (simp flip: mS_def)
  qed
qed

lemma retrieveN_items:
  "view d ns = Some m \<Longrightarrow> retrieveNKeyValuesFromFirst B ns n d = Inr (take n (items m))"
  using cursor_pairs_take [of d ns m UNIV n]
  by (simp add: retrieveNKeyValuesFromFirst_def bucket_iff first_view restrict_map_def)

lemma retrieveN_missing: "view d ns = None \<Longrightarrow> retrieveNKeyValuesFromFirst B ns n d = Inl nil_deref"
  by (simp add: retrieveNKeyValuesFromFirst_def bucket_iff)

lemma put_effect:
  "view d ns = Some m \<Longrightarrow> put B ns k v d = (Inr (), d') \<Longrightarrow> view d' = (view d)(ns \<mapsto> m(k \<mapsto> v))"
  by (auto simp: put_def db_update_def bucket_iff put_view split: sum.splits option.splits if_splits)

lemma put_error: "put B ns k v d = (Inl e, d') \<Longrightarrow> d' = d"
  by (auto simp: put_def db_update_def split: sum.splits option.splits)

lemma delete_effect:
  "view d ns = Some m \<Longrightarrow> batchDelete B ns k d = (Inr (), d') \<Longrightarrow> view d' = (view d)(ns \<mapsto> m(k := None))"
  by (auto simp: batchDelete_def bkt_delete_def db_update_def bucket_iff delete_view
      split: sum.splits option.splits if_splits)

lemma delete_error: "batchDelete B ns k d = (Inl e, d') \<Longrightarrow> d' = d"
  by (auto simp: batchDelete_def db_update_def split: sum.splits option.splits)

lemma getAndDelete_effect:
  assumes "view d ns = Some m" and "getAndDelete B ns k d = (Inr v, d')"
  shows "m k = Some v \<and> view d' = (view d)(ns \<mapsto> m(k := None))"
  using assms
  by (auto simp: getAndDelete_def db_update_def bucket_iff delete_view get_view
      split: sum.splits option.splits if_splits)

lemma getAndDelete_absent:
  "view d ns = Some m \<Longrightarrow> m k = None \<Longrightarrow>
   getAndDelete B ns k d = (Inl (ErrMsg ''key does not exist''), d)"
  by (simp add: getAndDelete_def db_update_def bucket_iff get_view)

lemma getLastKeyValue_view:
  "view d ns = Some m \<Longrightarrow>
   getLastKeyValue B ns d = (case greatest_pair m of None \<Rightarrow> ([], []) | Some p \<Rightarrow> p)"
  by (auto simp: getLastKeyValue_def bucket_iff last_view split: option.splits)

lemma getLastKeyValue_missing: "view d ns = None \<Longrightarrow> getLastKeyValue B ns d = ([], [])"
  by (simp add: getLastKeyValue_def bucket_iff)

end

context bbolt_reliable
begin

lemma put_succeeds:
  assumes "view d ns = Some m" and "k \<noteq> []" "length k \<le> 32768" "length v \<le> 2147483646"
  shows "\<exists>d'. put B ns k v d = (Inr (), d') \<and> view d' = (view d)(ns \<mapsto> m(k \<mapsto> v))"
proof -
  obtain d' where "bo_put B d ns k v = Inr d'" using put_ok [of d ns k v] assms by auto
  then have "put B ns k v d = (Inr (), d')"
    using assms(1) by (simp add: put_def db_update_def bucket_iff commit_ok)
  then show ?thesis using put_effect [OF assms(1)] by blast
qed

lemma delete_succeeds:
  assumes "view d ns = Some m"
  shows "\<exists>d'. batchDelete B ns k d = (Inr (), d') \<and> view d' = (view d)(ns \<mapsto> m(k := None))"
proof -
  obtain d' where "bo_delete B d ns k = Inr d'" using delete_ok [of d ns k] assms by auto
  then have "batchDelete B ns k d = (Inr (), d')"
    using assms by (simp add: batchDelete_def bkt_delete_def db_update_def bucket_iff commit_ok)
  then show ?thesis using delete_effect [OF assms] by blast
qed

lemma getAndDelete_succeeds:
  assumes "view d ns = Some m" and "m k = Some v"
  shows "\<exists>d'. getAndDelete B ns k d = (Inr v, d') \<and> view d' = (view d)(ns \<mapsto> m(k := None))"
proof -
  obtain d' where "bo_delete B d ns k = Inr d'" using delete_ok [of d ns k] assms by auto
  then have "getAndDelete B ns k d = (Inr v, d')"
    using assms by (simp add: getAndDelete_def db_update_def bucket_iff commit_ok get_view)
  then show ?thesis using getAndDelete_effect [OF assms(1)] by blast
qed

lemma createBucket_succeeds:
  assumes "ns \<noteq> []"
  shows "\<exists>d'. createBucket B ns d = (Inr (), d') \<and>
    view d' = (case view d ns of None \<Rightarrow> (view d)(ns \<mapsto> Map.empty) | Some m \<Rightarrow> view d)"
proof -
  obtain d' where d': "bo_create B d ns = Inr d'" using create_ok [OF assms] by auto
  then have "createBucket B ns d = (Inr (), d')"
    by (simp add: createBucket_def db_update_def commit_ok)
  then show ?thesis using create_view [OF d'] by blast
qed

end

text \<open>Deleting the first \<open>n\<close> pairs of a bucket while walking it.\<close>

definition drop_first :: "nat \<Rightarrow> (bytes \<rightharpoonup> bytes) \<Rightarrow> (bytes \<rightharpoonup> bytes)" where
  "drop_first n m = m |` (- set (map fst (take n (items m))))"

lemma drop_first_0 [simp]: "drop_first 0 m = m"
  by (simp add: drop_first_def restrict_map_def)

lemma drop_first_empty: "dom m = {} \<Longrightarrow> drop_first n m = m"
  by (simp add: drop_first_def restrict_map_def fun_eq_iff domIff)

lemma drop_first_Suc:
  assumes "finite (dom m)" and "dom m \<noteq> {}"
  shows "drop_first (Suc n) m = drop_first n (m(Min (dom m) := None))"
proof -
  have "items m = (Min (dom m), the (m (Min (dom m)))) # items (m(Min (dom m) := None))"
    by (rule items_Cons [OF assms])
  then show ?thesis
    by (auto simp: drop_first_def restrict_map_def fun_eq_iff)
qed

context bbolt_cursor
begin

lemma take_and_delete_effect:
  assumes "view d ns = Some m"
  shows "\<exists>d'. take_and_delete B ns n (least_pair m) d = Inr (map snd (take n (items m)), d') \<and>
    view d' = (view d)(ns \<mapsto> drop_first n m)"
  using assms
proof (induction n arbitrary: d m)
  case 0
  then show ?case by (simp add: map_upd_triv)
next
  case (Suc n)
  note fin = finite_view [OF Suc.prems]
  show ?case
  proof (cases "dom m = {}")
    case True
    then show ?thesis
      using Suc.prems fin by (simp add: least_pair_def items_Nil_iff drop_first_empty map_upd_triv)
  next
    case False
    define k where "k = Min (dom m)"
    define m1 where "m1 = m(k := None)"
    obtain d1 where d1: "bo_delete B d ns k = Inr d1"
      using delete_ok [of d ns k] Suc.prems by auto
    have v1: "view d1 = (view d)(ns \<mapsto> m1)"
      using delete_view [OF Suc.prems d1] by (simp add: m1_def)
    then have v1': "view d1 ns = Some m1" by simp
    have "m1 |` {k'. k < k'} = m1"
      using above_Min [OF fin False] by (auto simp: m1_def k_def restrict_map_def fun_eq_iff)
    then have "bo_next B d1 ns k = least_pair m1"
      using next_deleted [of d1 ns m1 k] v1 by (simp add: m1_def)
    moreover obtain d' where
      "take_and_delete B ns n (least_pair m1) d1 = Inr (map snd (take n (items m1)), d')"
      "view d' = (view d1)(ns \<mapsto> drop_first n m1)"
      using Suc.IH [OF v1'] by blast
    moreover have "least_pair m = Some (k, the (m k))"
      using False by (simp add: least_pair_def k_def)
    moreover have "items m = (k, the (m k)) # items m1"
      using items_Cons [OF fin False] by (simp add: m1_def k_def)
    moreover have "drop_first (Suc n) m = drop_first n m1"
      using drop_first_Suc [OF fin False] by (simp add: m1_def k_def)
    ultimately show ?thesis using d1 v1 by (simp add: fun_eq_iff)
  qed
qed

lemma retrieveAndDelete_effect:
  assumes v: "view d ns = Some m" and ne: "n \<noteq> 0" "dom m \<noteq> {}"
  shows "\<exists>d'. retrieveAndDeleteNKeysFromFirst B ns n d = (Inr (map snd (take n (items m))), d') \<and>
    view d' = (view d)(ns \<mapsto> drop_first n m)"
proof -
  have "items m \<noteq> []" using finite_view [OF v] ne by (simp add: items_Nil_iff)
  then show ?thesis
    using take_and_delete_effect [OF v, of n] ne
    by (auto simp: retrieveAndDeleteNKeysFromFirst_def db_update_def bucket_iff v first_view commit_ok)
qed

lemma retrieveAndDelete_empty:
  "view d ns = Some m \<Longrightarrow> dom m = {} \<Longrightarrow>
   retrieveAndDeleteNKeysFromFirst B ns n d = (Inl (ErrMsg (''empty bucket: '' @ ns)), d)"
  by (cases n)
    (simp_all add: retrieveAndDeleteNKeysFromFirst_def db_update_def bucket_iff first_view least_pair_def)

end

section \<open>An in-memory database\<close>

text \<open>
  A database held as nested association lists satisfies the contract. It is the instance the
  concrete runs of the later theories use.
\<close>

type_synonym memdb = "(string \<times> (bytes \<times> bytes) list) list"

definition mem_bucket :: "memdb \<Rightarrow> string \<Rightarrow> (bytes \<times> bytes) list" where
  "mem_bucket d ns = (case map_of d ns of None \<Rightarrow> [] | Some l \<Rightarrow> l)"

definition mem_end :: "(bytes set \<Rightarrow> bytes) \<Rightarrow> (bytes \<times> bytes) list \<Rightarrow> (bytes \<times> bytes) option" where
  "mem_end pick l = (if l = [] then None else
     (let k = pick (set (map fst l)) in Some (k, the (map_of l k))))"

definition mem_bolt :: "memdb bolt" where
  "mem_bolt =
     \<lparr>bo_bucket = (\<lambda>d ns. map_of d ns \<noteq> None),
      bo_create = (\<lambda>d ns. if ns = [] then Inl (ErrLib ''bucket name required'')
                          else Inr (if map_of d ns = None then (ns, []) # d else d)),
      bo_get = (\<lambda>d ns k. map_of (mem_bucket d ns) k),
      bo_put = (\<lambda>d ns k v.
        if k = [] then Inl (ErrLib ''key required'')
        else if 32768 < length k then Inl (ErrLib ''key too large'')
        else if 2147483646 < length v then Inl (ErrLib ''value too large'')
        else Inr ((ns, (k, v) # mem_bucket d ns) # d)),
      bo_delete = (\<lambda>d ns k. Inr ((ns, filter (\<lambda>(k', v). k' \<noteq> k) (mem_bucket d ns)) # d)),
      bo_first = (\<lambda>d ns. mem_end Min (mem_bucket d ns)),
      bo_last = (\<lambda>d ns. mem_end Max (mem_bucket d ns)),
      bo_next = (\<lambda>d ns k. mem_end Min (filter (\<lambda>(k', v). k < k') (mem_bucket d ns))),
      bo_commit = (\<lambda>d. None)\<rparr>"

definition mem_view :: "memdb \<Rightarrow> string \<Rightarrow> (bytes \<rightharpoonup> bytes) option" where
  "mem_view d ns = map_option map_of (map_of d ns)"

lemma map_of_filter_key: "map_of (filter (\<lambda>(k', v). P k') l) = map_of l |` {k. P k}"
  by (induction l) (auto simp: restrict_map_def fun_eq_iff)

lemma map_of_delete_key: "map_of (filter (\<lambda>(k', v). k' \<noteq> k) l) = (map_of l)(k := None)"
  by (auto simp: map_of_filter_key [of "\<lambda>k'. k' \<noteq> k"] restrict_map_def fun_eq_iff)

lemma mem_end_Min: "mem_end Min l = least_pair (map_of l)"
  by (auto simp: mem_end_def least_pair_def dom_map_of_conv_image_fst Let_def)

lemma mem_end_Max: "mem_end Max l = greatest_pair (map_of l)"
  by (auto simp: mem_end_def greatest_pair_def dom_map_of_conv_image_fst Let_def)

lemma mem_bucket_view: "mem_view d ns = Some m \<Longrightarrow> map_of (mem_bucket d ns) = m"
  by (auto simp: mem_view_def mem_bucket_def)

interpretation mem: bbolt_cursor mem_bolt mem_view
proof (standard, goal_cases)
  case (3 d ns d')
  then show ?case
    by (auto simp: mem_bolt_def mem_view_def fun_eq_iff split: if_splits option.splits)
next
  case (5 d ns m k v d')
  then show ?case
    by (auto simp: mem_bolt_def mem_view_def mem_bucket_def fun_eq_iff split: if_splits)
next
  case (6 d ns m k d')
  then show ?case
    by (auto simp: mem_bolt_def mem_view_def mem_bucket_def fun_eq_iff map_of_delete_key)
qed (auto simp: mem_bolt_def mem_view_def mem_end_Min mem_end_Max map_of_filter_key mem_bucket_view
      finite_dom_map_of mem_bucket_def)

end
