(* ===== verification/Store.thy ===== *)
theory Store
  imports Bolt PacketJson
begin

text \<open>
  \<open>chainService/store/db.go\<close> and \<open>constraint.go\<close>: the typed layer over \<open>bolt.go\<close>. A
  base-sequence namespace maps the sequence numbers of delivered packets to their heights, a
  retry namespace maps sequence numbers to packets that failed, and the screening namespace maps
  packet hashes to a flag.
\<close>

section \<open>constraint.go\<close>

text \<open>
  The key types a caller may use. A type switch on \<open>string\<close> and \<open>[]byte\<close> does not match a
  defined type over them, which the constraint \<open>~string | ~[]byte\<close> lets through: those are
  the last two constructors.
\<close>

datatype store_key =
    KInt64 i64
  | KUint64 u64
  | KString string
  | KBytes bytes
  | KNamedString string
  | KNamedBytes bytes

fun getKeyByteForKeyConstraint :: "store_key \<Rightarrow> bytes" where
  "getKeyByteForKeyConstraint (KInt64 v) = be64 v"
| "getKeyByteForKeyConstraint (KUint64 v) = be64 v"
| "getKeyByteForKeyConstraint (KString s) = bytes_of_string s"
| "getKeyByteForKeyConstraint (KBytes b) = b"
| "getKeyByteForKeyConstraint (KNamedString s) = []"
| "getKeyByteForKeyConstraint (KNamedBytes b) = []"

definition bad_conversion :: gerror where
  "bad_conversion = Panic ''interface conversion: interface is nil''"

text \<open>The first argument is the sample of the result type.\<close>

fun convertType :: "store_key \<Rightarrow> bytes \<Rightarrow> store_key res" where
  "convertType (KInt64 s) b = (case be_uint64 b of Inl e \<Rightarrow> Inl e | Inr v \<Rightarrow> Inr (KInt64 v))"
| "convertType (KUint64 s) b = (case be_uint64 b of Inl e \<Rightarrow> Inl e | Inr v \<Rightarrow> Inr (KUint64 v))"
| "convertType (KString s) b = Inr (KString (string_of_bytes b))"
| "convertType (KBytes s) b = Inr (KBytes b)"
| "convertType (KNamedString s) b = Inl bad_conversion"
| "convertType (KNamedBytes s) b = Inl bad_conversion"

section \<open>db.go\<close>

definition CreateNamespace :: "'d bolt \<Rightarrow> string \<Rightarrow> 'd \<Rightarrow> unit res \<times> 'd" where
  "CreateNamespace B ns = createBucket B ns"

fun CreateNamespaces :: "'d bolt \<Rightarrow> string list \<Rightarrow> 'd \<Rightarrow> unit res \<times> 'd" where
  "CreateNamespaces B [] d = (Inr (), d)"
| "CreateNamespaces B (name # names) d =
     (case CreateNamespace B name d of
        (Inl e, d') \<Rightarrow> (Inl e, d')
      | (Inr u, d') \<Rightarrow> CreateNamespaces B names d')"

definition StoreBaseSeqNum :: "'d bolt \<Rightarrow> string \<Rightarrow> u64 \<Rightarrow> u64 \<Rightarrow> 'd \<Rightarrow> unit res \<times> 'd" where
  "StoreBaseSeqNum B ns k v =
     put B ns (getKeyByteForKeyConstraint (KUint64 k))
       (if v \<noteq> 0 then getKeyByteForKeyConstraint (KUint64 v) else [])"

definition StoreRetryPacket :: "'d bolt \<Rightarrow> string \<Rightarrow> packet \<Rightarrow> 'd \<Rightarrow> unit res \<times> 'd" where
  "StoreRetryPacket B ns pkt =
     put B ns (getKeyByteForKeyConstraint (KUint64 (p_sequence pkt))) (marshal_packet pkt)"

definition RetrieveAndDeleteNPackets :: "'d bolt \<Rightarrow> string \<Rightarrow> nat \<Rightarrow> 'd \<Rightarrow> packet list res \<times> 'd" where
  "RetrieveAndDeleteNPackets B ns n d =
     (case retrieveAndDeleteNKeysFromFirst B ns n d of
        (Inl e, d') \<Rightarrow> (Inl e, d')
      | (Inr s, d') \<Rightarrow> (seq_res (map unmarshal_packet s), d'))"

definition RemoveKey :: "'d bolt \<Rightarrow> string \<Rightarrow> store_key \<Rightarrow> bool \<Rightarrow> 'd \<Rightarrow> unit res \<times> 'd" where
  "RemoveKey B ns key batch =
     (let k = getKeyByteForKeyConstraint key
      in if batch then batchDelete B ns k else delete_key B ns k)"

text \<open>A stored number plus one; an empty text gives 0.\<close>

definition next_of :: "bytes \<Rightarrow> u64 res" where
  "next_of b =
     (if length b \<noteq> 0 then (case be_uint64 b of Inl e \<Rightarrow> Inl e | Inr v \<Rightarrow> Inr (v + 1)) else Inr 0)"

definition GetStartingSeqNumAndHeight :: "'d bolt \<Rightarrow> string \<Rightarrow> 'd \<Rightarrow> (u64 \<times> u64) res" where
  "GetStartingSeqNumAndHeight B ns d =
     (let (seqNumB, heightB) = getLastKeyValue B ns d
      in case next_of seqNumB of
           Inl e \<Rightarrow> Inl e
         | Inr seqNum \<Rightarrow> (case next_of heightB of Inl e \<Rightarrow> Inl e | Inr height \<Rightarrow> Inr (seqNum, height)))"

definition GetFirstKey :: "'d bolt \<Rightarrow> string \<Rightarrow> store_key \<Rightarrow> 'd \<Rightarrow> store_key res" where
  "GetFirstKey B ns keyType d =
     (case getFirstKey B ns d of None \<Rightarrow> Inr keyType | Some key \<Rightarrow> convertType keyType key)"

definition ExistInGivenNamespace :: "'d bolt \<Rightarrow> string \<Rightarrow> store_key \<Rightarrow> 'd \<Rightarrow> bool" where
  "ExistInGivenNamespace B ns key d = existsInGivenBucket B ns (getKeyByteForKeyConstraint key) d"

text \<open>
  \<open>PruneBaseSeqNum\<close>. The scan starts at the first pair of the bucket and follows consecutive
  sequence numbers. It collects the keys it leaves behind, and stops at the first gap with the
  sequence numbers and the heights on both sides of it.
\<close>

type_synonym seq_height_range = "(u64 \<times> u64) \<times> (u64 \<times> u64)"

definition stored_height :: "bytes \<Rightarrow> u64 res" where
  "stored_height v = (if length v \<noteq> 0 then be_uint64 v else Inr 0)"

fun prune_scan :: "(bytes \<times> bytes) list \<Rightarrow> bytes \<Rightarrow> u64 \<Rightarrow> u64 \<Rightarrow>
    (bytes list \<times> seq_height_range option) res" where
  "prune_scan [] curKey curSeq curHeight = Inr ([], None)"
| "prune_scan ((k, v) # kvs) curKey curSeq curHeight =
     (case be_uint64 k of
        Inl e \<Rightarrow> Inl e
      | Inr nextSeq \<Rightarrow>
          (case stored_height v of
             Inl e \<Rightarrow> Inl e
           | Inr nextHeight \<Rightarrow>
               if nextSeq = curSeq + 1
               then (case prune_scan kvs k nextSeq nextHeight of
                       Inl e \<Rightarrow> Inl e
                     | Inr (toDelete, gap) \<Rightarrow> Inr (curKey # toDelete, gap))
               else Inr ([], Some ((curSeq, nextSeq), (curHeight, nextHeight)))))"

text \<open>The deletions run in goroutines of their own; a failed one is logged and skipped.\<close>

fun delete_keys :: "'d bolt \<Rightarrow> string \<Rightarrow> bytes list \<Rightarrow> 'd \<Rightarrow> 'd" where
  "delete_keys B ns [] d = d"
| "delete_keys B ns (k # ks) d = delete_keys B ns ks (snd (batchDelete B ns k d))"

definition PruneBaseSeqNum :: "'d bolt \<Rightarrow> string \<Rightarrow> 'd \<Rightarrow> (seq_height_range \<times> bool) res \<times> 'd" where
  "PruneBaseSeqNum B ns d =
     (case retrieveNKeyValuesFromFirst B ns 1000 d of
        Inl e \<Rightarrow> (Inl e, d)
      | Inr [] \<Rightarrow> (Inr (((0, 0), (0, 0)), False), d)
      | Inr ((curKey, curHeight) # kvs) \<Rightarrow>
          (case be_uint64 curKey of
             Inl e \<Rightarrow> (Inl e, d)
           | Inr curBaseSeqNum \<Rightarrow>
               (case stored_height curHeight of
                  Inl e \<Rightarrow> (Inl e, d)
                | Inr curBaseHeight \<Rightarrow>
                    (case prune_scan kvs curKey curBaseSeqNum curBaseHeight of
                       Inl e \<Rightarrow> (Inl e, d)
                     | Inr (toDelete, gap) \<Rightarrow>
                         (Inr (case gap of None \<Rightarrow> (((0, 0), (0, 0)), False) | Some a \<Rightarrow> (a, True)),
                          delete_keys B ns toDelete d)))))"

definition screenValue :: "bool \<Rightarrow> string" where
  "screenValue b = (if b then ''1'' else ''0'')"

definition StoreWhiteStatus :: "'d bolt \<Rightarrow> string \<Rightarrow> string \<Rightarrow> bool \<Rightarrow> 'd \<Rightarrow> unit res \<times> 'd" where
  "StoreWhiteStatus B ns key value =
     put B ns (bytes_of_string key) (bytes_of_string (screenValue value))"

definition GetAndDeleteWhiteStatus :: "'d bolt \<Rightarrow> string \<Rightarrow> string \<Rightarrow> 'd \<Rightarrow> bool res \<times> 'd" where
  "GetAndDeleteWhiteStatus B ns key d =
     (case getAndDelete B ns (bytes_of_string key) d of
        (Inl e, d') \<Rightarrow> (Inl e, d')
      | (Inr v, d') \<Rightarrow> (Inr (screenValue True = string_of_bytes v), d'))"

section \<open>Namespaces as maps over sequence numbers\<close>

text \<open>
  A base-sequence bucket holds eight-byte keys and values that are empty or have eight bytes.
  \<open>base_map\<close> reads it as a map from sequence numbers to heights.
\<close>

definition base_ok :: "(bytes \<rightharpoonup> bytes) \<Rightarrow> bool" where
  "base_ok m \<longleftrightarrow> (\<forall>k v. m k = Some v \<longrightarrow> length k = 8 \<and> (v = [] \<or> length v = 8))"

definition height_of_value :: "bytes \<Rightarrow> u64" where
  "height_of_value v = of_nat (be_nat v)"

definition base_map :: "(bytes \<rightharpoonup> bytes) \<Rightarrow> (u64 \<rightharpoonup> u64)" where
  "base_map m s = map_option height_of_value (m (be64 s))"

definition seq_of_key :: "bytes \<Rightarrow> u64" where
  "seq_of_key k = of_nat (be_nat k)"

lemma seq_of_key_be64 [simp]: "seq_of_key (be64 s) = s"
  by (simp add: seq_of_key_def be_simps)

lemma be64_seq_of_key: "length k = 8 \<Longrightarrow> be64 (seq_of_key k) = k"
  using be_uint64_Inr_be64 [of k "seq_of_key k"] by (simp add: be_uint64_def seq_of_key_def)

lemma height_of_value_simps [simp]: "height_of_value [] = 0" "height_of_value (be64 h) = h"
  by (simp_all add: height_of_value_def be_simps)

lemma stored_height_value: "v = [] \<or> length v = 8 \<Longrightarrow> stored_height v = Inr (height_of_value v)"
  by (auto simp: stored_height_def be_uint64_def height_of_value_def be_simps)

lemma be_uint64_key: "length k = 8 \<Longrightarrow> be_uint64 k = Inr (seq_of_key k)"
  by (simp add: be_uint64_def seq_of_key_def)

lemma base_ok_upd: "base_ok m \<Longrightarrow> v = [] \<or> length v = 8 \<Longrightarrow> base_ok (m(be64 s \<mapsto> v))"
  by (auto simp: base_ok_def)

lemma base_ok_restrict: "base_ok m \<Longrightarrow> base_ok (m |` S)"
  by (auto simp: base_ok_def restrict_map_def split: if_splits)

lemma base_map_upd: "base_map (m(be64 s \<mapsto> v)) = (base_map m)(s \<mapsto> height_of_value v)"
  by (auto simp: base_map_def fun_eq_iff)

lemma dom_base_map: "base_ok m \<Longrightarrow> dom m = be64 ` dom (base_map m)"
  by (force simp: base_map_def base_ok_def dom_def image_iff dest: be64_seq_of_key [symmetric])

lemma finite_base_map: "base_ok m \<Longrightarrow> finite (dom m) \<Longrightarrow> finite (dom (base_map m))"
  by (auto simp: dom_base_map finite_image_iff inj_on_def)

text \<open>Byte order on the keys is the order of the sequence numbers.\<close>

lemma sorted_list_be64:
  assumes "finite A"
  shows "sorted_list_of_set (be64 ` A) = map be64 (sorted_list_of_set A)"
proof (rule sorted_distinct_set_unique)
  show "sorted (map be64 (sorted_list_of_set A))"
    by (simp add: sorted_map)
  show "distinct (map be64 (sorted_list_of_set A))"
    by (simp add: distinct_map inj_on_def)
qed (use assms in auto)

lemma items_be64:
  assumes "dom m = be64 ` A" and "finite A"
  shows "items m = map (\<lambda>s. (be64 s, the (m (be64 s)))) (sorted_list_of_set A)"
  using assms by (simp add: items_def sorted_list_be64)

lemma greatest_pair_be64:
  assumes "dom m = be64 ` A" and "finite A" and "A \<noteq> {}"
  shows "greatest_pair m = Some (be64 (Max A), the (m (be64 (Max A))))"
proof -
  have "Max (be64 ` A) = be64 (Max A)"
    using assms(2,3) by (simp add: mono_Max_commute [symmetric] mono_def)
  with assms show ?thesis by (simp add: greatest_pair_def)
qed

section \<open>What pruning computes\<close>

text \<open>The scan over decoded pairs, and the fact that the code computes it.\<close>

fun scan_seqs :: "(u64 \<times> u64) list \<Rightarrow> u64 \<Rightarrow> u64 \<Rightarrow> u64 list \<times> seq_height_range option" where
  "scan_seqs [] c h = ([], None)"
| "scan_seqs ((n, hn) # xs) c h =
     (if n = c + 1 then (let (del, g) = scan_seqs xs n hn in (c # del, g))
      else ([], Some ((c, n), (h, hn))))"

lemma prune_scan_decode:
  assumes "\<forall>(k, v) \<in> set kvs. length k = 8 \<and> (v = [] \<or> length v = 8)"
    and "scan_seqs (map (\<lambda>(k, v). (seq_of_key k, height_of_value v)) kvs) c h = (del, g)"
  shows "prune_scan kvs (be64 c) c h = Inr (map be64 del, g)"
  using assms
proof (induction kvs arbitrary: c h del g)
  case Nil
  then show ?case by simp
next
  case (Cons kv kvs)
  obtain k v where kv: "kv = (k, v)" by (cases kv)
  have len: "length k = 8" "v = [] \<or> length v = 8" using Cons.prems(1) kv by auto
  have rest: "\<forall>(k, v) \<in> set kvs. length k = 8 \<and> (v = [] \<or> length v = 8)"
    using Cons.prems(1) by simp
  show ?case
  proof (cases "seq_of_key k = c + 1")
    case True
    obtain del' g' where r: "scan_seqs (map (\<lambda>(k, v). (seq_of_key k, height_of_value v)) kvs)
        (seq_of_key k) (height_of_value v) = (del', g')"
      by (cases "scan_seqs (map (\<lambda>(k, v). (seq_of_key k, height_of_value v)) kvs)
        (seq_of_key k) (height_of_value v)")
    have "prune_scan kvs k (seq_of_key k) (height_of_value v) = Inr (map be64 del', g')"
      using Cons.IH [OF rest r] be64_seq_of_key [OF len(1)] by simp
    then show ?thesis
      using True Cons.prems(2) r kv be_uint64_key [OF len(1)] stored_height_value [OF len(2)] by auto
  next
    case False
    then show ?thesis
      using Cons.prems(2) kv be_uint64_key [OF len(1)] stored_height_value [OF len(2)] by auto
  qed
qed

text \<open>
  \<open>b\<close> is the base of the keys \<open>K\<close>: every number from the least key up to \<open>b\<close> is a key, and
  the next key, if there is one, leaves a gap.
\<close>

definition is_base :: "u64 set \<Rightarrow> u64 \<Rightarrow> bool" where
  "is_base K b \<longleftrightarrow> b \<in> K \<and> (\<forall>s. Min K \<le> s \<and> s \<le> b \<longrightarrow> s \<in> K) \<and> (\<forall>s \<in> K. b < s \<longrightarrow> b + 1 < s)"

definition gap_after :: "(u64 \<rightharpoonup> u64) \<Rightarrow> u64 \<Rightarrow> seq_height_range option" where
  "gap_after M b =
     (let later = {s \<in> dom M. b < s}
      in if later = {} then None
         else Some ((b, Min later), (the (M b), the (M (Min later)))))"

lemma u64_between: "(c :: u64) \<le> s \<Longrightarrow> c < n \<Longrightarrow> n = c + 1 \<Longrightarrow> s = c \<or> n \<le> s"
  using u64_Suc_no_wrap [of c n] by (auto simp: word_le_nat_alt word_less_nat_alt word_unat_eq_iff)

lemma is_base_insert:
  assumes "is_base K b" and "Min K = n" and "Min (insert c K) = c" and "c < n" and "n \<le> b"
    and "\<And>s. c \<le> s \<Longrightarrow> s = c \<or> n \<le> s"
  shows "is_base (insert c K) b"
proof -
  have b: "b \<in> K" "\<And>s. n \<le> s \<Longrightarrow> s \<le> b \<Longrightarrow> s \<in> K" "\<And>s. s \<in> K \<Longrightarrow> b < s \<Longrightarrow> b + 1 < s"
    using assms(1,2) by (auto simp: is_base_def)
  have "\<not> b < c" using assms(4,5) by simp
  then have "b + 1 < s" if "s \<in> insert c K" "b < s" for s using b(3) that by blast
  moreover have "s \<in> insert c K" if "c \<le> s" "s \<le> b" for s using assms(6) [OF that(1)] b(2) that(2) by blast
  ultimately show ?thesis unfolding is_base_def assms(3) using b(1) by simp
qed

lemma gap_after_upd:
  assumes "c < b"
  shows "gap_after (M(c \<mapsto> h)) b = gap_after M b"
proof (cases "{s \<in> dom M. b < s} = {}")
  case True
  have "{s \<in> dom (M(c \<mapsto> h)). b < s} = {s \<in> dom M. b < s}" using assms by auto
  with True show ?thesis unfolding gap_after_def Let_def by simp
next
  case False
  have later: "{s \<in> dom (M(c \<mapsto> h)). b < s} = {s \<in> dom M. b < s}" using assms by auto
  have "Min {s \<in> dom M. b < s} \<in> {s \<in> dom M. b < s}" using False by (intro Min_in) auto
  then have "b < Min {s \<in> dom M. b < s}" by blast
  then have "Min {s \<in> dom M. b < s} \<noteq> c" using assms by auto
  then show ?thesis unfolding gap_after_def Let_def later using assms by auto
qed

lemma scan_seqs_spec:
  assumes "sorted_wrt (<) (c # map fst xs)"
    and "scan_seqs xs c h = (del, g)"
    and "M = map_of ((c, h) # xs)"
  shows "\<exists>b. is_base (dom M) b \<and> set del = {s. c \<le> s \<and> s < b} \<and> g = gap_after M b"
  using assms
proof (induction xs arbitrary: c h del g M)
  case Nil
  then have "dom M = {c}" "del = []" "g = None" by (auto simp: dom_def)
  then have "is_base (dom M) c" "set del = {s. c \<le> s \<and> s < c}" "g = gap_after M c"
    by (auto simp: is_base_def gap_after_def Let_def)
  then show ?case by blast
next
  case (Cons x xs)
  obtain n hn where x: "x = (n, hn)" by (cases x)
  have cn: "c < n" and later: "\<forall>s \<in> fst ` set xs. n < s"
    and sorted': "sorted_wrt (<) (n # map fst xs)"
    using Cons.prems(1) x by auto
  define M' where "M' = map_of ((n, hn) # xs)"
  have dom': "dom M' = insert n (fst ` set xs)" by (simp add: M'_def dom_map_of_conv_image_fst)
  have M: "M = M'(c \<mapsto> h)" unfolding M'_def Cons.prems(3) x map_of.simps fst_conv snd_conv ..
  then have dom: "dom M = insert c (dom M')" by simp
  have min': "Min (dom M') = n" using later by (intro Min_eqI) (auto simp: dom')
  have minM: "Min (dom M) = c" using later cn by (intro Min_eqI) (auto simp: dom dom')
  show ?case
  proof (cases "n = c + 1")
    case True
    obtain del' where r: "scan_seqs xs n hn = (del', g)" and del: "del = c # del'"
      using Cons.prems(2) x True by (auto split: prod.splits)
    obtain b where b: "is_base (dom M') b" "set del' = {s. n \<le> s \<and> s < b}" "g = gap_after M' b"
      using Cons.IH [OF sorted' r M'_def] by blast
    have nb: "n \<le> b" using b(1) later by (auto simp: is_base_def dom' intro: less_imp_le)
    have "is_base (dom M) b"
      using is_base_insert [OF b(1) min' _ cn nb] minM u64_between [OF _ cn True]
      unfolding dom by blast
    moreover have "set del = {s. c \<le> s \<and> s < b}"
      using b(2) cn nb u64_between [OF _ cn True] by (auto simp: del)
    moreover have "g = gap_after M b"
      using b(3) cn nb gap_after_upd [of c b] by (simp add: M)
    ultimately show ?thesis by blast
  next
    case False
    have c1: "c + 1 < n"
      using False u64_Suc_no_wrap [OF cn] cn
      by (auto simp: word_less_nat_alt word_unat_eq_iff)
    have "is_base (dom M) c"
      using c1 later cn unfolding is_base_def minM unfolding dom dom' by fastforce
    moreover have "del = []" and g: "g = Some ((c, n), (h, hn))"
      using Cons.prems(2) x False by auto
    moreover have "{s \<in> dom M. c < s} = dom M'" using cn later by (auto simp: dom dom')
    then have "g = gap_after M c"
      using g min' less_imp_neq [OF cn]
      by (simp add: gap_after_def M dom' not_sym) (simp add: M'_def)
    ultimately show ?thesis by auto
  qed
qed

text \<open>
  The scan sees the first 1000 pairs of the bucket: those with fewer than 1000 keys below them.
\<close>

definition prune_window :: "(bytes \<rightharpoonup> bytes) \<Rightarrow> (u64 \<rightharpoonup> u64)" where
  "prune_window m =
     base_map m |` {s. card {t \<in> dom (base_map m). t < s} < 1000}"

lemma below_nth:
  fixes xs :: "'a::linorder list"
  assumes "sorted_wrt (<) xs" and "i < length xs"
  shows "{y \<in> set xs. y < xs ! i} = set (take i xs)"
proof -
  have "xs ! j < xs ! i \<longleftrightarrow> j < i" if "j < length xs" for j
    using sorted_wrt_nth_less [OF assms(1)] assms(2) that
    by (metis linorder_neqE_nat not_less_iff_gr_or_eq)
  then have "{y \<in> set xs. y < xs ! i} = {xs ! j |j. j < i}"
    using assms(2) nth_mem [of _ xs] by (fastforce simp: in_set_conv_nth [of _ xs])
  then show ?thesis using assms(2) by (simp add: nth_image [symmetric] image_def Bex_def conj_commute)
qed

lemma set_take_sorted:
  fixes xs :: "'a::linorder list"
  assumes "sorted_wrt (<) xs"
  shows "set (take n xs) = {x \<in> set xs. card {y \<in> set xs. y < x} < n}"
proof -
  have d: "distinct xs" using assms by (simp add: strict_sorted_iff)
  have card: "card {y \<in> set xs. y < xs ! i} = i" if "i < length xs" for i
    using that d by (simp add: below_nth [OF assms that] distinct_card)
  have "x \<in> set (take n xs) \<longleftrightarrow> card {y \<in> set xs. y < x} < n" if x: "x \<in> set xs" for x
  proof -
    obtain i where i: "i < length xs" "x = xs ! i" using x by (auto simp: in_set_conv_nth)
    have "x \<in> set (take n xs) \<longleftrightarrow> i < n"
    proof
      assume "x \<in> set (take n xs)"
      then obtain j where "j < n" "j < length xs" "xs ! j = x"
        by (auto simp: in_set_conv_nth)
      then show "i < n" using i nth_eq_iff_index_eq [OF d, of j i] by simp
    next
      assume "i < n"
      then show "x \<in> set (take n xs)" using i nth_mem [of i "take n xs"] by simp
    qed
    then show ?thesis using card [OF i(1)] i(2) by simp
  qed
  then show ?thesis by (auto dest: in_set_takeD)
qed
definition decode_pair :: "bytes \<times> bytes \<Rightarrow> u64 \<times> u64" where
  "decode_pair kv = (seq_of_key (fst kv), height_of_value (snd kv))"

lemma decode_items:
  assumes ok: "base_ok m" and fin: "finite (dom m)"
  shows "map decode_pair (items m) =
    map (\<lambda>s. (s, the (base_map m s))) (sorted_list_of_set (dom (base_map m)))"
proof -
  have "items m = map (\<lambda>s. (be64 s, the (m (be64 s)))) (sorted_list_of_set (dom (base_map m)))"
    using dom_base_map [OF ok] finite_base_map [OF ok fin] by (rule items_be64)
  then show ?thesis
    using finite_base_map [OF ok fin] by (auto simp: decode_pair_def base_map_def)
qed

lemma map_of_tabulate:
  "map_of (map (\<lambda>s. (s, f s)) xs) = (\<lambda>s. if s \<in> set xs then Some (f s) else None)"
  by (induction xs) auto

lemma map_of_window:
  assumes ok: "base_ok m" and fin: "finite (dom m)"
  shows "map_of (map decode_pair (take 1000 (items m))) = prune_window m"
proof -
  let ?A = "dom (base_map m)" and ?xs = "sorted_list_of_set (dom (base_map m))"
  have fin': "finite ?A" by (rule finite_base_map [OF ok fin])
  have "map decode_pair (take 1000 (items m)) = map (\<lambda>s. (s, the (base_map m s))) (take 1000 ?xs)"
    by (simp only: decode_items [OF ok fin] take_map [symmetric])
  then have "map_of (map decode_pair (take 1000 (items m))) =
      (\<lambda>s. if s \<in> set (take 1000 ?xs) then Some (the (base_map m s)) else None)"
    by (simp only: map_of_tabulate)
  moreover have "set (take 1000 ?xs) = {s \<in> ?A. card {t \<in> ?A. t < s} < 1000}"
    using set_take_sorted [OF strict_sorted_list_of_set, of 1000 ?A] fin' by simp
  ultimately have "map_of (map decode_pair (take 1000 (items m))) =
      (\<lambda>s. if s \<in> ?A \<and> card {t \<in> ?A. t < s} < 1000 then Some (the (base_map m s)) else None)"
    by simp
  also have "\<dots> = prune_window m"
    unfolding prune_window_def restrict_map_def by (rule ext) (simp add: domIff)
  finally show ?thesis .
qed

lemma dom_prune_window: "dom (prune_window m) \<subseteq> dom (base_map m)"
  by (auto simp: prune_window_def restrict_map_def split: if_splits)

lemma prune_window_small:
  assumes "base_ok m" and "finite (dom m)" and "card (dom m) \<le> 1000"
  shows "prune_window m = base_map m"
proof -
  have fin: "finite (dom (base_map m))" by (rule finite_base_map [OF assms(1,2)])
  have "card (dom m) = card (dom (base_map m))"
    using dom_base_map [OF assms(1)] by (simp add: card_image inj_on_def)
  moreover have "card {t \<in> dom (base_map m). t < s} < card (dom (base_map m))"
    if "s \<in> dom (base_map m)" for s
    using that by (intro psubset_card_mono [OF fin]) blast
  ultimately have "card {t \<in> dom (base_map m). t < s} < 1000" if "s \<in> dom (base_map m)" for s
    using that assms(3) by fastforce
  then have "prune_window m s = base_map m s" for s
    by (cases "s \<in> dom (base_map m)") (simp_all add: prune_window_def restrict_map_def domIff)
  then show ?thesis by (rule ext)
qed

text \<open>The numbers a restart continues from.\<close>

definition start_of :: "(bytes \<rightharpoonup> bytes) \<Rightarrow> u64 \<times> u64" where
  "start_of m =
     (if dom m = {} then (0, 0)
      else (let s = Max (dom (base_map m))
            in (s + 1, if m (be64 s) = Some [] then 0 else the (base_map m s) + 1)))"

context bbolt_reliable
begin

lemma delete_keys_effect:
  "view d ns = Some m \<Longrightarrow> view (delete_keys B ns ks d) = (view d)(ns \<mapsto> m |` (- set ks))"
proof (induction ks arbitrary: d m)
  case Nil
  then show ?case by (simp add: restrict_map_def map_upd_triv)
next
  case (Cons k ks)
  obtain d' where d': "batchDelete B ns k d = (Inr (), d')"
    and v: "view d' = (view d)(ns \<mapsto> m(k := None))"
    using delete_succeeds [OF Cons.prems] by blast
  then have "view d' ns = Some (m(k := None))" by simp
  then have "view (delete_keys B ns ks d') = (view d')(ns \<mapsto> m(k := None) |` (- set ks))"
    by (rule Cons.IH)
  moreover have "m(k := None) |` (- set ks) = m |` (- set (k # ks))"
    by (auto simp: restrict_map_def fun_eq_iff)
  ultimately show ?case using d' v by (simp only: delete_keys.simps snd_conv fun_upd_upd)
qed

lemma prune_effect:
  assumes v: "view d ns = Some m" and ok: "base_ok m" and ne: "dom m \<noteq> {}"
  shows "\<exists>b d'. is_base (dom (prune_window m)) b \<and>
    PruneBaseSeqNum B ns d =
      (Inr (case gap_after (prune_window m) b of
              None \<Rightarrow> (((0, 0), (0, 0)), False) | Some a \<Rightarrow> (a, True)), d') \<and>
    view d' = (view d)(ns \<mapsto> m |` {k. be64 b \<le> k})"
proof -
  note fin = finite_view [OF v]
  let ?W = "prune_window m" and ?A = "dom (base_map m)"
  obtain k0 v0 kvs where items: "items m = (k0, v0) # kvs"
    using items_Nil_iff [OF fin] ne by (cases "items m") auto
  then have tk: "take 1000 (items m) = (k0, v0) # take 999 kvs" by simp
  have pair_ok: "length k = 8 \<and> (v = [] \<or> length v = 8)" if "(k, v) \<in> set (items m)" for k v
    using that set_items [OF fin] ok by (auto simp: base_ok_def)
  have later_ok: "\<forall>x \<in> set (take 999 kvs). length (fst x) = 8 \<and> (snd x = [] \<or> length (snd x) = 8)"
  proof
    fix x
    assume "x \<in> set (take 999 kvs)"
    then have "(fst x, snd x) \<in> set (items m)" using items by (auto dest: in_set_takeD)
    then show "length (fst x) = 8 \<and> (snd x = [] \<or> length (snd x) = 8)" by (rule pair_ok)
  qed
  have len0: "length k0 = 8" "v0 = [] \<or> length v0 = 8" using pair_ok [of k0 v0] items by auto
  let ?c = "seq_of_key k0" and ?h = "height_of_value v0" and ?xs = "map decode_pair (take 999 kvs)"
  have dec: "map decode_pair (take 1000 (items m)) = (?c, ?h) # ?xs"
    by (simp add: tk decode_pair_def)
  have W: "?W = map_of ((?c, ?h) # ?xs)" using map_of_window [OF ok fin] dec by simp
  have finA: "finite ?A" by (rule finite_base_map [OF ok fin])
  have "map fst (map decode_pair (items m)) = sorted_list_of_set ?A"
    using decode_items [OF ok fin] by (simp add: o_def)
  then have "map fst ((?c, ?h) # ?xs) = take 1000 (sorted_list_of_set ?A)"
    using dec by (metis take_map)
  then have sorted: "sorted_wrt (<) (?c # map fst ?xs)"
    using sorted_wrt_take [of "(<)" "sorted_list_of_set ?A" 1000] by simp
  have least: "?c \<le> s" if "s \<in> ?A" for s
  proof -
    have "hd (sorted_list_of_set ?A) = ?c"
      using \<open>map fst ((?c, ?h) # ?xs) = take 1000 (sorted_list_of_set ?A)\<close>
      by (cases "sorted_list_of_set ?A") auto
    moreover have "s \<in> set (sorted_list_of_set ?A)" using that finA by simp
    then have "hd (sorted_list_of_set ?A) \<le> s"
      using sorted_sorted_list_of_set [of ?A] by (cases "sorted_list_of_set ?A") auto
    ultimately show ?thesis by simp
  qed
  obtain del g where scan: "scan_seqs ?xs ?c ?h = (del, g)" by (cases "scan_seqs ?xs ?c ?h")
  obtain b where b: "is_base (dom ?W) b" "set del = {s. ?c \<le> s \<and> s < b}" "g = gap_after ?W b"
    using scan_seqs_spec [OF sorted scan W] by blast
  have "prune_scan (take 999 kvs) (be64 ?c) ?c ?h = Inr (map be64 del, g)"
    using scan pair_ok items
    by (intro prune_scan_decode)
      (simp_all add: decode_pair_def [abs_def] case_prod_beta' later_ok)
  then have run: "PruneBaseSeqNum B ns d =
      (Inr (case g of None \<Rightarrow> (((0, 0), (0, 0)), False) | Some a \<Rightarrow> (a, True)),
       delete_keys B ns (map be64 del) d)"
    using retrieveN_items [OF v, of 1000] len0 tk
    by (simp add: PruneBaseSeqNum_def be_uint64_key stored_height_value be64_seq_of_key)
  have "m |` (- set (map be64 del)) = m |` {k. be64 b \<le> k}"
  proof
    fix k
    show "(m |` (- set (map be64 del))) k = (m |` {k. be64 b \<le> k}) k"
    proof (cases "k \<in> dom m")
      case True
      then obtain s where s: "k = be64 s" "s \<in> ?A" using dom_base_map [OF ok] by auto
      have "k \<in> set (map be64 del) \<longleftrightarrow> \<not> be64 b \<le> k"
        using least [OF s(2)] unfolding s(1) by (simp add: b(2) image_iff) (metis not_less)
      then show ?thesis by (simp add: restrict_map_def)
    qed (simp add: restrict_map_def domIff)
  qed
  then have "view (delete_keys B ns (map be64 del) d) = (view d)(ns \<mapsto> m |` {k. be64 b \<le> k})"
    using delete_keys_effect [OF v] by simp
  with run b(1,3) show ?thesis by blast
qed


lemma start_view:
  assumes v: "view d ns = Some m" and ok: "base_ok m"
  shows "GetStartingSeqNumAndHeight B ns d = Inr (start_of m)"
proof (cases "dom m = {}")
  case True
  then show ?thesis
    by (simp add: GetStartingSeqNumAndHeight_def getLastKeyValue_view [OF v] greatest_pair_def
        start_of_def next_of_def)
next
  case False
  define s where "s = Max (dom (base_map m))"
  have ne: "dom (base_map m) \<noteq> {}" using False dom_base_map [OF ok] by simp
  have "s \<in> dom (base_map m)"
    unfolding s_def using finite_base_map [OF ok finite_view [OF v]] ne by (rule Max_in)
  then obtain w where w: "m (be64 s) = Some w" by (auto simp: base_map_def)
  then have len: "w = [] \<or> length w = 8" using ok by (auto simp: base_ok_def)
  have "greatest_pair m = Some (be64 s, w)"
    using greatest_pair_be64 [OF dom_base_map [OF ok] finite_base_map [OF ok finite_view [OF v]] ne] w
    by (simp flip: s_def)
  then have "GetStartingSeqNumAndHeight B ns d =
      (case next_of w of Inl e \<Rightarrow> Inl e | Inr height \<Rightarrow> Inr (s + 1, height))"
    by (simp add: GetStartingSeqNumAndHeight_def getLastKeyValue_view [OF v] next_of_def)
  moreover have "next_of w = Inr (if w = [] then 0 else the (base_map m s) + 1)"
    using len w by (auto simp: next_of_def be_uint64_def base_map_def height_of_value_def)
  ultimately show ?thesis using False w by (simp add: start_of_def flip: s_def)
qed

lemma StoreBaseSeqNum_effect:
  assumes v: "view d ns = Some m" and ok: "base_ok m"
  shows "\<exists>d' m'. StoreBaseSeqNum B ns s h d = (Inr (), d') \<and> view d' = (view d)(ns \<mapsto> m') \<and>
    base_ok m' \<and> base_map m' = (base_map m)(s \<mapsto> h)"
proof -
  define w where "w = (if h \<noteq> 0 then be64 h else [])"
  have len: "w = [] \<or> length w = 8" and hw: "height_of_value w = h" by (auto simp: w_def)
  then have "length w \<le> 2147483646" by auto
  then obtain d' where "put B ns (be64 s) w d = (Inr (), d')"
      "view d' = (view d)(ns \<mapsto> m(be64 s \<mapsto> w))"
    using put_succeeds [OF v, of "be64 s" w] by (auto simp flip: length_greater_0_conv)
  moreover have "base_ok (m(be64 s \<mapsto> w))" using base_ok_upd [OF ok len] .
  moreover have "base_map (m(be64 s \<mapsto> w)) = (base_map m)(s \<mapsto> h)" by (simp add: base_map_upd hw)
  moreover have "StoreBaseSeqNum B ns s h d = put B ns (be64 s) w d"
    by (simp add: StoreBaseSeqNum_def w_def)
  ultimately show ?thesis by metis
qed

end

section \<open>Restricting a base-sequence bucket\<close>

lemma base_map_restrict: "base_map (m |` {k. be64 b \<le> k}) = base_map m |` {s. b \<le> s}"
  by (simp add: base_map_def fun_eq_iff restrict_map_def)

lemma Max_restrict:
  fixes A :: "u64 set"
  assumes "b \<in> A"
  shows "Max {s \<in> A. b \<le> s} = Max A"
proof (rule Max_eqI)
  have "Max A \<in> A" using assms by (intro Max_in) auto
  moreover have "b \<le> Max A" using assms by simp
  ultimately show "Max A \<in> {s \<in> A. b \<le> s}" by simp
qed auto

lemma start_of_restrict:
  assumes "base_ok m" and "b \<in> dom (base_map m)"
  shows "start_of (m |` {k. be64 b \<le> k}) = start_of m"
proof -
  have "dom (base_map m |` {s. b \<le> s}) = {s \<in> dom (base_map m). b \<le> s}"
    by (auto simp: restrict_map_def split: if_splits)
  then have top: "Max (dom (base_map m |` {s. b \<le> s})) = Max (dom (base_map m))"
    using Max_restrict [OF assms(2)] by simp
  have "b \<le> Max (dom (base_map m))" using assms(2) by simp
  moreover have "be64 b \<in> dom m" using assms dom_base_map by blast
  moreover from this have "dom (m |` {k. be64 b \<le> k}) \<noteq> {}" by auto
  moreover from this have "dom m \<noteq> {}" by auto
  ultimately show ?thesis
    unfolding start_of_def base_map_restrict top Let_def by (simp only: if_False) simp
qed

lemma is_base_Min: "is_base K b \<Longrightarrow> Min {s \<in> K. b \<le> s} = b"
  by (rule Min_eqI) (auto simp: is_base_def)

lemma is_base_restrict:
  assumes "is_base (dom M) b"
  shows "is_base (dom (M |` {s. b \<le> s})) c \<longleftrightarrow> c = b"
    and "gap_after (M |` {s. b \<le> s}) b = gap_after M b"
proof -
  have d: "dom (M |` {s. b \<le> s}) = {s \<in> dom M. b \<le> s}"
    by (auto simp: restrict_map_def split: if_splits)
  have b: "b \<in> dom M" "\<And>s. s \<in> dom M \<Longrightarrow> b < s \<Longrightarrow> b + 1 < s" using assms by (auto simp: is_base_def)
  have mn: "Min {s \<in> dom M. b \<le> s} = b" by (rule is_base_Min [OF assms])
  have "c = b" if "is_base {s \<in> dom M. b \<le> s} c"
  proof (rule ccontr)
    assume "c \<noteq> b"
    have c: "b \<le> c" "c \<in> dom M" "\<And>s. b \<le> s \<Longrightarrow> s \<le> c \<Longrightarrow> s \<in> dom M"
      using that unfolding is_base_def mn by auto
    with \<open>c \<noteq> b\<close> have "b < c" by simp
    then have "b + 1 \<le> c" "b \<le> b + 1" "b < b + 1"
      using u64_Suc_no_wrap [of b c] by (auto simp: word_le_nat_alt word_less_nat_alt)
    then show False using c(3) [of "b + 1"] b(2) [of "b + 1"] by simp
  qed
  moreover have "is_base {s \<in> dom M. b \<le> s} b"
    using b unfolding is_base_def mn by auto
  ultimately show "is_base (dom (M |` {s. b \<le> s})) c \<longleftrightarrow> c = b" unfolding d by blast
  have "{s \<in> {s \<in> dom M. b \<le> s}. b < s} = {s \<in> dom M. b < s}" by auto
  moreover have "(M |` {s. b \<le> s}) (Min {s \<in> dom M. b < s}) = M (Min {s \<in> dom M. b < s})"
    if "{s \<in> dom M. b < s} \<noteq> {}"
  proof -
    have "Min {s \<in> dom M. b < s} \<in> {s \<in> dom M. b < s}" using that by (intro Min_in) auto
    then have "b \<le> Min {s \<in> dom M. b < s}" by (simp add: less_imp_le)
    then show ?thesis by (simp add: restrict_map_def)
  qed
  ultimately show "gap_after (M |` {s. b \<le> s}) b = gap_after M b"
    unfolding gap_after_def Let_def d by simp
qed

end
