(* ===== verification/Metrics.thy ===== *)
theory Metrics
  imports Packets
begin

text \<open>
  \<open>chainService/metrics/metrics.go\<close>: the metric vectors of the service, the calls that change
  them, and the trace of effects the other components leave. A metric vector of the prometheus
  library is its name, the names of its labels and a map from label values to a number. The
  pusher of \<open>InitMetrics\<close> and \<open>PushMetrics\<close> only talks to a remote gateway and is not modelled.
\<close>

section \<open>Metric vectors\<close>

datatype vec =
    InPacketsCounter
  | DeliveredPacketsCounter
  | HashedAndSignedPacketCounter
  | AttestorService
  | DBService
  | SigningService
  | VersionInfo
  | StartSequenceNo
  | ProcessedSequenceNo
  | AleoRPCSignal
  | EhtereumRPCSignal

record vec_desc =
  vd_name :: string
  vd_labels :: "string list"

record prometheus_metrics =
  pm_registry :: "vec list"
  pm_desc :: "vec \<Rightarrow> vec_desc"
  pm_value :: "vec \<Rightarrow> (string list \<rightharpoonup> int)"

text \<open>
  \<open>WithLabelValues\<close> panics when the number of values is not the number of labels. The values
  the code sets are unsigned integers converted to \<open>float64\<close>, kept here as integers.
\<close>

definition bad_cardinality :: gerror where
  "bad_cardinality = Panic ''inconsistent label cardinality''"

definition with_label_values :: "prometheus_metrics \<Rightarrow> vec \<Rightarrow> string list \<Rightarrow> (int \<Rightarrow> int) \<Rightarrow> prometheus_metrics res" where
  "with_label_values m v vals f =
     (if length vals \<noteq> length (vd_labels (pm_desc m v)) then Inl bad_cardinality
      else (let old = (case pm_value m v vals of None \<Rightarrow> 0 | Some x \<Rightarrow> x)
            in Inr (m\<lparr>pm_value := (pm_value m)(v := (pm_value m v)(vals \<mapsto> f old))\<rparr>)))"

definition vec_add :: "prometheus_metrics \<Rightarrow> vec \<Rightarrow> string list \<Rightarrow> int \<Rightarrow> prometheus_metrics res" where
  "vec_add m v vals x = with_label_values m v vals (\<lambda>old. old + x)"

definition vec_set :: "prometheus_metrics \<Rightarrow> vec \<Rightarrow> string list \<Rightarrow> int \<Rightarrow> prometheus_metrics res" where
  "vec_set m v vals x = with_label_values m v vals (\<lambda>old. x)"

section \<open>The calls\<close>

definition StartVersion :: "string \<Rightarrow> string \<Rightarrow> prometheus_metrics \<Rightarrow> prometheus_metrics res" where
  "StartVersion attestorName version m = vec_set m VersionInfo [attestorName, version] 1"

definition AddInPackets :: "string \<Rightarrow> string \<Rightarrow> string \<Rightarrow> prometheus_metrics \<Rightarrow> prometheus_metrics res" where
  "AddInPackets attestorName chain destinationChain m =
     vec_add m InPacketsCounter [attestorName, chain, destinationChain] 1"

definition DeliveredPackets :: "string \<Rightarrow> string \<Rightarrow> string \<Rightarrow> prometheus_metrics \<Rightarrow> prometheus_metrics res" where
  "DeliveredPackets attestorName sourceChain destinationChain m =
     vec_add m DeliveredPacketsCounter [attestorName, sourceChain, destinationChain] 1"

definition HashedAndSignedPacket :: "string \<Rightarrow> string \<Rightarrow> string \<Rightarrow> prometheus_metrics \<Rightarrow> prometheus_metrics res" where
  "HashedAndSignedPacket attestorName sourceChain destinationChain m =
     vec_add m HashedAndSignedPacketCounter [attestorName, sourceChain, destinationChain] 1"

definition SetAttestorHealth :: "string \<Rightarrow> string \<Rightarrow> int \<Rightarrow> prometheus_metrics \<Rightarrow> prometheus_metrics res" where
  "SetAttestorHealth attestorName chain x m = vec_set m AttestorService [attestorName, chain] x"

definition SetDBServiceHeatlh :: "string \<Rightarrow> int \<Rightarrow> prometheus_metrics \<Rightarrow> prometheus_metrics res" where
  "SetDBServiceHeatlh attestorName x m = vec_set m DBService [attestorName] x"

definition SetSigningServiceHealth :: "string \<Rightarrow> int \<Rightarrow> prometheus_metrics \<Rightarrow> prometheus_metrics res" where
  "SetSigningServiceHealth attestorName x m = vec_set m SigningService [attestorName] x"

definition StoredSequenceNo :: "string \<Rightarrow> string \<Rightarrow> string \<Rightarrow> int \<Rightarrow> prometheus_metrics \<Rightarrow> prometheus_metrics res" where
  "StoredSequenceNo attestorName sourceChain destinationChain sequenceNo m =
     vec_set m StartSequenceNo [attestorName, sourceChain, destinationChain] sequenceNo"

definition UpdateProcessedSequence :: "string \<Rightarrow> string \<Rightarrow> string \<Rightarrow> int \<Rightarrow> prometheus_metrics \<Rightarrow> prometheus_metrics res" where
  "UpdateProcessedSequence attestorName sourceChain destinationChain sequenceNo m =
     vec_set m ProcessedSequenceNo [attestorName, sourceChain, destinationChain] sequenceNo"

definition UpdateAleoRPCStatus :: "string \<Rightarrow> string \<Rightarrow> int \<Rightarrow> prometheus_metrics \<Rightarrow> prometheus_metrics res" where
  "UpdateAleoRPCStatus attestorName sourceChain x m = vec_set m AleoRPCSignal [attestorName, sourceChain] x"

definition UpdateEthRPCStatus :: "string \<Rightarrow> string \<Rightarrow> int \<Rightarrow> prometheus_metrics \<Rightarrow> prometheus_metrics res" where
  "UpdateEthRPCStatus attestorName sourceChain x m = vec_set m EhtereumRPCSignal [attestorName, sourceChain] x"

section \<open>NewPrometheusMetrics\<close>

definition packetLables :: "string list" where
  "packetLables = [''attestor_name'', ''source_chain'', ''destination_chain'']"

definition healthLabels :: "string list" where
  "healthLabels = [''attestor_name'']"

fun vec_description :: "vec \<Rightarrow> vec_desc" where
  "vec_description InPacketsCounter = \<lparr>vd_name = ''packet_received'', vd_labels = packetLables\<rparr>"
| "vec_description DeliveredPacketsCounter = \<lparr>vd_name = ''packet_delivered'', vd_labels = packetLables\<rparr>"
| "vec_description HashedAndSignedPacketCounter =
     \<lparr>vd_name = ''packet_hashed_and_signed'', vd_labels = packetLables\<rparr>"
| "vec_description AttestorService =
     \<lparr>vd_name = ''chainservice_health'', vd_labels = [''attestor_name'', ''chain_id'']\<rparr>"
| "vec_description DBService = \<lparr>vd_name = ''db_service_health'', vd_labels = healthLabels\<rparr>"
| "vec_description SigningService = \<lparr>vd_name = ''signing_service_health'', vd_labels = healthLabels\<rparr>"
| "vec_description VersionInfo =
     \<lparr>vd_name = ''attestor_version_info'', vd_labels = [''attestor_name'', ''version'']\<rparr>"
| "vec_description ProcessedSequenceNo = \<lparr>vd_name = ''processed_sequence_no'', vd_labels = packetLables\<rparr>"
| "vec_description StartSequenceNo = \<lparr>vd_name = ''start_sequence_no'', vd_labels = packetLables\<rparr>"
| "vec_description AleoRPCSignal =
     \<lparr>vd_name = ''aleo_rpc_status'', vd_labels = [''attestor_name'', ''chain_id'']\<rparr>"
| "vec_description EhtereumRPCSignal =
     \<lparr>vd_name = ''eth_rpc_status'', vd_labels = [''attestor_name'', ''chain_id'']\<rparr>"

text \<open>\<open>MustRegister\<close> panics when a metric of the same name is registered already.\<close>

fun must_register :: "(vec \<Rightarrow> vec_desc) \<Rightarrow> vec list \<Rightarrow> vec list \<Rightarrow> vec list res" where
  "must_register ds [] reg = Inr reg"
| "must_register ds (v # vs) reg =
     (if vd_name (ds v) \<in> set (map (\<lambda>u. vd_name (ds u)) reg)
      then Inl (Panic ''duplicate metrics collector registration attempted'')
      else must_register ds vs (reg @ [v]))"

definition NewPrometheusMetrics :: "prometheus_metrics res" where
  "NewPrometheusMetrics =
     (case must_register vec_description
             [InPacketsCounter, DeliveredPacketsCounter, AttestorService, DBService, SigningService,
              HashedAndSignedPacketCounter, VersionInfo, StartSequenceNo, ProcessedSequenceNo,
              AleoRPCSignal, EhtereumRPCSignal] [] of
        Inl e \<Rightarrow> Inl e
      | Inr reg \<Rightarrow> Inr \<lparr>pm_registry = reg, pm_desc = vec_description, pm_value = (\<lambda>v. Map.empty)\<rparr>)"

section \<open>Calls as values\<close>

text \<open>
  The components leave their calls in a trace. A health value that comes from the clock carries
  that reading.
\<close>

datatype metric_call =
    MStartVersion string string
  | MAddInPackets string string string
  | MDeliveredPackets string string string
  | MHashedAndSignedPacket string string string
  | MSetAttestorHealth string string int
  | MSetDBServiceHealth string int
  | MSetSigningServiceHealth string int
  | MStoredSequenceNo string string string int
  | MUpdateProcessedSequence string string string int
  | MUpdateAleoRPCStatus string string int
  | MUpdateEthRPCStatus string string int

fun run_metric :: "metric_call \<Rightarrow> prometheus_metrics \<Rightarrow> prometheus_metrics res" where
  "run_metric (MStartVersion a v) m = StartVersion a v m"
| "run_metric (MAddInPackets a s d) m = AddInPackets a s d m"
| "run_metric (MDeliveredPackets a s d) m = DeliveredPackets a s d m"
| "run_metric (MHashedAndSignedPacket a s d) m = HashedAndSignedPacket a s d m"
| "run_metric (MSetAttestorHealth a c x) m = SetAttestorHealth a c x m"
| "run_metric (MSetDBServiceHealth a x) m = SetDBServiceHeatlh a x m"
| "run_metric (MSetSigningServiceHealth a x) m = SetSigningServiceHealth a x m"
| "run_metric (MStoredSequenceNo a s d n) m = StoredSequenceNo a s d n m"
| "run_metric (MUpdateProcessedSequence a s d n) m = UpdateProcessedSequence a s d n m"
| "run_metric (MUpdateAleoRPCStatus a s x) m = UpdateAleoRPCStatus a s x m"
| "run_metric (MUpdateEthRPCStatus a s x) m = UpdateEthRPCStatus a s x m"

fun run_metrics :: "metric_call list \<Rightarrow> prometheus_metrics \<Rightarrow> prometheus_metrics res" where
  "run_metrics [] m = Inr m"
| "run_metrics (c # cs) m = (case run_metric c m of Inl e \<Rightarrow> Inl e | Inr m' \<Rightarrow> run_metrics cs m')"

text \<open>
  The effects of a component other than its changes of the store: metric calls, packets put on
  the channel of incoming packets, on the retry and the completion channel of a chain, missed
  packets put on their channel (the pointer may be nil), sleeping (in nanoseconds), and a send on a
  channel that does not exist, which never returns.
\<close>

datatype effect =
    EMetric metric_call
  | EFeed packet
  | ERetry string packet
  | ECompleted string packet
  | EMissed "missed_packet option"
  | EBlocked
  | ESleep int

definition fed :: "effect list \<Rightarrow> packet list" where
  "fed es = concat (map (\<lambda>e. case e of EFeed p \<Rightarrow> [p] | _ \<Rightarrow> []) es)"

lemma fed_simps [simp]:
  "fed [] = []" "fed (EFeed p # es) = p # fed es" "fed (EMetric c # es) = fed es"
  "fed (ERetry s p # es) = fed es" "fed (ECompleted s p # es) = fed es" "fed (EMissed q # es) = fed es"
  "fed (ESleep d # es) = fed es" "fed (EBlocked # es) = fed es" "fed (es @ fs) = fed es @ fed fs"
  by (simp_all add: fed_def)

section \<open>Properties\<close>

lemma with_label_values_ok:
  "length vals = length (vd_labels (pm_desc m v)) \<Longrightarrow>
   with_label_values m v vals f =
     Inr (m\<lparr>pm_value := (pm_value m)(v := (pm_value m v)(vals \<mapsto>
       f (case pm_value m v vals of None \<Rightarrow> 0 | Some x \<Rightarrow> x)))\<rparr>)"
  by (simp add: with_label_values_def)

lemma new_metrics:
  "NewPrometheusMetrics = Inr \<lparr>pm_registry =
     [InPacketsCounter, DeliveredPacketsCounter, AttestorService, DBService, SigningService,
      HashedAndSignedPacketCounter, VersionInfo, StartSequenceNo, ProcessedSequenceNo,
      AleoRPCSignal, EhtereumRPCSignal], pm_desc = vec_description, pm_value = (\<lambda>v. Map.empty)\<rparr>"
  by (simp add: NewPrometheusMetrics_def)

lemmas metric_defs = StartVersion_def AddInPackets_def DeliveredPackets_def HashedAndSignedPacket_def
  SetAttestorHealth_def SetDBServiceHeatlh_def SetSigningServiceHealth_def StoredSequenceNo_def
  UpdateProcessedSequence_def UpdateAleoRPCStatus_def UpdateEthRPCStatus_def vec_add_def vec_set_def

lemma run_metric_ok:
  assumes "pm_desc m = vec_description"
  shows "\<exists>m'. run_metric c m = Inr m' \<and> pm_desc m' = vec_description \<and> pm_registry m' = pm_registry m"
  using assms
  by (cases c) (simp_all add: metric_defs with_label_values_ok packetLables_def healthLabels_def)

lemma run_metrics_ok:
  "pm_desc m = vec_description \<Longrightarrow>
   \<exists>m'. run_metrics cs m = Inr m' \<and> pm_desc m' = vec_description \<and> pm_registry m' = pm_registry m"
proof (induction cs arbitrary: m)
  case (Cons c cs)
  then show ?case using run_metric_ok [OF Cons.prems, of c] by fastforce
qed simp

fun count_delivered :: "string list \<Rightarrow> metric_call list \<Rightarrow> nat" where
  "count_delivered l [] = 0"
| "count_delivered l (c # cs) =
     (if (case c of MDeliveredPackets a s d \<Rightarrow> [a, s, d] = l | _ \<Rightarrow> False) then 1 else 0) + count_delivered l cs"

definition delivered_count :: "prometheus_metrics \<Rightarrow> string list \<Rightarrow> int" where
  "delivered_count m l = (case pm_value m DeliveredPacketsCounter l of None \<Rightarrow> 0 | Some x \<Rightarrow> x)"

lemma run_metric_delivered:
  assumes "pm_desc m = vec_description" and "run_metric c m = Inr m'"
  shows "delivered_count m' l = delivered_count m l + int (count_delivered l [c])"
  using assms
  by (cases c)
    (auto simp: metric_defs with_label_values_ok packetLables_def healthLabels_def delivered_count_def)

lemma run_metrics_delivered:
  "pm_desc m = vec_description \<Longrightarrow> run_metrics cs m = Inr m' \<Longrightarrow>
   delivered_count m' l = delivered_count m l + int (count_delivered l cs)"
proof (induction cs arbitrary: m)
  case (Cons c cs)
  obtain m1 where m1: "run_metric c m = Inr m1" "pm_desc m1 = vec_description"
    using run_metric_ok [OF Cons.prems(1), of c] by blast
  then have "delivered_count m' l = delivered_count m1 l + int (count_delivered l cs)"
    using Cons by simp
  then show ?case using run_metric_delivered [OF Cons.prems(1) m1(1), of l] by simp
qed simp

text \<open>
  The metrics cannot bring the service down, and they count. The constructor registers the
  eleven vectors without a clash of names, every sequence of calls passes as many label values as
  its vector has labels, so no call panics, and the counter of delivered packets of every label
  combination is the number of calls made with it.
\<close>

theorem metrics_never_panic:
  "\<exists>m m'. NewPrometheusMetrics = Inr m \<and> length (pm_registry m) = 11 \<and> run_metrics cs m = Inr m' \<and>
     delivered_count m' l = int (count_delivered l cs)"
proof -
  obtain m where m: "NewPrometheusMetrics = Inr m" "pm_desc m = vec_description"
    "length (pm_registry m) = 11" "delivered_count m l = 0"
    by (simp add: new_metrics delivered_count_def)
  then show ?thesis
    using run_metrics_ok [OF m(2), of cs] run_metrics_delivered [OF m(2), of cs _ l] by fastforce
qed

end
