(* ===== verification/EthClient.thy ===== *)
theory EthClient
  imports Store Metrics Config "HOL-Library.Signed_Division"
begin

text \<open>
  \<open>chainService/chain/ethereum/client.go\<close>: the client of an Ethereum chain. It polls the logs of
  the bridge contract, feeds the packets it finds to the relay, re-feeds stored and missing ones,
  and records what became of them. The node behind the RPC connection, the generated decoder of
  the contract's events and the address functions of go-ethereum are the argument \<open>N\<close>; every
  reading of the current block number is an argument of the step that makes it.
\<close>

section \<open>Events of the contract\<close>

record in_network_address =
  ia_ChainId :: int
  ia_Addr :: bytes

record out_network_address =
  oa_ChainId :: int
  oa_Addr :: string

record out_token_message =
  om_SenderAddress :: bytes
  om_DestTokenAddress :: string
  om_Amount :: int
  om_ReceiverAddress :: string

record out_packet =
  op_Version :: int
  op_Sequence :: int
  op_SourceTokenService :: in_network_address
  op_DestTokenService :: out_network_address
  op_Message :: out_token_message
  op_Height :: int

text \<open>
  The struct \<open>ethereum.FilterQuery\<close> of the library, with block numbers as big integers, and the node
  as it answers at one moment, with logs of the abstract type \<open>'l\<close>.
\<close>

record filter_query =
  fq_FromBlock :: int
  fq_ToBlock :: int
  fq_Addresses :: "bytes list"
  fq_Topics :: "bytes list list"

record 'l eth_node =
  en_FilterLogs :: "filter_query \<Rightarrow> 'l list res"
  en_ParsePacketDispatched :: "'l \<Rightarrow> out_packet res"
  en_Hex :: "bytes \<Rightarrow> string"

section \<open>The client\<close>

definition heightDifference :: u64 where "heightDifference = 100"
definition eth_defaultValidityWaitDur :: duration where "eth_defaultValidityWaitDur = 24 * hour"
definition eth_avgBlockGenDur :: duration where "eth_avgBlockGenDur = 12 * second"
definition eth_defaultFeedPktWaitDur :: duration where
  "eth_defaultFeedPktWaitDur = 100 * eth_avgBlockGenDur * 2 div 3"
definition eth_defaultRetryPacketWaitDur :: duration where "eth_defaultRetryPacketWaitDur = 12 * hour"
definition eth_defaultPruneBaseSeqWaitDur :: duration where "eth_defaultPruneBaseSeqWaitDur = 6 * hour"
definition retrievePacketNum :: nat where "retrievePacketNum = 10"
definition UP :: int where "UP = 1"
definition DOWN :: int where "DOWN = 0"

definition eth_baseSeqNumNameSpacePrefix :: string where
  "eth_baseSeqNumNameSpacePrefix = ''ethereum_bsns''"
definition eth_retryPacketNamespacePrefix :: string where
  "eth_retryPacketNamespacePrefix = ''ethereum_rpns''"

text \<open>The keys of the map \<open>destChainsIDMap\<close> are a list; the package variables are \<open>namespaces\<close>.\<close>

record eth_client =
  ec_name :: string
  ec_address :: bytes
  ec_destChainsIDMap :: "string list"
  ec_nextBlockHeight :: u64
  ec_chainID :: bigint
  ec_filterTopic :: bytes
  ec_waitHeight :: u64
  ec_feedPktWaitDur :: duration
  ec_retryPacketWaitDur :: duration
  ec_pruneBaseSeqNumberWaitDur :: duration

record namespaces =
  nsp_base :: "string list"
  nsp_retry :: "string list"

text \<open>
  The wrappers of the connection and of the contract. A height goes to the node as an \<open>int64\<close>, so
  one from \<open>2 ^ 63\<close> on becomes a negative block number.
\<close>

definition NewEthClient :: "(string \<Rightarrow> unit res) \<Rightarrow> string \<Rightarrow> unit res" where
  "NewEthClient rpc_Dial rpcEndPoint =
     (case rpc_Dial rpcEndPoint of Inl e \<Rightarrow> Inl (Panic (error_text e)) | Inr u \<Rightarrow> Inr ())"

definition GetCurrentBlock :: "u64 res \<Rightarrow> u64 res" where
  "GetCurrentBlock blockNumber = (case blockNumber of Inl e \<Rightarrow> Inl e | Inr currentBlock \<Rightarrow> Inr currentBlock)"

definition eth_FilterLogs :: "'l eth_node \<Rightarrow> u64 \<Rightarrow> u64 \<Rightarrow> bytes \<Rightarrow> bytes \<Rightarrow> 'l list res" where
  "eth_FilterLogs N fromHeight toHeight contractAddress topics =
     (case en_FilterLogs N \<lparr>fq_FromBlock = sint fromHeight, fq_ToBlock = sint toHeight,
              fq_Addresses = [contractAddress], fq_Topics = [[topics]]\<rparr> of
        Inl e \<Rightarrow> Inl e
      | Inr logs \<Rightarrow> Inr logs)"

definition ParsePacketDispatched :: "'l eth_node \<Rightarrow> 'l \<Rightarrow> out_packet res" where
  "ParsePacketDispatched N l =
     (case en_ParsePacketDispatched N l of Inl e \<Rightarrow> Inl e | Inr packetDispatched \<Rightarrow> Inr packetDispatched)"

lemma wrappers [simp]: "GetCurrentBlock r = r" "ParsePacketDispatched N l = en_ParsePacketDispatched N l"
  by (simp_all add: GetCurrentBlock_def ParsePacketDispatched_def split: sum.split)

definition eth_blockHeightPriorWaitDur :: "string \<Rightarrow> eth_client \<Rightarrow> u64 res \<Rightarrow> u64 res \<times> effect list" where
  "eth_blockHeightPriorWaitDur an cl curHeight =
     (case GetCurrentBlock curHeight of
        Inl e \<Rightarrow> (Inl e, [EMetric (MUpdateEthRPCStatus an (bigint_str (ec_chainID cl)) DOWN)])
      | Inr h \<Rightarrow> (Inr (h - ec_waitHeight cl), [EMetric (MUpdateEthRPCStatus an (bigint_str (ec_chainID cl)) UP)]))"

definition commonPacket :: "'l eth_node \<Rightarrow> out_packet \<Rightarrow> packet" where
  "commonPacket N p =
     \<lparr>p_version = ucast (big_uint64 (op_Version p)),
      p_source = \<lparr>na_chain_id = Some (ia_ChainId (op_SourceTokenService p)),
                  na_address = en_Hex N (ia_Addr (op_SourceTokenService p))\<rparr>,
      p_destination = \<lparr>na_chain_id = Some (oa_ChainId (op_DestTokenService p)),
                       na_address = oa_Addr (op_DestTokenService p)\<rparr>,
      p_sequence = big_uint64 (op_Sequence p),
      p_message = \<lparr>m_dest_token_address = om_DestTokenAddress (op_Message p),
                   m_sender_address = en_Hex N (om_SenderAddress (op_Message p)),
                   m_amount = Some (om_Amount (op_Message p)),
                   m_receiver_address = om_ReceiverAddress (op_Message p)\<rparr>,
      p_height = big_uint64 (op_Height p), p_is_missed = False\<rparr>"

definition filterPacketLogs :: "'l eth_node \<Rightarrow> eth_client \<Rightarrow> u64 \<Rightarrow> u64 \<Rightarrow> packet list res" where
  "filterPacketLogs N cl fromHeight toHeight =
     (case eth_FilterLogs N fromHeight toHeight (ec_address cl) (ec_filterTopic cl) of
        Inl e \<Rightarrow> Inl e
      | Inr logs \<Rightarrow>
          seq_res (map (\<lambda>l. case ParsePacketDispatched N l of
                              Inl e \<Rightarrow> Inl e | Inr p \<Rightarrow> Inr (commonPacket N p)) logs))"

section \<open>FeedPacket\<close>

text \<open>The start height: the least of the heights the store continues from, or the configured one.\<close>

fun base_height :: "'d bolt \<Rightarrow> string \<Rightarrow> eth_client \<Rightarrow> 'd \<Rightarrow> string list \<Rightarrow> u64 \<Rightarrow> effect list \<Rightarrow>
    (u64 \<times> effect list) res" where
  "base_height B an cl d [] baseHeight es = Inr (baseHeight, es)"
| "base_height B an cl d (dest # dests) baseHeight es =
     (case GetStartingSeqNumAndHeight B (eth_baseSeqNumNameSpacePrefix @ dest) d of
        Inl e \<Rightarrow> Inl e
      | Inr (startSeqNum, startHeight) \<Rightarrow>
          base_height B an cl d dests (if startHeight < baseHeight then startHeight else baseHeight)
            (es @ [EMetric (MStoredSequenceNo an (bigint_str (ec_chainID cl)) dest (uint startSeqNum))]))"

definition feed_start :: "'d bolt \<Rightarrow> string \<Rightarrow> eth_client \<Rightarrow> 'd \<Rightarrow> (eth_client \<times> effect list) res" where
  "feed_start B an cl d =
     (case base_height B an cl d (ec_destChainsIDMap cl) (- 1) [] of
        Inl e \<Rightarrow> Inl e
      | Inr (baseHeight, es) \<Rightarrow>
          Inr (if ec_nextBlockHeight cl < baseHeight then cl\<lparr>ec_nextBlockHeight := baseHeight\<rparr> else cl, es))"

definition feed_packets :: "string \<Rightarrow> eth_client \<Rightarrow> packet list \<Rightarrow> effect list" where
  "feed_packets an cl pkts =
     concat (map (\<lambda>pkt.
       let dest = bigint_str (na_chain_id (p_destination pkt)) in
       if dest \<in> set (ec_destChainsIDMap cl)
       then [EMetric (MAddInPackets an (bigint_str (ec_chainID cl)) dest), EFeed pkt] else []) pkts)"

text \<open>
  The loop over the ranges of blocks. The counters are \<open>uint64\<close> and wrap around, so the loop need
  not end for a matured height near the end of the type; its value is then \<open>None\<close>. The boolean
  tells whether the loop ran to its end (true) or left through \<open>break L1\<close> (false).
\<close>

partial_function (option) feed_ranges ::
    "'l eth_node \<Rightarrow> string \<Rightarrow> u64 \<Rightarrow> u64 \<Rightarrow> eth_client \<Rightarrow> effect list \<Rightarrow> (eth_client \<times> effect list \<times> bool) option" where
  "feed_ranges N an maturedHeight startHeight cl es =
     (if startHeight \<le> maturedHeight then
        (let e = startHeight + heightDifference;
             endHeight = (if maturedHeight < e then maturedHeight else e)
         in case filterPacketLogs N cl startHeight endHeight of
              Inl err \<Rightarrow> Some (cl, es, False)
            | Inr pkts \<Rightarrow>
                feed_ranges N an maturedHeight (startHeight + (heightDifference + 1))
                  (cl\<lparr>ec_nextBlockHeight := endHeight + 1\<rparr>) (es @ feed_packets an cl pkts))
      else Some (cl, es, True))"

text \<open>
  One tick of the feed: the loop \<open>L1\<close> over the successive readings of the block number, each with
  the node as it answers then. The readings not used remain.
\<close>

fun feed_tick :: "string \<Rightarrow> (u64 res \<times> 'l eth_node) list \<Rightarrow> eth_client \<Rightarrow> effect list \<Rightarrow>
    (eth_client \<times> effect list \<times> (u64 res \<times> 'l eth_node) list) option" where
  "feed_tick an [] cl es = Some (cl, es, [])"
| "feed_tick an ((reading, N) # rest) cl es =
     (case eth_blockHeightPriorWaitDur an cl reading of
        (Inl e, es1) \<Rightarrow> Some (cl, es @ es1, rest)
      | (Inr maturedHeight, es1) \<Rightarrow>
          if maturedHeight < ec_nextBlockHeight cl then
            (let diff = ec_nextBlockHeight cl - maturedHeight
             in Some (cl, es @ es1 @ [ESleep (sint (diff * of_int eth_avgBlockGenDur :: i64))], rest))
          else
            (case feed_ranges N an maturedHeight (ec_nextBlockHeight cl) cl (es @ es1) of
               None \<Rightarrow> None
             | Some (cl', es', completed) \<Rightarrow>
                 if completed then feed_tick an rest cl' es' else Some (cl', es', rest)))"

section \<open>Retry and pruning\<close>

definition next_index :: "nat \<Rightarrow> string list \<Rightarrow> nat" where
  "next_index index nss = (index + 1) mod length nss"

definition eth_retryFeed :: "'d bolt \<Rightarrow> namespaces \<Rightarrow> nat \<Rightarrow> 'd \<Rightarrow> (nat \<times> effect list) res \<times> 'd" where
  "eth_retryFeed B nsp index d =
     (if length (nsp_retry nsp) \<le> index then (Inl index_range, d)
      else case RetrieveAndDeleteNPackets B (nsp_retry nsp ! index) retrievePacketNum d of
             (Inl e, d') \<Rightarrow>
               if is_panic e then (Inl e, d') else (Inr (next_index index (nsp_retry nsp), []), d')
           | (Inr pkts, d') \<Rightarrow> (Inr (next_index index (nsp_retry nsp), map EFeed pkts), d'))"

text \<open>
  The packets of one range: those for other chains and those up to the last delivered one are
  skipped, and the one behind the gap ends the whole loop (second component false).
\<close>

fun gap_packets :: "int \<Rightarrow> u64 \<Rightarrow> u64 \<Rightarrow> packet list \<Rightarrow> packet list \<times> bool" where
  "gap_packets chainID startSeqNum endSeqNum [] = ([], True)"
| "gap_packets chainID startSeqNum endSeqNum (pkt # pkts) =
     (if na_chain_id (p_destination pkt) \<noteq> Some chainID then gap_packets chainID startSeqNum endSeqNum pkts
      else if p_sequence pkt \<le> startSeqNum then gap_packets chainID startSeqNum endSeqNum pkts
      else if p_sequence pkt = endSeqNum then ([], False)
      else (let (ps, on) = gap_packets chainID startSeqNum endSeqNum pkts in (pkt # ps, on)))"

partial_function (option) gap_ranges ::
    "'l eth_node \<Rightarrow> eth_client \<Rightarrow> int \<Rightarrow> u64 \<Rightarrow> u64 \<Rightarrow> u64 \<Rightarrow> u64 \<Rightarrow> effect list \<Rightarrow> effect list option" where
  "gap_ranges N cl chainID startSeqNum endSeqNum endHeight s es =
     (if s \<le> endHeight then
        (let e0 = s + heightDifference;
             e = (if endHeight < e0 then endHeight else e0)
         in case filterPacketLogs N cl s e of
              Inl err \<Rightarrow> Some es
            | Inr pkts \<Rightarrow>
                (case gap_packets chainID startSeqNum endSeqNum pkts of
                   (ps, on) \<Rightarrow>
                     if on then gap_ranges N cl chainID startSeqNum endSeqNum endHeight
                       (s + (heightDifference + 1)) (es @ map EFeed ps)
                     else Some (es @ map EFeed ps)))
      else Some es)"

text \<open>
  The namespace carries the decimal chain identifier; a text that is no number leaves the fresh
  \<open>big.Int\<close> as it is. The second result component is the position of the next tick: it does not
  move when there is no gap, because \<open>continue\<close> skips the last statement of the loop body.
\<close>

definition ns_chain_id :: "string \<Rightarrow> int" where
  "ns_chain_id ns =
     (case big_set10 (replace_all eth_baseSeqNumNameSpacePrefix [] ns) of None \<Rightarrow> 0 | Some i \<Rightarrow> i)"

definition eth_pruneBaseSeqNum ::
    "'d bolt \<Rightarrow> 'l eth_node \<Rightarrow> string \<Rightarrow> int \<Rightarrow> eth_client \<Rightarrow> namespaces \<Rightarrow> nat \<Rightarrow> 'd \<Rightarrow>
     (nat \<times> effect list) res option \<times> 'd" where
  "eth_pruneBaseSeqNum B N an now cl nsp index d =
     (if length (nsp_base nsp) \<le> index then (Some (Inl index_range), d)
      else
        (let ns = nsp_base nsp ! index;
             health = [EMetric (MSetAttestorHealth an (bigint_str (ec_chainID cl)) now)]
         in case PruneBaseSeqNum B ns d of
              (Inl e, d') \<Rightarrow> (Some (Inl e), d')
            | (Inr (ranges, shouldFetch), d') \<Rightarrow>
                if \<not> shouldFetch then (Some (Inr (index, health)), d')
                else
                  (let ((startSeqNum, endSeqNum), (startHeight, endHeight)) = ranges
                   in (case gap_ranges N cl (ns_chain_id ns) startSeqNum endSeqNum endHeight startHeight health of
                         None \<Rightarrow> None
                       | Some es \<Rightarrow> Some (Inr (next_index index (nsp_base nsp), es)), d'))))"

section \<open>managePacket and GetMissedPacket\<close>

datatype outcome = Retry packet | Completed packet

fun eth_managePacket :: "'d bolt \<Rightarrow> string \<Rightarrow> outcome \<Rightarrow> 'd \<Rightarrow> 'd \<times> effect list" where
  "eth_managePacket B an (Retry pkt) d =
     (let ns = eth_retryPacketNamespacePrefix @ bigint_str (na_chain_id (p_destination pkt))
      in (snd (StoreRetryPacket B ns pkt d), []))"
| "eth_managePacket B an (Completed pkt) d =
     (let ns = eth_baseSeqNumNameSpacePrefix @ bigint_str (na_chain_id (p_destination pkt))
      in (snd (StoreBaseSeqNum B ns (p_sequence pkt) (p_height pkt) d),
          [EMetric (MUpdateProcessedSequence an (bigint_str (na_chain_id (p_source pkt)))
             (bigint_str (na_chain_id (p_destination pkt))) (uint (p_sequence pkt)))]))"

text \<open>\<open>Cmp\<close> dereferences its argument, and is reached only when the sequence numbers agree.\<close>

fun find_missed :: "missed_packet \<Rightarrow> packet list \<Rightarrow> packet res" where
  "find_missed missedPkt [] = Inl (ErrMsg ''packet not found'')"
| "find_missed missedPkt (pkt # pkts) =
     (if p_sequence pkt = mp_seq_num missedPkt then
        (case mp_target_chain_id missedPkt of
           None \<Rightarrow> Inl nil_deref
         | Some i \<Rightarrow>
             if na_chain_id (p_destination pkt) = Some i then Inr pkt else find_missed missedPkt pkts)
      else find_missed missedPkt pkts)"

definition eth_GetMissedPacket :: "'l eth_node \<Rightarrow> eth_client \<Rightarrow> missed_packet \<Rightarrow> packet res" where
  "eth_GetMissedPacket N cl missedPkt =
     (case filterPacketLogs N cl (mp_height missedPkt) (mp_height missedPkt) of
        Inl e \<Rightarrow> Inl e
      | Inr pkts \<Rightarrow> find_missed missedPkt pkts)"

section \<open>NewClient\<close>

definition default_dur :: "duration \<Rightarrow> duration \<Rightarrow> duration" where
  "default_dur x dflt = (if x = 0 then dflt else x)"

definition chain_namespaces :: "string \<Rightarrow> string \<Rightarrow> string list \<Rightarrow> string list" where
  "chain_namespaces rns bns dests = concat (map (\<lambda>dest. [rns @ dest, bns @ dest]) dests)"

definition eth_waitHeight :: "duration \<Rightarrow> u64 \<Rightarrow> u64" where
  "eth_waitHeight validityWaitDur finality =
     (let w = of_int (validityWaitDur sdiv eth_avgBlockGenDur) :: u64
      in if w < finality then finality else w)"

text \<open>
  The outcomes of \<open>rpc.Dial\<close> and \<open>abi.NewBridge\<close> and the address and topic parsers of go-ethereum are
  arguments. The new namespaces are appended to the package variables.
\<close>

record eth_library =
  el_Dial :: "string \<Rightarrow> unit res"
  el_NewBridge :: "bytes \<Rightarrow> unit res"
  el_HexToAddress :: "string \<Rightarrow> bytes"
  el_HexToHash :: "string \<Rightarrow> bytes"

definition eth_NewClient ::
    "'d bolt \<Rightarrow> eth_library \<Rightarrow> chain_config \<Rightarrow> namespaces \<Rightarrow> 'd \<Rightarrow> (eth_client \<times> namespaces) res \<times> 'd" where
  "eth_NewClient B L cfg nsp d =
     (case NewEthClient (el_Dial L) (cc_NodeUrl cfg) of
        Inl e \<Rightarrow> (Inl e, d)
      | Inr u \<Rightarrow>
     (case el_NewBridge L (el_HexToAddress L (cc_BridgeContract cfg)) of
        Inl e \<Rightarrow> (Inl (Panic (''failed to create ethereum bridge client. Error: '' @ error_text e)), d)
      | Inr u \<Rightarrow>
          (case CreateNamespaces B
                  (chain_namespaces eth_retryPacketNamespacePrefix eth_baseSeqNumNameSpacePrefix (cc_DestChains cfg)) d of
             (Inl e, d') \<Rightarrow> (Inl (if is_panic e then e else Panic (''failed to create namespaces. Error: '' @ error_text e)), d')
           | (Inr u, d') \<Rightarrow>
               (Inr (\<lparr>ec_name = (if cc_Name cfg = [] then ''ethereum'' else cc_Name cfg),
                      ec_address = el_HexToAddress L (cc_BridgeContract cfg),
                      ec_destChainsIDMap = remdups (cc_DestChains cfg),
                      ec_nextBlockHeight = cc_StartHeight cfg,
                      ec_chainID = cc_ChainID cfg,
                      ec_filterTopic = el_HexToHash L (cc_FilterTopic cfg),
                      ec_waitHeight = eth_waitHeight
                        (default_dur (cc_PacketValidityWaitDuration cfg) eth_defaultValidityWaitDur)
                        (cc_FinalityHeight cfg),
                      ec_feedPktWaitDur = default_dur (cc_FeedPacketWaitDuration cfg) eth_defaultFeedPktWaitDur,
                      ec_retryPacketWaitDur = default_dur (cc_RetryPacketWaitDur cfg) eth_defaultRetryPacketWaitDur,
                      ec_pruneBaseSeqNumberWaitDur =
                        default_dur (cc_PruneBaseSeqNumberWaitDur cfg) eth_defaultPruneBaseSeqWaitDur\<rparr>,
                     \<lparr>nsp_base = nsp_base nsp @ map (\<lambda>dest. eth_baseSeqNumNameSpacePrefix @ dest) (cc_DestChains cfg),
                      nsp_retry = nsp_retry nsp @ map (\<lambda>dest. eth_retryPacketNamespacePrefix @ dest) (cc_DestChains cfg)\<rparr>), d'))))"

end
