(* ===== verification/AleoClient.thy ===== *)
theory AleoClient
  imports AleoParse EthClient
begin

text \<open>
  \<open>chainService/chain/aleo/client.go\<close> and \<open>aleo/rpc/rpc.go\<close>: the client of the Aleo chain. It
  asks for the packets one sequence number after the other and waits for a packet to mature. The
  HTTP server is a function from request URLs to response bodies, an argument of every step that
  sends a request; the address functions of go-ethereum are the argument \<open>E\<close>.
\<close>

section \<open>rpc.go\<close>

type_synonym http_get = "string \<Rightarrow> string res"

definition NewRPC :: "string \<Rightarrow> string \<Rightarrow> string" where
  "NewRPC RpcEndPoint Network = RpcEndPoint @ ''/'' @ Network"

definition GetLatestHeight :: "string \<Rightarrow> http_get \<Rightarrow> i64 res" where
  "GetLatestHeight url http =
     (case http (url @ ''/latest/height'') of
        Inl e \<Rightarrow> Inl e
      | Inr ht \<Rightarrow> (case parse_int64 ht of None \<Rightarrow> Inl (ErrLib ''strconv.ParseInt'') | Some h \<Rightarrow> Inr (of_int h)))"

definition GetMappingValue :: "string \<Rightarrow> http_get \<Rightarrow> string \<Rightarrow> string \<Rightarrow> string \<Rightarrow> (string \<rightharpoonup> string) res" where
  "GetMappingValue url http programId mappingName mappingKey =
     (case http (url @ ''/program/'' @ programId @ ''/mapping/'' @ mappingName @ ''/'' @ mappingKey) of
        Inl e \<Rightarrow> Inl e
      | Inr t \<Rightarrow> Inr [mappingKey \<mapsto> t])"

section \<open>The client\<close>

definition aleo_defaultValidityWaitDur :: duration where "aleo_defaultValidityWaitDur = 24 * hour"
definition aleo_defaultAvgBlockGenDur :: duration where "aleo_defaultAvgBlockGenDur = second"
definition outPacket :: string where "outPacket = ''out_packets''"
definition aleo_defaultRetryPacketWaitDur :: duration where "aleo_defaultRetryPacketWaitDur = hour"
definition aleo_defaultPruneBaseSeqWaitDur :: duration where "aleo_defaultPruneBaseSeqWaitDur = hour"
definition nullString :: string where "nullString = ''null''"
definition aleo_baseSeqNumNameSpacePrefix :: string where "aleo_baseSeqNumNameSpacePrefix = ''aleo_bsns''"
definition aleo_retryPacketNamespacePrefix :: string where "aleo_retryPacketNamespacePrefix = ''aleo_rpns''"

record aleo_client =
  ac_url :: string
  ac_name :: string
  ac_programID :: string
  ac_queryUrl :: string
  ac_network :: string
  ac_chainID :: bigint
  ac_waitHeight :: i64
  ac_destChainsIDMap :: "(string \<times> u64) list"
  ac_validityWaitDur :: duration
  ac_retryPacketWaitDur :: duration
  ac_pruneBaseSeqWaitDur :: duration
  ac_avgBlockGenDur :: duration

text \<open>A key that is missing from a Go map reads as the empty text.\<close>

definition map_get :: "(string \<rightharpoonup> string) \<Rightarrow> string \<Rightarrow> string" where
  "map_get m k = (case m k of None \<Rightarrow> [] | Some v \<Rightarrow> v)"

definition getPktWithSeq :: "eth_common \<Rightarrow> aleo_client \<Rightarrow> http_get \<Rightarrow> string \<Rightarrow> u64 \<Rightarrow> packet res" where
  "getPktWithSeq E cl http dst seqNum =
     (let mappingKey = constructOutMappingKey dst seqNum
      in case GetMappingValue (ac_url cl) http (ac_programID cl) outPacket mappingKey of
           Inl e \<Rightarrow> Inl e
         | Inr message \<Rightarrow>
             if map_get message mappingKey = nullString
             then Inl (ErrPacketNotFound seqNum (ac_name cl) dst 0)
             else (case parseMessage (map_get message mappingKey) of
                     Inl e \<Rightarrow> Inl e
                   | Inr aleoPkt \<Rightarrow> parseAleoPacket E aleoPkt))"

definition aleo_blockHeightPriorWaitDur :: "string \<Rightarrow> aleo_client \<Rightarrow> http_get \<Rightarrow> i64 \<times> effect list" where
  "aleo_blockHeightPriorWaitDur an cl http =
     (case GetLatestHeight (ac_url cl) http of
        Inl e \<Rightarrow> (0, [EMetric (MUpdateAleoRPCStatus an (bigint_str (ac_chainID cl)) DOWN)])
      | Inr h \<Rightarrow> (h - ac_waitHeight cl, [EMetric (MUpdateAleoRPCStatus an (bigint_str (ac_chainID cl)) UP)]))"

section \<open>feedPacket\<close>

text \<open>
  The goroutine of one destination chain never ends, so it is a machine. Its control points are
  the two readings of the height (\<open>Poll1\<close> at the top of the outer loop, \<open>Poll2\<close> after the sleep)
  and the top of the inner loop (\<open>Pull\<close>). Each step sends one request. The \<open>select\<close> on the
  context only falls through, since its \<open>ctx.Done()\<close> branch is empty.
\<close>

datatype control = Poll1 | Poll2 | Pull

record feed_state =
  fs_pc :: control
  fs_nextSeqNum :: u64
  fs_availableInHeight :: i64
  fs_curMaturedHeight :: i64

definition feed_init :: "'d bolt \<Rightarrow> string \<Rightarrow> aleo_client \<Rightarrow> string \<Rightarrow> u64 \<Rightarrow> 'd \<Rightarrow> (feed_state \<times> effect list) res" where
  "feed_init B an cl chainID nextSeqNum d =
     (case GetStartingSeqNumAndHeight B (aleo_baseSeqNumNameSpacePrefix @ chainID) d of
        Inl e \<Rightarrow> Inl e
      | Inr (startSeqNum, h) \<Rightarrow>
          (let n = (if nextSeqNum < startSeqNum then startSeqNum else nextSeqNum);
               n = (if n = 0 then 1 else n)
           in Inr (\<lparr>fs_pc = Poll1, fs_nextSeqNum = n, fs_availableInHeight = 1, fs_curMaturedHeight = 0\<rparr>,
                   [EMetric (MStoredSequenceNo an (bigint_str (ac_chainID cl)) chainID (uint startSeqNum))])))"

definition feed_sleep :: "aleo_client \<Rightarrow> i64 \<Rightarrow> i64 \<Rightarrow> effect list" where
  "feed_sleep cl available matured =
     (if available = 0 then [ESleep (ac_validityWaitDur cl)]
      else if sint matured < sint available
      then [ESleep (sint ((available - matured) * of_int (ac_avgBlockGenDur cl) :: i64))]
      else [])"

fun feed_step :: "eth_common \<Rightarrow> string \<Rightarrow> aleo_client \<Rightarrow> string \<Rightarrow> http_get \<Rightarrow> control \<Rightarrow> feed_state \<Rightarrow>
    feed_state \<times> effect list" where
  "feed_step E an cl chainID http Poll1 st =
     (case aleo_blockHeightPriorWaitDur an cl http of
        (h, es) \<Rightarrow>
          if h = 0 then (st\<lparr>fs_pc := Poll1\<rparr>, es)
          else (st\<lparr>fs_pc := Poll2\<rparr>, es @ feed_sleep cl (fs_availableInHeight st) h))"
| "feed_step E an cl chainID http Poll2 st =
     (case aleo_blockHeightPriorWaitDur an cl http of
        (h, es) \<Rightarrow>
          if h = 0 then (st\<lparr>fs_pc := Poll1\<rparr>, es)
          else (st\<lparr>fs_pc := Pull, fs_curMaturedHeight := h\<rparr>, es))"
| "feed_step E an cl chainID http Pull st =
     (case getPktWithSeq E cl http chainID (fs_nextSeqNum st) of
        Inl e \<Rightarrow>
          if is_packet_not_found e then (st\<lparr>fs_pc := Poll1, fs_availableInHeight := 0\<rparr>, [])
          else (st, [ESleep second])
      | Inr pkt \<Rightarrow>
          if sint (fs_curMaturedHeight st) < sint (p_height pkt :: i64)
          then (st\<lparr>fs_pc := Poll1, fs_availableInHeight := p_height pkt\<rparr>, [])
          else (st\<lparr>fs_nextSeqNum := fs_nextSeqNum st + 1\<rparr>,
                [EMetric (MAddInPackets an (bigint_str (ac_chainID cl)) (bigint_str (na_chain_id (p_destination pkt)))),
                 EFeed pkt, ESleep second]))"

text \<open>A run of the machine against the server as it answers at the successive requests.\<close>

fun feed_run :: "eth_common \<Rightarrow> string \<Rightarrow> aleo_client \<Rightarrow> string \<Rightarrow> http_get list \<Rightarrow> feed_state \<Rightarrow>
    feed_state \<times> effect list" where
  "feed_run E an cl chainID [] st = (st, [])"
| "feed_run E an cl chainID (http # https) st =
     (let (st1, es1) = feed_step E an cl chainID http (fs_pc st) st;
          (st2, es2) = feed_run E an cl chainID https st1
      in (st2, es1 @ es2))"

section \<open>Pruning and retrying\<close>

text \<open>The position is put back to 0 at the top of a tick, and always advances at its end.\<close>

definition wrap_index :: "nat \<Rightarrow> string list \<Rightarrow> nat" where
  "wrap_index index nss = (if index = length nss then 0 else index)"

definition gap_seqs :: "u64 \<Rightarrow> u64 \<Rightarrow> u64 list" where
  "gap_seqs startSeqNum endSeqNum =
     map (\<lambda>k. startSeqNum + of_nat k) [0..<unat endSeqNum - unat startSeqNum]"

definition gap_feed :: "eth_common \<Rightarrow> aleo_client \<Rightarrow> http_get \<Rightarrow> string \<Rightarrow> u64 list \<Rightarrow> effect list" where
  "gap_feed E cl http chainID ns =
     concat (map (\<lambda>i. case getPktWithSeq E cl http chainID i of Inl e \<Rightarrow> [] | Inr pkt \<Rightarrow> [EFeed pkt]) ns)"

definition aleo_pruneBaseSeqNum ::
    "'d bolt \<Rightarrow> eth_common \<Rightarrow> http_get \<Rightarrow> string \<Rightarrow> int \<Rightarrow> aleo_client \<Rightarrow> namespaces \<Rightarrow> nat \<Rightarrow> 'd \<Rightarrow>
     (nat \<times> effect list) res \<times> 'd" where
  "aleo_pruneBaseSeqNum B E http an now cl nsp index0 d =
     (let index = wrap_index index0 (nsp_base nsp) in
      if length (nsp_base nsp) \<le> index then (Inl index_range, d)
      else
        (let ns = nsp_base nsp ! index;
             health = [EMetric (MSetAttestorHealth an (bigint_str (ac_chainID cl)) now)];
             chainID = replace_first aleo_baseSeqNumNameSpacePrefix [] ns
         in case PruneBaseSeqNum B ns d of
              (Inl e, d') \<Rightarrow> (Inl e, d')
            | (Inr (ranges, shouldFetch), d') \<Rightarrow>
                if \<not> shouldFetch then (Inr (index + 1, health), d')
                else
                  (let (startSeqNum, endSeqNum) = fst ranges
                   in (Inr (index + 1, health @ gap_feed E cl http chainID (gap_seqs startSeqNum endSeqNum)), d'))))"

definition aleo_retryFeed :: "'d bolt \<Rightarrow> namespaces \<Rightarrow> nat \<Rightarrow> 'd \<Rightarrow> (nat \<times> effect list) res \<times> 'd" where
  "aleo_retryFeed B nsp index0 d =
     (let index = wrap_index index0 (nsp_retry nsp) in
      if length (nsp_retry nsp) \<le> index then (Inl index_range, d)
      else case RetrieveAndDeleteNPackets B (nsp_retry nsp ! index) 10 d of
             (Inl e, d') \<Rightarrow> if is_panic e then (Inl e, d') else (Inr (index + 1, []), d')
           | (Inr pkts, d') \<Rightarrow> (Inr (index + 1, map EFeed pkts), d'))"

section \<open>managePacket and GetMissedPacket\<close>

fun aleo_managePacket :: "'d bolt \<Rightarrow> string \<Rightarrow> outcome \<Rightarrow> 'd \<Rightarrow> 'd \<times> effect list" where
  "aleo_managePacket B an (Retry pkt) d =
     (let ns = aleo_retryPacketNamespacePrefix @ bigint_str (na_chain_id (p_destination pkt))
      in (snd (StoreRetryPacket B ns pkt d), []))"
| "aleo_managePacket B an (Completed pkt) d =
     (let ns = aleo_baseSeqNumNameSpacePrefix @ bigint_str (na_chain_id (p_destination pkt))
      in (snd (StoreBaseSeqNum B ns (p_sequence pkt) 0 d),
          [EMetric (MUpdateProcessedSequence an (bigint_str (na_chain_id (p_source pkt)))
             (bigint_str (na_chain_id (p_destination pkt))) (uint (p_sequence pkt)))]))"

definition aleo_GetMissedPacket :: "eth_common \<Rightarrow> aleo_client \<Rightarrow> http_get \<Rightarrow> missed_packet \<Rightarrow> packet res" where
  "aleo_GetMissedPacket E cl http missedPkt =
     getPktWithSeq E cl http (bigint_str (mp_target_chain_id missedPkt)) (mp_seq_num missedPkt)"

section \<open>NewClient\<close>

definition aleo_waitHeight :: "duration \<Rightarrow> duration \<Rightarrow> u64 \<Rightarrow> i64" where
  "aleo_waitHeight validityWaitDur avgBlockGenDur finality =
     (let w = of_int (validityWaitDur sdiv avgBlockGenDur) :: i64
      in if sint w < sint finality then finality else w)"

fun seed_seqs :: "string list \<Rightarrow> (string \<times> u64) list \<Rightarrow> (string \<times> u64) list" where
  "seed_seqs [] m = m"
| "seed_seqs (dest # dests) m =
     seed_seqs dests (if map_of m dest = None then AList.update dest 1 m else m)"

definition aleo_NewClient ::
    "'d bolt \<Rightarrow> chain_config \<Rightarrow> namespaces \<Rightarrow> 'd \<Rightarrow> (aleo_client \<times> namespaces) res \<times> 'd" where
  "aleo_NewClient B cfg nsp d =
     (case go_split CHR ''|'' (cc_NodeUrl cfg) of
        [endpoint, network] \<Rightarrow>
          (case CreateNamespaces B
                  (chain_namespaces aleo_retryPacketNamespacePrefix aleo_baseSeqNumNameSpacePrefix (cc_DestChains cfg)) d of
             (Inl e, d') \<Rightarrow> (Inl (if is_panic e then e else Panic ''failed to create namespaces''), d')
           | (Inr u, d') \<Rightarrow>
               (let validityWaitDur = default_dur (cc_PacketValidityWaitDuration cfg) aleo_defaultValidityWaitDur;
                    avgBlockGenDur = default_dur (cc_AverageBlockGenDur cfg) aleo_defaultAvgBlockGenDur
                in (Inr (\<lparr>ac_url = NewRPC endpoint network,
                          ac_name = (if cc_Name cfg = [] then ''aleo'' else cc_Name cfg),
                          ac_programID = cc_BridgeContract cfg,
                          ac_queryUrl = endpoint, ac_network = network,
                          ac_chainID = cc_ChainID cfg,
                          ac_waitHeight = aleo_waitHeight validityWaitDur avgBlockGenDur (cc_FinalityHeight cfg),
                          ac_destChainsIDMap = seed_seqs (cc_DestChains cfg) (cc_StartSeqNum cfg),
                          ac_validityWaitDur = validityWaitDur,
                          ac_retryPacketWaitDur = default_dur (cc_RetryPacketWaitDur cfg) aleo_defaultRetryPacketWaitDur,
                          ac_pruneBaseSeqWaitDur =
                            default_dur (cc_PruneBaseSeqNumberWaitDur cfg) aleo_defaultPruneBaseSeqWaitDur,
                          ac_avgBlockGenDur = avgBlockGenDur\<rparr>,
                         \<lparr>nsp_base = nsp_base nsp @ map (\<lambda>dest. aleo_baseSeqNumNameSpacePrefix @ dest) (cc_DestChains cfg),
                          nsp_retry = nsp_retry nsp @ map (\<lambda>dest. aleo_retryPacketNamespacePrefix @ dest) (cc_DestChains cfg)\<rparr>), d')))
      | _ \<Rightarrow> (Inl (Panic ''invalid format''), d))"

end
