(* ===== verification/Screener.thy ===== *)
theory Screener
  imports Store
begin

text \<open>
  \<open>chainService/relay/address_screener/screen.go\<close>: the screening of the addresses of a packet. No
  screening service is called yet, so the only way to a negative result is one stored before. The
  package variable \<open>sc\<close> is set once the namespace exists.
\<close>

definition screen_namespace :: string where
  "screen_namespace = ''walletScreeningNS''"

definition Screen :: "'d bolt \<Rightarrow> packet \<Rightarrow> 'd \<Rightarrow> bool res \<times> 'd" where
  "Screen B pkt d =
     (case GetAndDeleteWhiteStatus B screen_namespace (GetSha256Hash pkt) d of
        (Inr v, d') \<Rightarrow> (Inr v, d')
      | (Inl e, d') \<Rightarrow> if is_panic e then (Inl e, d') else (Inr True, d'))"

definition screen_StoreWhiteStatus :: "'d bolt \<Rightarrow> packet \<Rightarrow> bool \<Rightarrow> 'd \<Rightarrow> unit res \<times> 'd" where
  "screen_StoreWhiteStatus B pkt isWhite d =
     StoreWhiteStatus B screen_namespace (GetSha256Hash pkt) isWhite d"

text \<open>The second component tells whether the screener is set.\<close>

definition SetupScreenService :: "'d bolt \<Rightarrow> 'd \<Rightarrow> bool res \<times> 'd" where
  "SetupScreenService B d =
     (case CreateNamespace B screen_namespace d of
        (Inl e, d') \<Rightarrow> (Inl (Panic (error_text e)), d')
      | (Inr u, d') \<Rightarrow> (Inr True, d'))"

definition GetScreener :: "bool \<Rightarrow> unit res" where
  "GetScreener sc = (if \<not> sc then Inl (Panic ''screneer not set up'') else Inr ())"

end
