(* ===== verification/Http.thy ===== *)
theory Http
  imports GoText Config
begin

text \<open>
  The parts of \<open>net/url\<close> and \<open>net/http\<close> that the clients of the collector and of the signing
  service use. A URL is kept as the struct that \<open>url.Parse\<close> returns, with its escaped path; its text
  form is only handed to the transport. The parser and the transport are the environment: the
  transport answers a request or fails, also for a request that cannot be built or times out.
\<close>

section \<open>URLs\<close>

record url =
  u_Scheme :: string
  u_User :: "(string \<times> string) option"
  u_Host :: string
  u_Path :: string
  u_RawQuery :: string

text \<open>\<open>URL.JoinPath\<close> with one element, which has no trailing slash in the sources.\<close>

definition JoinPath :: "url \<Rightarrow> string \<Rightarrow> url" where
  "JoinPath u e =
     (let p = u_Path u
      in if p \<noteq> [] \<and> hd p = CHR ''/'' then u\<lparr>u_Path := filepath_Join [p, e]\<rparr>
         else u\<lparr>u_Path := tl (filepath_Join [CHR ''/'' # p, e])\<rparr>)"

definition unreserved :: "char \<Rightarrow> bool" where
  "unreserved c \<longleftrightarrow>
     (let n = of_char c :: nat
      in 48 \<le> n \<and> n \<le> 57 \<or> 65 \<le> n \<and> n \<le> 90 \<or> 97 \<le> n \<and> n \<le> 122 \<or> c \<in> {CHR ''-'', CHR ''_'', CHR ''.'', CHR ''~''})"

definition upper_hex :: "nat \<Rightarrow> char" where
  "upper_hex d = (if d < 10 then char_of (48 + d) else char_of (55 + d))"

definition QueryEscape :: "string \<Rightarrow> string" where
  "QueryEscape s = concat (map (\<lambda>c.
     if c = CHR '' '' then ''+''
     else if unreserved c then [c]
     else [CHR ''%'', upper_hex (of_char c div 16), upper_hex (of_char c mod 16)]) s)"

text \<open>\<open>Values.Encode\<close>: the pairs are given in the order of their keys.\<close>

definition encode_query :: "(string \<times> string) list \<Rightarrow> string" where
  "encode_query kvs = go_join ''&'' (map (\<lambda>(k, v). QueryEscape k @ ''='' @ QueryEscape v) kvs)"

section \<open>Requests and responses\<close>

record http_request =
  hr_Method :: string
  hr_URL :: url
  hr_ContentType :: "string option"
  hr_Body :: bytes

text \<open>\<open>io.ReadAll\<close> of a body gives the bytes read before an error, and the error.\<close>

record http_response =
  hp_Status :: int
  hp_Body :: bytes
  hp_ReadErr :: "gerror option"

record http_env =
  he_Parse :: "string \<Rightarrow> url res"
  he_Do :: "http_request \<Rightarrow> http_response res"

definition http_GET :: string where "http_GET = ''GET''"
definition http_POST :: string where "http_POST = ''POST''"

end
