(* ===== verification/Signer.thy ===== *)
theory Signer
  imports Http PacketJson
begin

text \<open>
  \<open>chainService/relay/signer/sign.go\<close>: the client of the signing service.
\<close>

definition sg_signatureField :: string where "sg_signatureField = ''signature''"
definition sg_hashField :: string where "sg_hashField = ''hash''"

record sign_service =
  sv_url :: url

text \<open>The status code of a wrong answer is part of the error.\<close>

definition status_error :: "int \<Rightarrow> int \<Rightarrow> gerror" where
  "status_error expected got = ErrMsg (''expected status code '' @ itoa_int expected @ '', got '' @ itoa_int got)"

text \<open>
  The two fields of the answer: a missing signature overwrites the error of a missing hash.
\<close>

definition read_answer :: "(string \<rightharpoonup> string) \<Rightarrow> (string \<times> string) res" where
  "read_answer m =
     (case (m sg_hashField, m sg_signatureField) of
        (Some hash, Some signature) \<Rightarrow> Inr (hash, signature)
      | (_, None) \<Rightarrow> Inl (ErrMsg ''missing signature field'')
      | (None, Some signature) \<Rightarrow> Inl (ErrMsg ''missing hash field''))"

definition HashAndSignScreenedPacket :: "http_env \<Rightarrow> sign_service \<Rightarrow> screened_packet \<Rightarrow> (string \<times> string) res" where
  "HashAndSignScreenedPacket H s sp =
     (case he_Do H \<lparr>hr_Method = http_POST, hr_URL = sv_url s, hr_ContentType = None, hr_Body = marshal_screened sp\<rparr> of
        Inl e \<Rightarrow> Inl e
      | Inr resp \<Rightarrow>
          if hp_Status resp \<noteq> 200 then Inl (status_error 200 (hp_Status resp))
          else (case hp_ReadErr resp of
                  Some e \<Rightarrow> Inl e
                | None \<Rightarrow>
                    (case unmarshal_string_map (string_of_bytes (hp_Body resp)) of
                       Inl e \<Rightarrow> Inl e
                     | Inr m \<Rightarrow> read_answer m)))"

definition host_port :: "signing_service_config \<Rightarrow> string" where
  "host_port cfg = sc_Host cfg @ '':'' @ itoa_int (sc_Port cfg)"

definition CheckSigningServiceHealth :: "http_env \<Rightarrow> signing_service_config \<Rightarrow> unit res" where
  "CheckSigningServiceHealth H cfg =
     (let u = \<lparr>u_Scheme = sc_Scheme cfg, u_User = None, u_Host = host_port cfg, u_Path = sc_HealthEndpoint cfg,
               u_RawQuery = []\<rparr>
      in case he_Do H \<lparr>hr_Method = http_GET, hr_URL = u, hr_ContentType = None, hr_Body = []\<rparr> of
           Inl e \<Rightarrow> Inl e
         | Inr resp \<Rightarrow>
             if hp_Status resp \<noteq> 200
             then Inl (ErrMsg (''expected status code 200, got status code '' @ itoa_int (hp_Status resp)))
             else Inr ())"

definition dial :: "http_env \<Rightarrow> url \<Rightarrow> unit res" where
  "dial H u =
     (case he_Do H \<lparr>hr_Method = http_POST, hr_URL = u, hr_ContentType = None, hr_Body = []\<rparr> of
        Inl e \<Rightarrow> Inl e
      | Inr resp \<Rightarrow>
          if hp_Status resp < 400 \<or> 499 < hp_Status resp
          then Inl (ErrMsg (''expected status code 4xx, got '' @ itoa_int (hp_Status resp)))
          else Inr ())"

definition SetupSigner :: "http_env \<Rightarrow> signing_service_config \<Rightarrow> sign_service res" where
  "SetupSigner H cfg =
     (let u = \<lparr>u_Scheme = sc_Scheme cfg, u_User = Some (sc_Username cfg, sc_Password cfg), u_Host = host_port cfg,
               u_Path = sc_Endpoint cfg, u_RawQuery = []\<rparr>
      in case dial H u of
           Inl e \<Rightarrow> Inl e
         | Inr x \<Rightarrow> Inr \<lparr>sv_url = u\<rparr>)"

end
