(* ===== verification/Collector.thy ===== *)
theory Collector
  imports Http PacketJson Metrics
begin

text \<open>
  \<open>chainService/relay/collector/collector.go\<close>: the client of the database service that collects
  the signatures. It hands in the signature of a packet and polls for packets whose signature the
  service misses.
\<close>

section \<open>Data\<close>

definition signatureEndPoint :: string where "signatureEndPoint = ''signature''"
definition contentType :: string where "contentType = ''application/json''"
definition srcChainID :: string where "srcChainID = ''sourceChainId''"
definition destChainID :: string where "destChainID = ''destChainId''"
definition seqNumField :: string where "seqNumField = ''sequence''"
definition isWhiteField :: string where "isWhiteField = ''offChainAnalysis''"
definition signatureName :: string where "signatureName = ''signature''"
definition packetHashField :: string where "packetHashField = ''packetHash''"
definition attestorSigner :: string where "attestorSigner = ''attestorSigner''"
definition addressParam :: string where "addressParam = ''address''"
definition unconfirmed :: string where "unconfirmed = ''unconfirmed''"
definition limitParam :: string where "limitParam = ''limit''"
definition limitSize :: nat where "limitSize = 20"

text \<open>The map of wallet addresses, in the order in which a loop visits it.\<close>

record collector =
  cl_uri :: string
  cl_chainIDToAddress :: "(string \<times> string) list"
  cl_collectorWaitDur :: duration

definition address_of :: "collector \<Rightarrow> string \<Rightarrow> string" where
  "address_of c chainID = (case map_of (cl_chainIDToAddress c) chainID of None \<Rightarrow> [] | Some a \<Rightarrow> a)"

section \<open>Health and signatures\<close>

definition CheckCollectorHealth :: "http_env \<Rightarrow> collector \<Rightarrow> unit res" where
  "CheckCollectorHealth H c =
     (case he_Parse H (cl_uri c) of
        Inl e \<Rightarrow> Inl e
      | Inr u \<Rightarrow>
          (case he_Do H \<lparr>hr_Method = http_GET, hr_URL = u, hr_ContentType = None, hr_Body = []\<rparr> of
             Inl e \<Rightarrow> Inl e
           | Inr resp \<Rightarrow>
               if hp_Status resp \<noteq> 200
               then Inl (ErrMsg (''expected status code '' @ itoa_int 201 @ '', got '' @ itoa_int (hp_Status resp)))
               else Inr ()))"

text \<open>The request body: the entries of the map in the order of their keys.\<close>

definition signature_params :: "collector \<Rightarrow> screened_packet \<Rightarrow> string \<Rightarrow> string \<Rightarrow> json" where
  "signature_params c sp pktHash sig =
     (let p = sp_packet sp;
          dest = bigint_str (na_chain_id (p_destination p))
      in JObj [(attestorSigner, JStr (address_of c dest)), (destChainID, JStr dest),
               (isWhiteField, JBool (sp_is_white sp)), (packetHashField, JStr pktHash),
               (seqNumField, json_word (p_sequence p)), (signatureName, JStr sig),
               (srcChainID, JStr (bigint_str (na_chain_id (p_source p))))])"

text \<open>A read error of the answer is dropped; what was read is what is decoded.\<close>

definition collector_answer :: "http_response \<Rightarrow> unit res" where
  "collector_answer resp =
     (let r = string_of_bytes (hp_Body resp)
      in if hp_Status resp = 201 then
           (case unmarshal_collector_response r of
              Inl e \<Rightarrow> Inl e
            | Inr response \<Rightarrow>
                if cr_message response = ''Duplicate packet'' then Inl AlreadyRelayedPacket else Inr ())
         else Inl (ErrMsg (''expected status code '' @ itoa_int 201 @ '', got '' @ itoa_int (hp_Status resp) @
                     '', response: '' @ r)))"

definition SendToCollector :: "http_env \<Rightarrow> collector \<Rightarrow> screened_packet \<Rightarrow> string \<Rightarrow> string \<Rightarrow> unit res" where
  "SendToCollector H c sp pktHash sig =
     (let data = bytes_of_string (print_json (signature_params c sp pktHash sig))
      in case he_Parse H (cl_uri c) of
           Inl e \<Rightarrow> Inl e
         | Inr u0 \<Rightarrow>
             (let u = (JoinPath u0 signatureEndPoint)
                        \<lparr>u_RawQuery := encode_query (if IsMissed (sp_packet sp) then [(unconfirmed, ''true'')] else [])\<rparr>
              in case he_Do H \<lparr>hr_Method = http_POST, hr_URL = u, hr_ContentType = Some contentType, hr_Body = data\<rparr> of
                   Inl e \<Rightarrow> Inl e
                 | Inr resp \<Rightarrow> collector_answer resp))"

section \<open>Missed packets\<close>

text \<open>
  One tick of \<open>ReceivePktsFromCollector\<close>. The result of the request is a decoded answer or an
  error; the position moves on only after an answer. A URI that does not parse leaves a nil URL,
  and a null document a nil answer.
\<close>

definition poll_missed :: "http_env \<Rightarrow> url \<Rightarrow> string \<Rightarrow> missed_packet_details option res" where
  "poll_missed H u0 addr =
     (let u = (JoinPath u0 unconfirmed)
                \<lparr>u_RawQuery := encode_query [(addressParam, addr), (limitParam, itoa limitSize)]\<rparr>
      in case he_Do H \<lparr>hr_Method = http_GET, hr_URL = u, hr_ContentType = None, hr_Body = []\<rparr> of
           Inl e \<Rightarrow> Inl e
         | Inr resp \<Rightarrow>
             if hp_Status resp \<noteq> 200 then Inl (ErrMsg (''unexpected status code '' @ itoa_int (hp_Status resp)))
             else (case hp_ReadErr resp of
                     Some e \<Rightarrow> Inl e
                   | None \<Rightarrow> unmarshal_details (string_of_bytes (hp_Body resp))))"

definition receive_tick :: "http_env \<Rightarrow> collector \<Rightarrow> string list \<Rightarrow> nat \<Rightarrow> (nat \<times> effect list) res" where
  "receive_tick H c walletAddresses nextAddressIndex =
     (case he_Parse H (cl_uri c) of
        Inl e \<Rightarrow> Inl nil_deref
      | Inr u \<Rightarrow>
          if length walletAddresses \<le> nextAddressIndex then Inl index_range
          else (case poll_missed H u (walletAddresses ! nextAddressIndex) of
                  Inl e \<Rightarrow> Inr (nextAddressIndex, [])
                | Inr None \<Rightarrow> Inl nil_deref
                | Inr (Some missedPackets) \<Rightarrow>
                    Inr ((nextAddressIndex + 1) mod length walletAddresses, map EMissed (mpd_data missedPackets))))"

text \<open>
  A run of the loop over the environments of its successive ticks. Without wallet addresses it
  returns at once.
\<close>

fun receive_ticks :: "http_env list \<Rightarrow> collector \<Rightarrow> string list \<Rightarrow> nat \<Rightarrow> (nat \<times> effect list) res" where
  "receive_ticks [] c addrs i = Inr (i, [])"
| "receive_ticks (H # Hs) c addrs i =
     (case receive_tick H c addrs i of
        Inl e \<Rightarrow> Inl e
      | Inr (i', es) \<Rightarrow>
          (case receive_ticks Hs c addrs i' of Inl e \<Rightarrow> Inl e | Inr (i'', es') \<Rightarrow> Inr (i'', es @ es')))"

definition ReceivePktsFromCollector :: "http_env list \<Rightarrow> collector \<Rightarrow> (nat \<times> effect list) res" where
  "ReceivePktsFromCollector Hs c =
     (if cl_chainIDToAddress c = [] then Inr (0, [])
      else receive_ticks Hs c (map snd (cl_chainIDToAddress c)) 0)"

definition receive_wait :: "collector \<Rightarrow> duration" where
  "receive_wait c = (if cl_collectorWaitDur c = 0 then hour else cl_collectorWaitDur c)"

section \<open>Set-up\<close>

text \<open>
  The certificate files are read; a key pair that does not load ends the process (\<open>log.Fatal\<close>).
\<close>

definition SetupCollector ::
    "'f filesystem \<Rightarrow> (string \<Rightarrow> string \<Rightarrow> unit res) \<Rightarrow> collector_service_config \<Rightarrow> (string \<times> string) list \<Rightarrow> duration \<Rightarrow>
     'f \<Rightarrow> collector res" where
  "SetupCollector F LoadX509KeyPair cfg chainIDToAddress waitTime f =
     (case fs_read F f (co_CaCertificate cfg) of
        Inl e \<Rightarrow> Inl e
      | Inr caCert \<Rightarrow>
          (case LoadX509KeyPair (co_AttestorCertificate cfg) (co_AttestorKey cfg) of
             Inl e \<Rightarrow> Inl (Panic (error_text e))
           | Inr u \<Rightarrow>
               Inr \<lparr>cl_uri = co_Uri cfg, cl_chainIDToAddress = chainIDToAddress, cl_collectorWaitDur = waitTime\<rparr>))"

end
