(* ===== verification/Relay.thy ===== *)
theory Relay
  imports AleoClient Screener Signer Collector
begin

text \<open>
  \<open>chainService/relay/relays.go\<close> and the two \<open>register.go\<close>: the part that takes the packets of all
  chains, has each screened, hashed, signed and handed to the collector, and gives it back to its
  source chain as completed or to be retried. What the chains run on is the argument \<open>W\<close>, the
  database library \<open>B\<close>, the HTTP environment \<open>H\<close>.
\<close>

section \<open>Chain clients\<close>

text \<open>The implementations of \<open>chain.IClient\<close>.\<close>

datatype chain_client = AleoChain aleo_client | EthereumChain eth_client

record 'l world =
  w_node :: "'l eth_node"
  w_eth :: eth_common
  w_http :: http_get
  w_library :: eth_library

fun client_name :: "chain_client \<Rightarrow> string" where
  "client_name (AleoChain c) = ac_name c"
| "client_name (EthereumChain c) = ec_name c"

fun client_GetMissedPacket :: "'l world \<Rightarrow> chain_client \<Rightarrow> missed_packet \<Rightarrow> packet res" where
  "client_GetMissedPacket W (AleoChain c) m = aleo_GetMissedPacket (w_eth W) c (w_http W) m"
| "client_GetMissedPacket W (EthereumChain c) m = eth_GetMissedPacket (w_node W) c m"

text \<open>
  The package variables: the clients by chain identifier, and the namespaces of the two packages.
  Each package registers its constructor and its channels under its name.
\<close>

record 'd relay_state =
  rs_chainIDToChain :: "string \<rightharpoonup> chain_client"
  rs_aleo_namespaces :: namespaces
  rs_eth_namespaces :: namespaces
  rs_db :: 'd

definition RegisteredChannels :: "string list" where
  "RegisteredChannels = [''aleo'', ''ethereum'']"

definition register_aleo ::
    "'d bolt \<Rightarrow> chain_config \<Rightarrow> 'd relay_state \<Rightarrow> (chain_client \<times> 'd relay_state) res" where
  "register_aleo B cfg st =
     (case aleo_NewClient B cfg (rs_aleo_namespaces st) (rs_db st) of
        (Inl e, d) \<Rightarrow> Inl e
      | (Inr (c, nsp), d) \<Rightarrow> Inr (AleoChain c, st\<lparr>rs_aleo_namespaces := nsp, rs_db := d\<rparr>))"

definition register_ethereum ::
    "'d bolt \<Rightarrow> 'l world \<Rightarrow> chain_config \<Rightarrow> 'd relay_state \<Rightarrow> (chain_client \<times> 'd relay_state) res" where
  "register_ethereum B W cfg st =
     (case eth_NewClient B (w_library W) cfg (rs_eth_namespaces st) (rs_db st) of
        (Inl e, d) \<Rightarrow> Inl e
      | (Inr (c, nsp), d) \<Rightarrow> Inr (EthereumChain c, st\<lparr>rs_eth_namespaces := nsp, rs_db := d\<rparr>))"

definition RegisteredClients ::
    "'d bolt \<Rightarrow> 'l world \<Rightarrow> string \<rightharpoonup> (chain_config \<Rightarrow> 'd relay_state \<Rightarrow> (chain_client \<times> 'd relay_state) res)" where
  "RegisteredClients B W name =
     (if name = ''aleo'' then Some (register_aleo B)
      else if name = ''ethereum'' then Some (register_ethereum B W)
      else None)"

section \<open>initPacketFeeder\<close>

definition init_client ::
    "'d bolt \<Rightarrow> 'l world \<Rightarrow> chain_config option \<Rightarrow> 'd relay_state \<Rightarrow> (chain_client \<times> 'd relay_state) res" where
  "init_client B W c st =
     (case c of
        None \<Rightarrow> Inl nil_deref
      | Some cfg \<Rightarrow>
          (case RegisteredClients B W (cc_Name cfg) of
             None \<Rightarrow> Inl (Panic (''module undefined for chain '' @ cc_Name cfg))
           | Some newClient \<Rightarrow>
               (case newClient cfg st of
                  Inl e \<Rightarrow> Inl e
                | Inr (cl, st') \<Rightarrow>
                    Inr (cl, st'\<lparr>rs_chainIDToChain := (rs_chainIDToChain st')(bigint_str (cc_ChainID cfg) \<mapsto> cl)\<rparr>))))"

text \<open>The clients that are started, in the order of the configuration.\<close>

fun initPacketFeeder ::
    "'d bolt \<Rightarrow> 'l world \<Rightarrow> chain_config option list \<Rightarrow> 'd relay_state \<Rightarrow> (chain_client list \<times> 'd relay_state) res" where
  "initPacketFeeder B W [] st = Inr ([], st)"
| "initPacketFeeder B W (c # cs) st =
     (case init_client B W c st of
        Inl e \<Rightarrow> Inl e
      | Inr (cl, st') \<Rightarrow>
          (case initPacketFeeder B W cs st' of
             Inl e \<Rightarrow> Inl e
           | Inr (cls, st'') \<Rightarrow> Inr (cl # cls, st'')))"

section \<open>processPacket\<close>

text \<open>
  The struct \<open>relay\<close> holds its collaborators behind interfaces: here their operations, as the
  services answer them while the packet is processed.
\<close>

record 'd relay =
  rl_Screen :: "packet \<Rightarrow> 'd \<Rightarrow> bool res \<times> 'd"
  rl_StoreWhiteStatus :: "packet \<Rightarrow> bool \<Rightarrow> 'd \<Rightarrow> unit res \<times> 'd"
  rl_HashAndSignScreenedPacket :: "screened_packet \<Rightarrow> (string \<times> string) res"
  rl_SendToCollector :: "screened_packet \<Rightarrow> string \<Rightarrow> string \<Rightarrow> unit res"

text \<open>
  The deferred function. A channel that no package registered is nil, and a send on it never
  returns. A failure to store the screening result is only logged.
\<close>

definition post_process ::
    "'d relay \<Rightarrow> string \<Rightarrow> packet \<Rightarrow> bool \<Rightarrow> gerror option \<Rightarrow> 'd \<Rightarrow> unit res \<times> effect list \<times> 'd" where
  "post_process R srcChainName pkt isWhite err d =
     (if IsMissed pkt then (Inr (), [], d)
      else if srcChainName \<notin> set RegisteredChannels then (Inr (), [EBlocked], d)
      else case err of
             None \<Rightarrow> (Inr (), [ECompleted srcChainName pkt], d)
           | Some e \<Rightarrow>
               (case rl_StoreWhiteStatus R pkt isWhite d of
                  (Inl e', d') \<Rightarrow> (if is_panic e' then Inl e' else Inr (), [ERetry srcChainName pkt], d')
                | (Inr u, d') \<Rightarrow> (Inr (), [ERetry srcChainName pkt], d')))"

text \<open>
  A panic runs the deferred function before it goes on, and finds the error variable as it is then:
  still nil, so the packet is handed back as completed.
\<close>

definition unwind :: "'d relay \<Rightarrow> string \<Rightarrow> packet \<Rightarrow> bool \<Rightarrow> gerror \<Rightarrow> 'd \<Rightarrow> unit res \<times> effect list \<times> 'd" where
  "unwind R srcChainName pkt isWhite p d =
     (case post_process R srcChainName pkt isWhite None d of (r, es, d') \<Rightarrow> (Inl p, es, d'))"

definition after_effects :: "effect list \<Rightarrow> unit res \<times> effect list \<times> 'd \<Rightarrow> unit res \<times> effect list \<times> 'd" where
  "after_effects es0 x = (case x of (r, es, d) \<Rightarrow> (r, es0 @ es, d))"

text \<open>What follows the screening: the request to the signing service and the one to the collector.\<close>

definition sign_and_send ::
    "string \<Rightarrow> 'd relay \<Rightarrow> string \<Rightarrow> packet \<Rightarrow> bool \<Rightarrow> 'd \<Rightarrow> unit res \<times> effect list \<times> 'd" where
  "sign_and_send an R name pkt isWhite d =
     (let src = bigint_str (na_chain_id (p_source pkt));
          dest = bigint_str (na_chain_id (p_destination pkt));
          sp = \<lparr>sp_packet = pkt, sp_is_white = isWhite\<rparr>
      in case rl_HashAndSignScreenedPacket R sp of
           Inl e \<Rightarrow>
             if is_panic e then unwind R name pkt isWhite e d
             else post_process R name pkt isWhite (Some e) d
         | Inr (hash, signature) \<Rightarrow>
             after_effects [EMetric (MHashedAndSignedPacket an src dest)]
               (case rl_SendToCollector R sp hash signature of
                  Inl e \<Rightarrow>
                    if is_panic e then unwind R name pkt isWhite e d
                    else if is_already_relayed e then post_process R name pkt isWhite None d
                    else post_process R name pkt isWhite (Some e) d
                | Inr u \<Rightarrow>
                    after_effects [EMetric (MDeliveredPackets an src dest)]
                      (post_process R name pkt isWhite None d)))"

definition processPacket ::
    "string \<Rightarrow> 'd relay \<Rightarrow> (string \<rightharpoonup> chain_client) \<Rightarrow> packet \<Rightarrow> 'd \<Rightarrow> unit res \<times> effect list \<times> 'd" where
  "processPacket an R clients pkt d =
     (case clients (bigint_str (na_chain_id (p_source pkt))) of
        None \<Rightarrow> (Inl nil_deref, [], d)
      | Some cl \<Rightarrow>
          (case rl_Screen R pkt d of
             (Inl e, d1) \<Rightarrow> unwind R (client_name cl) pkt False e d1
           | (Inr isWhite, d1) \<Rightarrow> sign_and_send an R (client_name cl) pkt isWhite d1))"

section \<open>consumeMissedPackets and checkHealthServices\<close>

text \<open>One round of the loop: the packet of the source chain, marked as missed, or nothing.\<close>

definition consumeMissedPacket ::
    "'l world \<Rightarrow> (string \<rightharpoonup> chain_client) \<Rightarrow> missed_packet option \<Rightarrow> effect list res" where
  "consumeMissedPacket W clients missedPkt =
     (case missedPkt of
        None \<Rightarrow> Inl nil_deref
      | Some m \<Rightarrow>
          (case clients (bigint_str (mp_source_chain_id m)) of
             None \<Rightarrow> Inl nil_deref
           | Some srcChain \<Rightarrow>
               (case client_GetMissedPacket W srcChain m of
                  Inl e \<Rightarrow> if is_panic e then Inl e else Inr []
                | Inr pkt \<Rightarrow> Inr [EFeed (SetMissed pkt True)])))"

definition health_tick :: "string \<Rightarrow> http_env \<Rightarrow> collector \<Rightarrow> signing_service_config \<Rightarrow> effect list" where
  "health_tick an H c cfg =
     [EMetric (MSetDBServiceHealth an (case CheckCollectorHealth H c of Inl e \<Rightarrow> 0 | Inr u \<Rightarrow> 1)),
      EMetric (MSetSigningServiceHealth an (case CheckSigningServiceHealth H cfg of Inl e \<Rightarrow> 0 | Inr u \<Rightarrow> 1))]"

section \<open>StartRelay\<close>

fun wallet_addresses :: "chain_config option list \<Rightarrow> (string \<times> string) list \<Rightarrow> (string \<times> string) list res" where
  "wallet_addresses [] m = Inr m"
| "wallet_addresses (None # cs) m = Inl nil_deref"
| "wallet_addresses (Some v # cs) m =
     wallet_addresses cs (AList.update (bigint_str (cc_ChainID v)) (cc_WalletAddress v) m)"

text \<open>The collaborators that \<open>StartRelay\<close> puts into the struct.\<close>

definition new_relay :: "'d bolt \<Rightarrow> http_env \<Rightarrow> sign_service \<Rightarrow> collector \<Rightarrow> 'd relay" where
  "new_relay B H s c =
     \<lparr>rl_Screen = Screen B, rl_StoreWhiteStatus = screen_StoreWhiteStatus B,
      rl_HashAndSignScreenedPacket = HashAndSignScreenedPacket H s, rl_SendToCollector = SendToCollector H c\<rparr>"

text \<open>
  The set-up up to the point where the goroutines run: the two clients of the services, the chain
  clients and the state. Every error of the set-up is a panic.
\<close>

definition StartRelay ::
    "'d bolt \<Rightarrow> 'l world \<Rightarrow> http_env \<Rightarrow> 'f filesystem \<Rightarrow> (string \<Rightarrow> string \<Rightarrow> unit res) \<Rightarrow> config \<Rightarrow> 'f \<Rightarrow>
     'd relay_state \<Rightarrow> (sign_service \<times> collector \<times> chain_client list \<times> 'd relay_state) res" where
  "StartRelay B W H F LoadX509KeyPair cfg f st =
     (case SetupSigner H (cf_SigningServiceConfig cfg) of
        Inl e \<Rightarrow> Inl (Panic (error_text e))
      | Inr s \<Rightarrow>
     (case SetupScreenService B (rs_db st) of
        (Inl e, d) \<Rightarrow> Inl e
      | (Inr sc, d) \<Rightarrow>
     (case wallet_addresses (cf_ChainConfigs cfg) [] of
        Inl e \<Rightarrow> Inl e
      | Inr chainIdToAddress \<Rightarrow>
     (case SetupCollector F LoadX509KeyPair (cf_CollectorServiceConfig cfg) chainIdToAddress
             (co_CollectorWaitDur (cf_CollectorServiceConfig cfg)) f of
        Inl e \<Rightarrow> Inl (Panic (error_text e))
      | Inr c \<Rightarrow>
     (case initPacketFeeder B W (cf_ChainConfigs cfg) (st\<lparr>rs_db := d\<rparr>) of
        Inl e \<Rightarrow> Inl e
      | Inr (cls, st') \<Rightarrow> Inr (s, c, cls, st'))))))"

end
