(* ===== verification/StoreProps.thy ===== *)
theory StoreProps
  imports Store
begin

text \<open>
  What the store promises its callers, over any database that meets the contract
  \<open>bbolt_reliable\<close> of the theory Bolt, and the runs on the in-memory database that show the
  hypotheses can hold.
\<close>

section \<open>Base sequence numbers\<close>

definition base_db :: memdb where
  "base_db = [(''base'', [(be64 1, be64 10), (be64 2, be64 11), (be64 3, be64 11), (be64 7, be64 20)])]"

lemma base_db_view:
  "mem_view base_db ''base'' = Some [be64 1 \<mapsto> be64 10, be64 2 \<mapsto> be64 11, be64 3 \<mapsto> be64 11, be64 7 \<mapsto> be64 20]"
  by (simp add: mem_view_def base_db_def fun_upd_twist)

lemma base_db_ok:
  "base_ok [be64 1 \<mapsto> be64 10, be64 2 \<mapsto> be64 11, be64 3 \<mapsto> be64 11, be64 7 \<mapsto> be64 20]"
  by (simp add: base_ok_def)

text \<open>
  C7. Pruning a base-sequence namespace. For every reliable database and every bucket of stored
  sequence numbers, \<open>PruneBaseSeqNum\<close> finds the base \<open>b\<close>, the last number of the run of
  consecutive delivered numbers that starts at the least one (within the first 1000 pairs), deletes
  exactly the keys below \<open>b\<close> and no other pair of any bucket, and returns the sequence numbers and
  heights on both sides of the gap above \<open>b\<close>, or false when nothing is stored above it.
\<close>

theorem PruneBaseSeqNum_correct:
  assumes "bbolt_reliable B view" and "view d ns = Some m" and "base_ok m" and "dom m \<noteq> {}"
  shows "\<exists>b d'. is_base (dom (prune_window m)) b \<and>
    PruneBaseSeqNum B ns d =
      (Inr (case gap_after (prune_window m) b of
              None \<Rightarrow> (((0, 0), (0, 0)), False) | Some a \<Rightarrow> (a, True)), d') \<and>
    view d' = (view d)(ns \<mapsto> m |` {k. be64 b \<le> k})"
  using bbolt_reliable.prune_effect [OF assms] .

theorem PruneBaseSeqNum_correct_witness:
  "\<exists>m b d'. mem_view base_db ''base'' = Some m \<and> is_base (dom (prune_window m)) b \<and>
    mem_view d' = (mem_view base_db)(''base'' \<mapsto> m |` {k. be64 b \<le> k})"
  using PruneBaseSeqNum_correct [OF mem.bbolt_reliable_axioms, OF base_db_view base_db_ok] base_db_view
  by fastforce

text \<open>
  Pruning never moves the point a restart continues from: \<open>GetStartingSeqNumAndHeight\<close>
  answers the same before and after \<open>PruneBaseSeqNum\<close>, on every database and bucket.
\<close>

theorem PruneBaseSeqNum_keeps_start:
  assumes "bbolt_reliable B view" and "view d ns = Some m" and "base_ok m"
  shows "GetStartingSeqNumAndHeight B ns (snd (PruneBaseSeqNum B ns d)) =
    GetStartingSeqNumAndHeight B ns d"
proof (cases "dom m = {}")
  case True
  then have "PruneBaseSeqNum B ns d = (Inr (((0, 0), (0, 0)), False), d)"
    using bbolt.retrieveN_items [OF bbolt_reliable.axioms(1) [OF assms(1)] assms(2)]
    by (simp add: PruneBaseSeqNum_def items_def)
  then show ?thesis by simp
next
  case False
  obtain b d' where b: "is_base (dom (prune_window m)) b"
    and d': "snd (PruneBaseSeqNum B ns d) = d'"
    and v: "view d' ns = Some (m |` {k. be64 b \<le> k})"
    using bbolt_reliable.prune_effect [OF assms False] by auto
  have "b \<in> dom (base_map m)" using b dom_prune_window by (auto simp: is_base_def)
  then show ?thesis
    using bbolt_reliable.start_view [OF assms] start_of_restrict [OF assms(3)]
      bbolt_reliable.start_view [OF assms(1) v base_ok_restrict [OF assms(3)]] d' by simp
qed

theorem PruneBaseSeqNum_keeps_start_witness:
  "GetStartingSeqNumAndHeight mem_bolt ''base'' (snd (PruneBaseSeqNum mem_bolt ''base'' base_db)) =
   GetStartingSeqNumAndHeight mem_bolt ''base'' base_db"
  by (rule PruneBaseSeqNum_keeps_start [OF mem.bbolt_reliable_axioms, OF base_db_view base_db_ok])

text \<open>
  Pruning is idempotent on a bucket of at most 1000 numbers: a second run reports the same
  gap and removes nothing, so the range that is missing is reported until it is filled.
\<close>

theorem PruneBaseSeqNum_idempotent:
  assumes "bbolt_reliable B view" and "view d ns = Some m" and "base_ok m" and "card (dom m) \<le> 1000"
  shows "fst (PruneBaseSeqNum B ns (snd (PruneBaseSeqNum B ns d))) = fst (PruneBaseSeqNum B ns d) \<and>
    view (snd (PruneBaseSeqNum B ns (snd (PruneBaseSeqNum B ns d)))) =
      view (snd (PruneBaseSeqNum B ns d))"
proof (cases "dom m = {}")
  case True
  then have "PruneBaseSeqNum B ns d = (Inr (((0, 0), (0, 0)), False), d)"
    using bbolt.retrieveN_items [OF bbolt_reliable.axioms(1) [OF assms(1)] assms(2)]
    by (simp add: PruneBaseSeqNum_def items_def)
  then show ?thesis by simp
next
  case False
  note fin = bbolt.finite_view [OF bbolt_reliable.axioms(1) [OF assms(1)] assms(2)]
  obtain b d' where b: "is_base (dom (prune_window m)) b"
    and d': "PruneBaseSeqNum B ns d =
      (Inr (case gap_after (prune_window m) b of
              None \<Rightarrow> (((0, 0), (0, 0)), False) | Some a \<Rightarrow> (a, True)), d')"
    and v: "view d' = (view d)(ns \<mapsto> m |` {k. be64 b \<le> k})"
    using bbolt_reliable.prune_effect [OF assms(1-3) False] by blast
  define m' where "m' = m |` {k. be64 b \<le> k}"
  have v': "view d' ns = Some m'" by (simp add: v m'_def)
  have ok': "base_ok m'" unfolding m'_def by (rule base_ok_restrict [OF assms(3)])
  have W: "prune_window m = base_map m" by (rule prune_window_small [OF assms(3) fin assms(4)])
  have "card (dom m') \<le> card (dom m)" unfolding m'_def by (intro card_mono fin) auto
  then have "prune_window m' = base_map m'"
    using fin assms(4) by (intro prune_window_small [OF ok']) (auto simp: m'_def)
  then have W': "prune_window m' = base_map m |` {s. b \<le> s}" by (simp add: m'_def base_map_restrict)
  have "b \<in> dom (base_map m)" using b by (auto simp: is_base_def W)
  then have "be64 b \<in> dom m" using dom_base_map [OF assms(3)] by blast
  then have ne: "dom m' \<noteq> {}" by (auto simp: m'_def)
  have "m' |` {k. be64 b \<le> k} = m'" by (auto simp: m'_def)
  then have "view d'' = view d'" if "view d'' = (view d')(ns \<mapsto> m' |` {k. be64 b \<le> k})" for d''
    using that by (simp add: v m'_def)
  then show ?thesis
    using bbolt_reliable.prune_effect [OF assms(1) v' ok' ne] d'
      is_base_restrict [OF b [unfolded W]] unfolding W W' by auto
qed

theorem PruneBaseSeqNum_idempotent_witness:
  "fst (PruneBaseSeqNum mem_bolt ''base'' (snd (PruneBaseSeqNum mem_bolt ''base'' base_db))) =
     fst (PruneBaseSeqNum mem_bolt ''base'' base_db)"
  using PruneBaseSeqNum_idempotent [OF mem.bbolt_reliable_axioms, OF base_db_view base_db_ok] by simp

text \<open>
  C35. Recording a delivered packet. \<open>StoreBaseSeqNum\<close> succeeds, keeps the bucket well formed,
  updates it as the map from sequence numbers to heights does and leaves the other buckets alone.
  \<open>GetStartingSeqNumAndHeight\<close> then answers the successor of the greatest number stored
  (modulo \<open>2 ^ 64\<close>).
\<close>

theorem StoreBaseSeqNum_correct:
  assumes "bbolt_reliable B view" and "view d ns = Some m" and "base_ok m"
  shows "\<exists>d' m'. StoreBaseSeqNum B ns s h d = (Inr (), d') \<and>
    view d' = (view d)(ns \<mapsto> m') \<and> base_ok m' \<and> base_map m' = (base_map m)(s \<mapsto> h) \<and>
    (\<exists>height. GetStartingSeqNumAndHeight B ns d' =
       Inr (Max (insert s (dom (base_map m))) + 1, height))"
proof -
  obtain d' m' where d': "StoreBaseSeqNum B ns s h d = (Inr (), d')"
    "view d' = (view d)(ns \<mapsto> m')" "base_ok m'" "base_map m' = (base_map m)(s \<mapsto> h)"
    using bbolt_reliable.StoreBaseSeqNum_effect [OF assms] by blast
  have v: "view d' ns = Some m'" using d'(2) by simp
  have "dom (base_map m') = insert s (dom (base_map m))" using d'(4) by simp
  moreover from this have "dom m' \<noteq> {}" using dom_base_map [OF d'(3)] by auto
  ultimately have "fst (start_of m') = Max (insert s (dom (base_map m))) + 1"
    by (simp add: start_of_def Let_def)
  then have "start_of m' = (Max (insert s (dom (base_map m))) + 1, snd (start_of m'))"
    by (metis prod.collapse)
  then show ?thesis
    using d' bbolt_reliable.start_view [OF assms(1) v d'(3)] by metis
qed

theorem StoreBaseSeqNum_correct_witness:
  "\<exists>d' height. StoreBaseSeqNum mem_bolt ''base'' 8 21 base_db = (Inr (), d') \<and>
     GetStartingSeqNumAndHeight mem_bolt ''base'' d' =
       Inr (Max (insert 8 (dom (base_map
         [be64 1 \<mapsto> be64 10, be64 2 \<mapsto> be64 11, be64 3 \<mapsto> be64 11, be64 7 \<mapsto> be64 20]))) + 1, height)"
  using StoreBaseSeqNum_correct [OF mem.bbolt_reliable_axioms, OF base_db_view base_db_ok] by blast

section \<open>The retry namespace\<close>

text \<open>
  A retry bucket holds marshalled packets under the big-endian text of their sequence numbers.
  \<open>retry_map\<close> reads it as a map from sequence numbers to packets.
\<close>

definition retry_ok :: "(bytes \<rightharpoonup> bytes) \<Rightarrow> bool" where
  "retry_ok m \<longleftrightarrow> (\<forall>k v. m k = Some v \<longrightarrow>
     (\<exists>p. ascii_packet p \<and> k = be64 (p_sequence p) \<and> v = marshal_packet p))"

definition retry_map :: "(bytes \<rightharpoonup> bytes) \<Rightarrow> (u64 \<rightharpoonup> packet)" where
  "retry_map m s =
     (case m (be64 s) of
        None \<Rightarrow> None
      | Some v \<Rightarrow> (case unmarshal_packet v of Inl e \<Rightarrow> None | Inr p \<Rightarrow> Some p))"

lemma retry_map_dom: "retry_ok m \<Longrightarrow> s \<in> dom (retry_map m) \<longleftrightarrow> be64 s \<in> dom m"
  by (fastforce simp: retry_map_def retry_ok_def unmarshal_marshal_packet split: option.splits sum.splits)

lemma retry_dom: 
  assumes "retry_ok m"
  shows "dom m = be64 ` dom (retry_map m)"
proof
  show "dom m \<subseteq> be64 ` dom (retry_map m)"
  proof
    fix k assume "k \<in> dom m"
    moreover from this obtain p :: packet where "k = be64 (p_sequence p)"
      using assms unfolding retry_ok_def by (meson domD)
    ultimately show "k \<in> be64 ` dom (retry_map m)"
      using retry_map_dom [OF assms, of "p_sequence p"] by auto
  qed
next
  show "be64 ` dom (retry_map m) \<subseteq> dom m" using retry_map_dom [OF assms] by blast
qed

lemma retry_items:
  assumes ok: "retry_ok m" and fin: "finite (dom m)"
  shows "seq_res (map unmarshal_packet (map snd (take n (items m)))) =
    Inr (map (\<lambda>s. the (retry_map m s)) (take n (sorted_list_of_set (dom (retry_map m)))))"
    (is "_ = Inr (map _ (take n ?l))")
    and "map fst (take n (items m)) = map be64 (take n (sorted_list_of_set (dom (retry_map m))))"
proof -
  have finR: "finite (dom (retry_map m))"
    using fin retry_dom [OF ok] by (metis finite_imageD inj_on_def be64_inj)
  have it: "items m = map (\<lambda>s. (be64 s, the (m (be64 s)))) ?l"
    using retry_dom [OF ok] finR by (rule items_be64)
  have "unmarshal_packet (the (m (be64 s))) = Inr (the (retry_map m s))" if "s \<in> set ?l" for s
  proof -
    have "s \<in> dom (retry_map m)" using that finR by simp
    then obtain p where "retry_map m s = Some p" by blast
    then show ?thesis by (auto simp: retry_map_def split: option.splits sum.splits)
  qed
  then show "seq_res (map unmarshal_packet (map snd (take n (items m)))) =
    Inr (map (\<lambda>s. the (retry_map m s)) (take n ?l))"
    unfolding it take_map map_map o_def snd_conv
    by (intro seq_res_map_Inr) (auto dest: in_set_takeD)
  show "map fst (take n (items m)) = map be64 (take n ?l)"
    unfolding it take_map map_map o_def fst_conv ..
qed

lemma StoreRetryPacket_effect:
  assumes "bbolt_reliable B view" and "view d ns = Some m" and "retry_ok m"
    and "ascii_packet p" and "length (marshal_packet p) \<le> 2147483646"
  shows "\<exists>d' m'. StoreRetryPacket B ns p d = (Inr (), d') \<and> view d' = (view d)(ns \<mapsto> m') \<and>
    retry_ok m' \<and> retry_map m' = (retry_map m)(p_sequence p \<mapsto> SetMissed p False)"
proof -
  have "be64 (p_sequence p) \<noteq> []" by (simp flip: length_greater_0_conv)
  then obtain d' where d': "StoreRetryPacket B ns p d = (Inr (), d')"
    "view d' = (view d)(ns \<mapsto> m(be64 (p_sequence p) \<mapsto> marshal_packet p))"
    using bbolt_reliable.put_succeeds [OF assms(1,2), of "be64 (p_sequence p)" "marshal_packet p"]
      assms(5) by (auto simp: StoreRetryPacket_def)
  have "retry_ok (m(be64 (p_sequence p) \<mapsto> marshal_packet p))"
    using assms(3,4) by (auto simp: retry_ok_def)
  moreover have "retry_map (m(be64 (p_sequence p) \<mapsto> marshal_packet p)) =
      (retry_map m)(p_sequence p \<mapsto> SetMissed p False)"
    using unmarshal_marshal_packet [OF assms(4)] by (auto simp: retry_map_def fun_eq_iff)
  ultimately show ?thesis using d' by blast
qed

text \<open>
  Storing a packet that could not be delivered. On a reliable database \<open>StoreRetryPacket\<close>
  keeps the retry bucket well formed and enters the packet under its sequence number, where it
  replaces an older entry; the packet read back is the one stored, apart from the flag
  \<open>isMissed\<close>, which is not part of its JSON form.
\<close>

theorem StoreRetryPacket_correct:
  assumes "bbolt_reliable B view" and "view d ns = Some m" and "retry_ok m"
    and "ascii_packet p" and "length (marshal_packet p) \<le> 2147483646"
  shows "\<exists>d' m'. StoreRetryPacket B ns p d = (Inr (), d') \<and> view d' = (view d)(ns \<mapsto> m') \<and>
    retry_ok m' \<and> retry_map m' = (retry_map m)(p_sequence p \<mapsto> SetMissed p False)"
  using StoreRetryPacket_effect [OF assms] .

definition sample_packet :: packet where
  "sample_packet =
     \<lparr>p_version = 1,
      p_source = \<lparr>na_chain_id = Some 1, na_address = ''0xA''\<rparr>,
      p_destination = \<lparr>na_chain_id = Some 2, na_address = ''aleo1''\<rparr>,
      p_sequence = 7,
      p_message = \<lparr>m_dest_token_address = ''t'', m_sender_address = ''s'', m_amount = Some 5,
                   m_receiver_address = ''r''\<rparr>,
      p_height = 9, p_is_missed = True\<rparr>"

lemma sample_ascii: "ascii_packet sample_packet"
  by code_simp

lemma length_quote: "ascii s \<Longrightarrow> length (quote s) \<le> 6 * length s + 2"
proof -
  have "length (quote_byte c) \<le> 6" for c by (simp add: quote_byte_def Let_def)
  then have "length (concat (map quote_byte s)) \<le> 6 * length s" for s
    by (induction s) (auto intro!: add_le_mono)
  then show "ascii s \<Longrightarrow> ?thesis" by (simp add: quote_ascii)
qed

lemma length_itoa_digit: "n < 10 \<Longrightarrow> length (itoa n) = 1"
  by (simp add: itoa.simps)

lemma sample_length: "length (marshal_packet sample_packet) \<le> 2147483646"
proof -
  note names = length_quote [of "''version''"] length_quote [of "''source''"]
    length_quote [of "''destination''"] length_quote [of "''sequence''"] length_quote [of "''message''"]
    length_quote [of "''height''"] length_quote [of "''chain_id''"] length_quote [of "''address''"]
    length_quote [of "''dest_token_address''"] length_quote [of "''sender_address''"]
    length_quote [of "''amount''"] length_quote [of "''receiver_address''"] length_quote [of "''t''"]
    length_quote [of "''s''"] length_quote [of "''r''"] length_quote [of "''0xA''"]
    length_quote [of "''aleo1''"]
  show ?thesis
    using names
    by (simp add: marshal_packet_def json_packet_def json_address_def json_message_def json_word_def
        json_bigint_def itoa_word_def itoa_int_def length_itoa_digit sample_packet_def)
qed

definition retry_db :: memdb where
  "retry_db = [(''retry'', [(be64 7, marshal_packet sample_packet)])]"

lemma retry_db_view: "mem_view retry_db ''retry'' = Some [be64 7 \<mapsto> marshal_packet sample_packet]"
  by (simp add: mem_view_def retry_db_def)

lemma retry_db_ok: "retry_ok [be64 7 \<mapsto> marshal_packet sample_packet]"
  using sample_ascii by (auto simp: retry_ok_def sample_packet_def)

theorem StoreRetryPacket_correct_witness:
  "\<exists>d'. StoreRetryPacket mem_bolt ''retry'' sample_packet retry_db = (Inr (), d')"
  using StoreRetryPacket_correct [OF mem.bbolt_reliable_axioms, OF retry_db_view retry_db_ok
      sample_ascii sample_length] by blast

lemma RetrieveAndDeleteNPackets_effect:
  assumes "bbolt_cursor B view" and "view d ns = Some m" and "retry_ok m"
    and "dom m \<noteq> {}" and "n \<noteq> 0"
  shows "\<exists>d' m'. RetrieveAndDeleteNPackets B ns n d =
      (Inr (map (\<lambda>s. the (retry_map m s)) (take n (sorted_list_of_set (dom (retry_map m))))), d') \<and>
    view d' = (view d)(ns \<mapsto> m') \<and> retry_ok m' \<and>
    retry_map m' = retry_map m |` (- set (take n (sorted_list_of_set (dom (retry_map m)))))"
proof -
  have fin: "finite (dom m)"
    using bbolt.finite_view [OF bbolt_reliable.axioms(1) [OF bbolt_cursor.axioms(1) [OF assms(1)]] assms(2)] .
  let ?taken = "take n (sorted_list_of_set (dom (retry_map m)))"
  obtain d' where d': "retrieveAndDeleteNKeysFromFirst B ns n d = (Inr (map snd (take n (items m))), d')"
    "view d' = (view d)(ns \<mapsto> drop_first n m)"
    using bbolt_cursor.retrieveAndDelete_effect [OF assms(1,2,5,4)] by blast
  have drop: "drop_first n m = m |` (- be64 ` set ?taken)"
    using retry_items(2) [OF assms(3) fin, of n] by (simp only: drop_first_def set_map)
  have "retry_ok (drop_first n m)"
    using assms(3) by (auto simp: drop retry_ok_def restrict_map_def split: if_splits)
  moreover have "be64 s \<in> be64 ` X \<longleftrightarrow> s \<in> X" for s X by auto
  then have "retry_map (drop_first n m) = retry_map m |` (- set ?taken)"
    by (simp add: drop retry_map_def restrict_map_def fun_eq_iff)
  ultimately show ?thesis
    using d' retry_items(1) [OF assms(3) fin, of n] by (auto simp: RetrieveAndDeleteNPackets_def)
qed




definition broken_db :: memdb where
  "broken_db = [(''retry'', [(be64 1, []), (be64 7, marshal_packet sample_packet)])]"


section \<open>The screening namespace\<close>

text \<open>
  The screening flag of a packet. On a reliable database \<open>StoreWhiteStatus\<close> succeeds for
  every packet hash, and the next \<open>GetAndDeleteWhiteStatus\<close> of that key returns exactly the
  flag stored and forgets it: a second one fails with an error and changes nothing, while the
  other keys and buckets stay as they were.
\<close>

theorem StoreWhiteStatus_GetAndDelete:
  assumes "bbolt_reliable B view" and "view d ns = Some m" and "key \<noteq> []" and "length key \<le> 32768"
  shows "\<exists>d1 d2. StoreWhiteStatus B ns key value d = (Inr (), d1) \<and>
    GetAndDeleteWhiteStatus B ns key d1 = (Inr value, d2) \<and>
    view d2 = (view d)(ns \<mapsto> m(bytes_of_string key := None)) \<and>
    GetAndDeleteWhiteStatus B ns key d2 = (Inl (ErrMsg ''key does not exist''), d2)"
proof -
  note bb = bbolt_reliable.axioms(1) [OF assms(1)]
  let ?k = "bytes_of_string key" and ?v = "bytes_of_string (screenValue value)"
  have len: "length ?v \<le> 2147483646" by (cases "value") (simp_all add: screenValue_def)
  have "?k \<noteq> []" using assms(3) by (simp flip: length_greater_0_conv)
  then obtain d1 where d1: "put B ns ?k ?v d = (Inr (), d1)" "view d1 = (view d)(ns \<mapsto> m(?k \<mapsto> ?v))"
    using bbolt_reliable.put_succeeds [OF assms(1,2), of ?k ?v] assms(4) len by auto
  then have v1: "view d1 ns = Some (m(?k \<mapsto> ?v))" by simp
  obtain d2 where d2: "getAndDelete B ns ?k d1 = (Inr ?v, d2)"
    "view d2 = (view d1)(ns \<mapsto> (m(?k \<mapsto> ?v))(?k := None))"
    using bbolt_reliable.getAndDelete_succeeds [OF assms(1) v1 fun_upd_same] by blast
  then have v2: "view d2 ns = Some (m(?k := None))" by simp
  have "getAndDelete B ns ?k d2 = (Inl (ErrMsg ''key does not exist''), d2)"
    using bbolt.getAndDelete_absent [OF bb v2] by simp
  moreover have "(screenValue True = screenValue value) = value" by (simp add: screenValue_def)
  ultimately show ?thesis
    using d1 d2 by (simp add: StoreWhiteStatus_def GetAndDeleteWhiteStatus_def)
qed

definition screen_db :: memdb where
  "screen_db = [(''screen'', [])]"

lemma screen_db_view: "mem_view screen_db ''screen'' = Some Map.empty"
  by (simp add: mem_view_def screen_db_def)

theorem StoreWhiteStatus_GetAndDelete_witness:
  "\<exists>d1 d2. StoreWhiteStatus mem_bolt ''screen'' ''k'' True screen_db = (Inr (), d1) \<and>
    GetAndDeleteWhiteStatus mem_bolt ''screen'' ''k'' d1 = (Inr True, d2)"
  using StoreWhiteStatus_GetAndDelete
    [OF mem.bbolt_reliable_axioms, OF screen_db_view, of "''k''" True] by auto

lemma CreateNamespaces_effect:
  assumes "bbolt_reliable B view" and "[] \<notin> set names"
  shows "\<exists>d'. CreateNamespaces B names d = (Inr (), d') \<and>
    view d' = (\<lambda>ns. if ns \<in> set names \<and> view d ns = None then Some Map.empty else view d ns)"
  using assms(2)
proof (induction names arbitrary: d)
  case Nil
  then show ?case by simp
next
  case (Cons name names)
  obtain d1 where d1: "createBucket B name d = (Inr (), d1)"
    "view d1 = (case view d name of None \<Rightarrow> (view d)(name \<mapsto> Map.empty) | Some m \<Rightarrow> view d)"
    using bbolt_reliable.createBucket_succeeds [OF assms(1), of name d] Cons.prems
    by (metis list.set_intros(1))
  obtain d' where "CreateNamespaces B names d1 = (Inr (), d')"
    "view d' = (\<lambda>ns. if ns \<in> set names \<and> view d1 ns = None then Some Map.empty else view d1 ns)"
    using Cons.IH [of d1] Cons.prems by auto
  moreover have "(if ns \<in> set names \<and> view d1 ns = None then Some Map.empty else view d1 ns) =
      (if ns \<in> set (name # names) \<and> view d ns = None then Some Map.empty else view d ns)" for ns
    by (cases "view d name") (auto simp: d1(2))
  ultimately show ?case using d1(1) by (simp add: CreateNamespace_def)
qed

text \<open>
  Creating namespaces. On a reliable database \<open>CreateNamespaces\<close> with non-blank names
  succeeds, and afterwards each of them exists: empty when it is new, with its old contents when
  it existed. Buckets with other names are untouched.
\<close>

theorem CreateNamespaces_correct:
  assumes "bbolt_reliable B view" and "[] \<notin> set names"
  shows "\<exists>d'. CreateNamespaces B names d = (Inr (), d') \<and>
    view d' = (\<lambda>ns. if ns \<in> set names \<and> view d ns = None then Some Map.empty else view d ns)"
  using assms by (rule CreateNamespaces_effect)

theorem CreateNamespaces_correct_witness:
  "\<exists>d'. CreateNamespaces mem_bolt [''aleo'', ''ethereum''] [] = (Inr (), d')"
  using CreateNamespaces_correct [OF mem.bbolt_reliable_axioms, of "[''aleo'', ''ethereum'']" "[]"]
  by auto

text \<open>
  Keys. Converting the stored form of an integer, string or byte-slice key back with a sample
  of the same type returns the key, and the byte order of stored \<open>uint64\<close> keys, the order in
  which a cursor visits them, is their numeric order.
\<close>

theorem convertType_getKeyByte:
  "convertType (KInt64 a) (getKeyByteForKeyConstraint (KInt64 i)) = Inr (KInt64 i) \<and>
   convertType (KUint64 b) (getKeyByteForKeyConstraint (KUint64 s)) = Inr (KUint64 s) \<and>
   convertType (KString t) (getKeyByteForKeyConstraint (KString u)) = Inr (KString u) \<and>
   convertType (KBytes p) (getKeyByteForKeyConstraint (KBytes q)) = Inr (KBytes q) \<and>
   (getKeyByteForKeyConstraint (KUint64 s) < getKeyByteForKeyConstraint (KUint64 s') \<longleftrightarrow> s < s')"
  by (simp add: be_uint64_be64)

end
