(* ===== verification/EthProps.thy ===== *)
theory EthProps
  imports EthClient StoreProps
begin

text \<open>
  What the Ethereum client does with the logs of the bridge contract: the ranges it asks for cover
  the matured blocks exactly once, and a gap in the delivered sequence numbers is refilled.
\<close>

section \<open>A node with a fixed set of logs\<close>

text \<open>
  The documented behaviour of \<open>eth_getLogs\<close> over a fixed chain: the answer for a range of blocks
  is the logs of those blocks in chain order, and the logs of the contract's event decode.
\<close>

lemma sint_small: "unat (x :: u64) < 2 ^ 63 \<Longrightarrow> sint x = uint x"
proof -
  assume "unat x < 2 ^ 63"
  then have "int (unat x) < int (2 ^ 63)" by (simp only: of_nat_less_iff)
  then have "uint x < 2 ^ 63" by simp
  then show "sint x = uint x" by (simp only: sint_uint, intro signed_take_bit_int_eq_self) (simp_all add: order_trans [of _ 0])
qed

locale eth_logs =
  fixes N :: "'l eth_node" and addr topic :: bytes and logs :: "'l list" and ht :: "'l \<Rightarrow> u64"
  assumes filter_logs: "0 \<le> f \<Longrightarrow> 0 \<le> t \<Longrightarrow>
      en_FilterLogs N \<lparr>fq_FromBlock = f, fq_ToBlock = t, fq_Addresses = [addr], fq_Topics = [[topic]]\<rparr> =
        Inr (filter (\<lambda>l. f \<le> uint (ht l) \<and> uint (ht l) \<le> t) logs)"
    and chain_order: "sorted (map ht logs)"
    and decodes: "l \<in> set logs \<Longrightarrow> \<exists>p. en_ParsePacketDispatched N l = Inr p"

text \<open>The packets of the blocks \<open>f\<close> to \<open>t\<close>.\<close>

definition packets_between :: "'l eth_node \<Rightarrow> 'l list \<Rightarrow> ('l \<Rightarrow> u64) \<Rightarrow> u64 \<Rightarrow> u64 \<Rightarrow> packet list" where
  "packets_between N logs ht f t =
     map (\<lambda>l. case en_ParsePacketDispatched N l of Inl e \<Rightarrow> undefined | Inr p \<Rightarrow> commonPacket N p)
       (filter (\<lambda>l. f \<le> ht l \<and> ht l \<le> t) logs)"

lemma filter_split_sorted:
  fixes ht :: "'l \<Rightarrow> u64"
  assumes "sorted (map ht xs)" and "\<And>y. (lo \<le> y \<and> y \<le> mid \<or> mid' \<le> y \<and> y \<le> hi) = (lo \<le> y \<and> y \<le> hi)"
    and "mid < mid'" and "lo \<le> mid'" and "mid \<le> hi"
  shows "filter (\<lambda>l. lo \<le> ht l \<and> ht l \<le> mid) xs @ filter (\<lambda>l. mid' \<le> ht l \<and> ht l \<le> hi) xs =
    filter (\<lambda>l. lo \<le> ht l \<and> ht l \<le> hi) xs"
  using assms(1)
proof (induction xs)
  case (Cons x xs)
  show ?case
  proof (cases "mid' \<le> ht x")
    case True
    have "\<forall>l \<in> set xs. mid' \<le> ht l" using Cons.prems True by auto
    then have "filter (\<lambda>l. lo \<le> ht l \<and> ht l \<le> mid) xs = []"
      using assms(3) by (auto simp: filter_empty_conv)
    then show ?thesis using Cons True assms(3,4) by (auto)
  next
    case False
    then show ?thesis using Cons assms(2) [of "ht x"] by auto
  qed
qed simp

context eth_logs
begin

lemma eth_FilterLogs_logs:
  assumes "unat f < 2 ^ 63" and "unat t < 2 ^ 63"
  shows "eth_FilterLogs N f t addr topic = Inr (filter (\<lambda>l. f \<le> ht l \<and> ht l \<le> t) logs)"
  using assms by (simp add: eth_FilterLogs_def sint_small filter_logs word_le_def)

lemma filterPacketLogs_logs:
  assumes "ec_address cl = addr" and "ec_filterTopic cl = topic" and "unat f < 2 ^ 63" and "unat t < 2 ^ 63"
  shows "filterPacketLogs N cl f t = Inr (packets_between N logs ht f t)"
proof -
  have "(case en_ParsePacketDispatched N l of Inl e \<Rightarrow> Inl e | Inr p \<Rightarrow> Inr (commonPacket N p)) =
      Inr (case en_ParsePacketDispatched N l of Inl e \<Rightarrow> undefined | Inr p \<Rightarrow> commonPacket N p)"
    if "l \<in> set (filter (\<lambda>l. f \<le> ht l \<and> ht l \<le> t) logs)" for l
    using that decodes [of l] by auto
  then show ?thesis
    using assms
    by (simp add: filterPacketLogs_def eth_FilterLogs_logs packets_between_def seq_res_map_Inr
        del: set_filter)
qed

lemma packets_between_split:
  assumes "\<And>y. (lo \<le> y \<and> y \<le> mid \<or> mid' \<le> y \<and> y \<le> hi) = (lo \<le> y \<and> y \<le> hi)"
    and "mid < mid'" and "lo \<le> mid'" and "mid \<le> hi"
  shows "packets_between N logs ht lo mid @ packets_between N logs ht mid' hi =
    packets_between N logs ht lo hi"
  using filter_split_sorted [OF chain_order assms] unfolding packets_between_def map_append [symmetric]
  by simp

end

section \<open>Ranges of blocks\<close>

text \<open>Facts on one step of the loops, where no counter wraps around.\<close>

lemma range_step:
  fixes s h :: u64
  assumes "s \<le> h" and "unat h + 102 \<le> 2 ^ 64"
  shows "unat (s + heightDifference) = unat s + 100"
    and "unat (s + (heightDifference + 1)) = unat s + 101"
proof -
  have u: "unat s + 101 < 2 ^ 64" using assms by (simp add: word_le_nat_alt)
  show "unat (s + heightDifference) = unat s + 100"
    using u by (simp add: heightDifference_def unat_word_ariths)
  show "unat (s + (heightDifference + 1)) = unat s + 101"
    using u by (simp add: heightDifference_def unat_word_ariths)
qed

lemma range_last:
  fixes s h :: u64
  assumes "s \<le> h" and "unat h + 102 \<le> 2 ^ 64" and "\<not> s + (heightDifference + 1) \<le> h"
  shows "(if h < s + heightDifference then h else s + heightDifference) = h"
proof -
  have "unat h \<le> unat (s + heightDifference)"
    using range_step [OF assms(1,2)] assms(3) by (simp add: word_le_nat_alt)
  then show ?thesis by (auto simp: word_le_nat_alt word_less_nat_alt word_unat_eq_iff)
qed

lemma range_inner:
  fixes s h :: u64
  assumes "s \<le> h" and "unat h + 102 \<le> 2 ^ 64" and "s + (heightDifference + 1) \<le> h"
  shows "(if h < s + heightDifference then h else s + heightDifference) = s + heightDifference"
    and "(s \<le> y \<and> y \<le> s + heightDifference \<or> s + (heightDifference + 1) \<le> y \<and> y \<le> h) = (s \<le> y \<and> y \<le> h)"
    and "s + heightDifference < s + (heightDifference + 1)"
    and "s \<le> s + (heightDifference + 1)"
    and "s + heightDifference \<le> h"
    and "unat h - unat (s + (heightDifference + 1)) < unat h - unat s"
  using range_step [OF assms(1,2)] assms(3) by (auto simp: word_le_nat_alt word_less_nat_alt)

lemma range_small:
  fixes s h :: u64
  assumes "s \<le> h" and "unat h < 2 ^ 63"
  shows "unat s < 2 ^ 63" and "unat (if h < s + heightDifference then h else s + heightDifference) < 2 ^ 63"
  using assms by (auto simp: word_le_nat_alt word_less_nat_alt)

context eth_logs
begin

lemma feed_packets_next [simp]: "feed_packets an (cl\<lparr>ec_nextBlockHeight := x\<rparr>) = feed_packets an cl"
  by (simp add: feed_packets_def fun_eq_iff Let_def cong: if_cong)

lemma feed_packets_append: "feed_packets an cl (ps @ qs) = feed_packets an cl ps @ feed_packets an cl qs"
  by (simp add: feed_packets_def)

lemma feed_ranges_logs:
  assumes "ec_address cl = addr" and "ec_filterTopic cl = topic"
    and "s \<le> h" and "unat h < 2 ^ 63"
  shows "feed_ranges N an h s cl es =
    Some (cl\<lparr>ec_nextBlockHeight := h + 1\<rparr>,
      es @ feed_packets an cl (packets_between N logs ht s h), True)"
  using assms
proof (induction "unat h - unat s" arbitrary: s cl es rule: less_induct)
  case less
  let ?e = "if h < s + heightDifference then h else s + heightDifference"
  let ?P = "\<lambda>a b. feed_packets an cl (packets_between N logs ht a b)"
  note F = filterPacketLogs_logs [OF less.prems(1,2) range_small [OF less.prems(3,4)]]
  have top: "unat h + 102 \<le> 2 ^ 64" using less.prems(4) by simp
  have step: "feed_ranges N an h s cl es =
      feed_ranges N an h (s + (heightDifference + 1)) (cl\<lparr>ec_nextBlockHeight := ?e + 1\<rparr>) (es @ ?P s ?e)"
    using less.prems
    by (subst feed_ranges.simps) (simp only: F Let_def sum.case if_True)
  show ?case
  proof (cases "s + (heightDifference + 1) \<le> h")
    case True
    note r = range_inner [OF less.prems(3) top True]
    have "?P s (s + heightDifference) @ ?P (s + (heightDifference + 1)) h = ?P s h"
      using packets_between_split [OF r(2-5)] by (simp flip: feed_packets_append)
    then show ?thesis
      unfolding step unfolding r(1)
      using less.hyps [OF r(6), of "cl\<lparr>ec_nextBlockHeight := s + heightDifference + 1\<rparr>"] less.prems True
      by simp
  next
    case False
    then show ?thesis
      unfolding step range_last [OF less.prems(3) top False] by (subst feed_ranges.simps) simp
  qed
qed

lemma gap_packets_append:
  "gap_packets c a b (ps @ qs) =
    (if snd (gap_packets c a b ps)
     then (fst (gap_packets c a b ps) @ fst (gap_packets c a b qs), snd (gap_packets c a b qs))
     else gap_packets c a b ps)"
  by (induction ps) (auto split: prod.splits)

lemma gap_ranges_logs:
  assumes "ec_address cl = addr" and "ec_filterTopic cl = topic"
    and "s \<le> h" and "unat h < 2 ^ 63"
  shows "gap_ranges N cl c a b h s es =
    Some (es @ map EFeed (fst (gap_packets c a b (packets_between N logs ht s h))))"
  using assms
proof (induction "unat h - unat s" arbitrary: s es rule: less_induct)
  case less
  let ?e = "if h < s + heightDifference then h else s + heightDifference"
  let ?P = "\<lambda>x y. gap_packets c a b (packets_between N logs ht x y)"
  note F = filterPacketLogs_logs [OF less.prems(1,2) range_small [OF less.prems(3,4)]]
  have top: "unat h + 102 \<le> 2 ^ 64" using less.prems(4) by simp
  have step: "gap_ranges N cl c a b h s es =
      (if snd (?P s ?e) then gap_ranges N cl c a b h (s + (heightDifference + 1)) (es @ map EFeed (fst (?P s ?e)))
       else Some (es @ map EFeed (fst (?P s ?e))))"
    using less.prems
    by (subst gap_ranges.simps) (simp only: F Let_def sum.case if_True case_prod_beta)
  show ?case
  proof (cases "s + (heightDifference + 1) \<le> h")
    case True
    note r = range_inner [OF less.prems(3) top True]
    have split: "packets_between N logs ht s (s + heightDifference) @
        packets_between N logs ht (s + (heightDifference + 1)) h = packets_between N logs ht s h"
      by (rule packets_between_split [OF r(2-5)])
    show ?thesis
      unfolding step unfolding r(1)
      using less.hyps [OF r(6)] less.prems True
      by (simp add: gap_packets_append flip: split)
  next
    case False
    have "gap_ranges N cl c a b h (s + (heightDifference + 1)) es' = Some es'" for es'
      using False by (subst gap_ranges.simps) simp
    then show ?thesis
      unfolding step range_last [OF less.prems(3) top False] by simp
  qed
qed

end

section \<open>What is fed\<close>

definition supported :: "eth_client \<Rightarrow> packet \<Rightarrow> bool" where
  "supported cl p = (bigint_str (na_chain_id (p_destination p)) \<in> set (ec_destChainsIDMap cl))"

lemma fed_feed_packets: "fed (feed_packets an cl ps) = filter (supported cl) ps"
  by (induction ps) (simp_all add: feed_packets_def supported_def Let_def)

lemma supported_next [simp]: "supported (cl\<lparr>ec_nextBlockHeight := x\<rparr>) = supported cl"
  by (simp add: supported_def fun_eq_iff)

lemma fed_EFeed [simp]: "fed (map EFeed ps) = ps"
  by (induction ps) simp_all

context eth_logs
begin

lemma feed_tick_reading:
  assumes "ec_address cl = addr" and "ec_filterTopic cl = topic"
    and "ec_waitHeight cl \<le> h" and "unat h < 2 ^ 63"
    and "ec_nextBlockHeight cl \<le> h - ec_waitHeight cl"
  shows "feed_tick an ((Inr h, N) # rest) cl es =
    feed_tick an rest (cl\<lparr>ec_nextBlockHeight := h - ec_waitHeight cl + 1\<rparr>)
      (es @ [EMetric (MUpdateEthRPCStatus an (bigint_str (ec_chainID cl)) UP)] @
        feed_packets an cl (packets_between N logs ht (ec_nextBlockHeight cl) (h - ec_waitHeight cl)))"
proof -
  have "unat (h - ec_waitHeight cl) \<le> unat h" using assms(3) by (simp add: unat_sub word_le_nat_alt)
  moreover have "\<not> h - ec_waitHeight cl < ec_nextBlockHeight cl" using assms(5) by simp
  ultimately show ?thesis
    using feed_ranges_logs [OF assms(1,2,5)] assms(4)
    by (simp add: eth_blockHeightPriorWaitDur_def)
qed

lemma feed_tick_readings:
  assumes "ec_address cl = addr" and "ec_filterTopic cl = topic"
    and "sorted hs" and "hs \<noteq> []" and "\<forall>h \<in> set hs. unat h < 2 ^ 63"
    and "ec_waitHeight cl \<le> hd hs" and "ec_nextBlockHeight cl \<le> hd hs - ec_waitHeight cl"
  shows "\<exists>h cl' es' rest. h \<in> set hs \<and>
    feed_tick an (map (\<lambda>h. (Inr h, N)) hs) cl es = Some (cl', es', rest) \<and>
    cl' = cl\<lparr>ec_nextBlockHeight := h - ec_waitHeight cl + 1\<rparr> \<and>
    fed es' = fed es @ filter (supported cl)
      (packets_between N logs ht (ec_nextBlockHeight cl) (h - ec_waitHeight cl))"
  using assms
proof (induction hs arbitrary: cl es)
  case (Cons h hs)
  let ?w = "ec_waitHeight cl" and ?n = "ec_nextBlockHeight cl"
  let ?m = "h - ?w"
  let ?cl = "cl\<lparr>ec_nextBlockHeight := ?m + 1\<rparr>"
  let ?es = "es @ [EMetric (MUpdateEthRPCStatus an (bigint_str (ec_chainID cl)) UP)] @
        feed_packets an cl (packets_between N logs ht ?n ?m)"
  have wh: "?w \<le> h" and nm: "?n \<le> ?m" and top: "unat h < 2 ^ 63" using Cons.prems by simp_all
  have mh: "unat ?m = unat h - unat ?w" using wh by (simp add: unat_sub)
  have m1: "unat (?m + 1) = unat ?m + 1" using mh top by (simp add: unat_word_ariths)
  have step: "feed_tick an (map (\<lambda>h. (Inr h, N)) (h # hs)) cl es =
      feed_tick an (map (\<lambda>h. (Inr h, N)) hs) ?cl ?es"
    using feed_tick_reading [OF Cons.prems(1,2) wh top nm] by simp
  have fed: "fed ?es = fed es @ filter (supported cl) (packets_between N logs ht ?n ?m)"
    by (simp add: fed_feed_packets)
  show ?case
  proof (cases hs)
    case Nil
    then show ?thesis using step fed by auto
  next
    case (Cons h2 hs2)
    have h2: "h \<le> h2" "?w \<le> h2" using Cons.prems(3) wh \<open>hs = h2 # hs2\<close> by auto
    show ?thesis
    proof (cases "h2 - ?w < ?m + 1")
      case True
      then have "feed_tick an (map (\<lambda>h. (Inr h, N)) hs) ?cl ?es = Some (?cl,
          ?es @ [EMetric (MUpdateEthRPCStatus an (bigint_str (ec_chainID cl)) UP)] @
          [ESleep (sint ((?m + 1 - (h2 - ?w)) * of_int eth_avgBlockGenDur :: i64))], map (\<lambda>h. (Inr h, N)) hs2)"
        by (simp add: Cons eth_blockHeightPriorWaitDur_def Let_def)
      then show ?thesis using step fed by (intro exI [of _ h]) auto
    next
      case False
      then obtain h' cl' es' rest where ih: "h' \<in> set hs"
        "feed_tick an (map (\<lambda>h. (Inr h, N)) hs) ?cl ?es = Some (cl', es', rest)"
        "cl' = ?cl\<lparr>ec_nextBlockHeight := h' - ?w + 1\<rparr>"
        "fed es' = fed ?es @ filter (supported ?cl) (packets_between N logs ht (?m + 1) (h' - ?w))"
        using Cons.IH [of ?cl ?es] Cons.prems h2 \<open>hs = h2 # hs2\<close> by (auto simp: not_less)
      have h': "h2 \<le> h'" "?w \<le> h'" using ih(1) Cons.prems(3) \<open>hs = h2 # hs2\<close> h2 by auto
      have "unat (h2 - ?w) = unat h2 - unat ?w" "unat (h' - ?w) = unat h' - unat ?w"
        using h2 h' by (simp_all add: unat_sub)
      then have mm: "?m + 1 \<le> h' - ?w"
        using False h' by (simp add: word_le_nat_alt word_less_nat_alt)
      have "packets_between N logs ht ?n ?m @ packets_between N logs ht (?m + 1) (h' - ?w) =
          packets_between N logs ht ?n (h' - ?w)"
        using m1 mm nm by (intro packets_between_split) (auto simp: word_le_nat_alt word_less_nat_alt)
      then have "filter (supported cl) (packets_between N logs ht ?n ?m) @
          filter (supported cl) (packets_between N logs ht (?m + 1) (h' - ?w)) =
          filter (supported cl) (packets_between N logs ht ?n (h' - ?w))"
        by (simp flip: filter_append)
      then show ?thesis using step ih fed by (intro exI [of _ h']) auto
    qed
  qed
qed simp

end

lemma gap_packets_filter:
  assumes "sorted_wrt (<) (map p_sequence (filter (\<lambda>p. na_chain_id (p_destination p) = Some c) ps))"
    and "a < b"
    and "(\<forall>p \<in> set ps. na_chain_id (p_destination p) = Some c \<longrightarrow> p_sequence p < b) \<or>
      (\<exists>p \<in> set ps. na_chain_id (p_destination p) = Some c \<and> p_sequence p = b)"
  shows "fst (gap_packets c a b ps) =
    filter (\<lambda>p. na_chain_id (p_destination p) = Some c \<and> a < p_sequence p \<and> p_sequence p < b) ps"
  using assms
proof (induction ps)
  case (Cons p ps)
  show ?case
  proof (cases "na_chain_id (p_destination p) = Some c")
    case False
    then show ?thesis using Cons by auto
  next
    case True
    have later: "\<forall>q \<in> set ps. na_chain_id (p_destination q) = Some c \<longrightarrow> p_sequence p < p_sequence q"
      using Cons.prems(1) True by auto
    have IH: "fst (gap_packets c a b ps) =
        filter (\<lambda>p. na_chain_id (p_destination p) = Some c \<and> a < p_sequence p \<and> p_sequence p < b) ps"
      if "p_sequence p \<noteq> b"
      using Cons.IH Cons.prems True that by auto
    consider "p_sequence p \<le> a" | "p_sequence p = b" | "a < p_sequence p" "p_sequence p < b"
      | "b < p_sequence p" by fastforce
    then show ?thesis
    proof cases
      case 1
      then show ?thesis using IH True Cons.prems(2) by auto
    next
      case 2
      then have "filter (\<lambda>p. na_chain_id (p_destination p) = Some c \<and> a < p_sequence p \<and> p_sequence p < b) ps = []"
        using later by (force simp: filter_empty_conv)
      then show ?thesis using 2 True Cons.prems(2) by simp
    next
      case 3
      then show ?thesis using IH True by (auto split: prod.splits)
    next
      case 4
      then show ?thesis using Cons.prems(3) True later by fastforce
    qed
  qed
qed simp

section \<open>A node in memory\<close>

definition mem_node :: "(u64 \<times> out_packet) list \<Rightarrow> (u64 \<times> out_packet) eth_node" where
  "mem_node logs =
     \<lparr>en_FilterLogs = (\<lambda>q. Inr (filter (\<lambda>l. fq_FromBlock q \<le> uint (fst l) \<and> uint (fst l) \<le> fq_ToBlock q) logs)),
      en_ParsePacketDispatched = (\<lambda>l. Inr (snd l)),
      en_Hex = (\<lambda>b. ''0x'' @ hex_encode b)\<rparr>"

lemma mem_node_logs: "sorted (map fst logs) \<Longrightarrow> eth_logs (mem_node logs) addr topic logs fst"
  by unfold_locales (simp_all add: mem_node_def)

definition dispatched :: "int \<Rightarrow> int \<Rightarrow> int \<Rightarrow> out_packet" where
  "dispatched dest s h =
     \<lparr>op_Version = 1, op_Sequence = s,
      op_SourceTokenService = \<lparr>ia_ChainId = 1, ia_Addr = replicate 20 1\<rparr>,
      op_DestTokenService = \<lparr>oa_ChainId = dest, oa_Addr = ''aleo1svc''\<rparr>,
      op_Message = \<lparr>om_SenderAddress = replicate 20 2, om_DestTokenAddress = ''aleo1token'',
                    om_Amount = 1000, om_ReceiverAddress = ''aleo1user''\<rparr>,
      op_Height = h\<rparr>"

definition sample_logs :: "(u64 \<times> out_packet) list" where
  "sample_logs = [(10, dispatched 2 4 10), (10, dispatched 2 5 10), (120, dispatched 9 1 120),
     (130, dispatched 2 6 130)]"

lemma sample_logs_sorted: "sorted (map fst sample_logs)"
  by (simp add: sample_logs_def)

interpretation sample_node: eth_logs "mem_node sample_logs" "[]" "[]" sample_logs fst
  by (rule mem_node_logs [OF sample_logs_sorted])

definition sample_client :: eth_client where
  "sample_client =
     \<lparr>ec_name = ''ethereum'', ec_address = [], ec_destChainsIDMap = [''2''], ec_nextBlockHeight = 1,
      ec_chainID = Some 1, ec_filterTopic = [], ec_waitHeight = 20, ec_feedPktWaitDur = 0,
      ec_retryPacketWaitDur = 0, ec_pruneBaseSeqNumberWaitDur = 0\<rparr>"

section \<open>Properties\<close>

text \<open>
  C13. Every packet of a matured block is fed exactly once. While the block numbers read in one
  tick do not decrease, stay above the wait height and below \<open>2 ^ 63\<close>, the loop over ranges of 101 blocks ends,
  and what it has put on the channel is exactly the packets of all blocks from the next height on
  up to the last matured height it used that go to a supported chain, each once and in chain
  order; the next height moves right behind that block.
\<close>

theorem eth_feed_complete:
  assumes "eth_logs N (ec_address cl) (ec_filterTopic cl) logs ht"
    and "sorted hs" and "hs \<noteq> []" and "\<forall>h \<in> set hs. unat h < 2 ^ 63"
    and "ec_waitHeight cl \<le> hd hs" and "ec_nextBlockHeight cl \<le> hd hs - ec_waitHeight cl"
  shows "\<exists>h es rest. h \<in> set hs \<and>
    feed_tick an (map (\<lambda>h. (Inr h, N)) hs) cl [] =
      Some (cl\<lparr>ec_nextBlockHeight := h - ec_waitHeight cl + 1\<rparr>, es, rest) \<and>
    fed es = filter (supported cl)
      (packets_between N logs ht (ec_nextBlockHeight cl) (h - ec_waitHeight cl))"
  using eth_logs.feed_tick_readings [OF assms(1) refl refl assms(2-6), of an "[]"] by auto

theorem eth_feed_complete_witness:
  "\<exists>h es rest. h \<in> {150, 155} \<and>
    feed_tick ''a'' [(Inr 150, mem_node sample_logs), (Inr 155, mem_node sample_logs)] sample_client [] =
      Some (sample_client\<lparr>ec_nextBlockHeight := h - 20 + 1\<rparr>, es, rest) \<and>
    fed es = filter (supported sample_client) (packets_between (mem_node sample_logs) sample_logs fst 1 (h - 20))"
  using eth_feed_complete [of "mem_node sample_logs" sample_client sample_logs fst "[150, 155]" "''a''"]
    sample_node.eth_logs_axioms
  by (simp add: sample_client_def)

text \<open>
  C38. A gap is refilled. When pruning reports the gap between the delivered numbers \<open>a\<close> and \<open>b\<close>
  and the block range recorded for them holds the packet \<open>b\<close>, with the numbers of that destination
  chain increasing along the chain, \<open>gap_ranges\<close> ends and feeds exactly the packets to that chain
  whose number lies strictly between \<open>a\<close> and \<open>b\<close>.
\<close>

theorem eth_gap_refilled:
  assumes "eth_logs N (ec_address cl) (ec_filterTopic cl) logs ht"
    and "startHeight \<le> endHeight" and "unat endHeight < 2 ^ 63" and "a < b"
    and "sorted_wrt (<) (map p_sequence (filter (\<lambda>p. na_chain_id (p_destination p) = Some c)
      (packets_between N logs ht startHeight endHeight)))"
    and "p \<in> set (packets_between N logs ht startHeight endHeight)"
    and "na_chain_id (p_destination p) = Some c" and "p_sequence p = b"
  shows "gap_ranges N cl c a b endHeight startHeight [] =
    Some (map EFeed (filter (\<lambda>q. na_chain_id (p_destination q) = Some c \<and> a < p_sequence q \<and> p_sequence q < b)
      (packets_between N logs ht startHeight endHeight)))"
proof -
  have "fst (gap_packets c a b (packets_between N logs ht startHeight endHeight)) =
      filter (\<lambda>q. na_chain_id (p_destination q) = Some c \<and> a < p_sequence q \<and> p_sequence q < b)
        (packets_between N logs ht startHeight endHeight)"
    using assms(6-8) by (intro gap_packets_filter [OF assms(5,4)]) blast
  then show ?thesis
    using eth_logs.gap_ranges_logs [OF assms(1) refl refl assms(2,3), of c a b "[]"] by simp
qed

lemma sample_packets:
  "packets_between (mem_node sample_logs) sample_logs fst 10 130 =
     map (commonPacket (mem_node sample_logs))
       [dispatched 2 4 10, dispatched 2 5 10, dispatched 9 1 120, dispatched 2 6 130]"
  by (simp add: packets_between_def sample_logs_def mem_node_def)

theorem eth_gap_refilled_witness:
  "gap_ranges (mem_node sample_logs) sample_client 2 4 6 130 10 [] =
     Some [EFeed (commonPacket (mem_node sample_logs) (dispatched 2 5 10))]"
  using eth_gap_refilled [of "mem_node sample_logs" sample_client sample_logs fst 10 130 4 6 2
      "commonPacket (mem_node sample_logs) (dispatched 2 6 130)"] sample_node.eth_logs_axioms
  unfolding sample_packets
  by (simp add: commonPacket_def dispatched_def big_uint64_def sample_client_def)

text \<open>
  Before the chain is as long as the wait height, the matured height wraps around:
  \<open>blockHeightPriorWaitDur\<close> then answers a number above the current block number, without an
  error, and blocks that do not exist yet count as matured.
\<close>

theorem eth_matured_height_wraps:
  assumes "curHeight < ec_waitHeight cl"
  shows "\<exists>m. fst (eth_blockHeightPriorWaitDur an cl (Inr curHeight)) = Inr m \<and> curHeight < m"
proof -
  have "curHeight < curHeight - ec_waitHeight cl"
    using assms unsigned_less [of "ec_waitHeight cl", where ?'a = nat]
    by (simp add: word_less_nat_alt unat_sub_if')
  then show ?thesis by (simp add: eth_blockHeightPriorWaitDur_def)
qed

theorem eth_matured_height_wraps_witness:
  "\<exists>m. fst (eth_blockHeightPriorWaitDur ''a'' sample_client (Inr 5)) = Inr m \<and> 5 < m"
  using eth_matured_height_wraps [of 5 sample_client "''a''"] by (simp add: sample_client_def)

end
