(* ===== verification/ClientProps.thy ===== *)
theory ClientProps
  imports AleoClient EthProps
begin

text \<open>
  What the chain clients promise the relay: the Aleo client feeds the packets in the order of
  their sequence numbers, both clients record every outcome, and both open their namespaces.
\<close>

section \<open>The feed of the Aleo client\<close>

definition mature_fetch :: "eth_common \<Rightarrow> aleo_client \<Rightarrow> string \<Rightarrow> http_get set \<Rightarrow> u64 \<Rightarrow> packet \<Rightarrow> bool" where
  "mature_fetch E cl chainID S n p \<longleftrightarrow>
     (\<exists>http \<in> S. getPktWithSeq E cl http chainID n = Inr p) \<and>
     (\<exists>http \<in> S. \<exists>h. GetLatestHeight (ac_url cl) http = Inr h \<and>
        sint (p_height p :: i64) \<le> sint (h - ac_waitHeight cl))"

definition matured_read :: "aleo_client \<Rightarrow> http_get set \<Rightarrow> feed_state \<Rightarrow> bool" where
  "matured_read cl S st \<longleftrightarrow> (fs_pc st = Pull \<longrightarrow>
     (\<exists>http \<in> S. \<exists>h. GetLatestHeight (ac_url cl) http = Inr h \<and>
        fs_curMaturedHeight st = h - ac_waitHeight cl))"

lemma height_reading:
  assumes "aleo_blockHeightPriorWaitDur an cl http = (h, es)" and "h \<noteq> 0"
  shows "\<exists>x. GetLatestHeight (ac_url cl) http = Inr x \<and> h = x - ac_waitHeight cl"
  using assms by (auto simp: aleo_blockHeightPriorWaitDur_def split: sum.splits)

lemma feed_step_inv:
  assumes "http \<in> S" and "matured_read cl S st"
    and "feed_step E an cl chainID http (fs_pc st) st = (st', es)"
  shows "matured_read cl S st' \<and>
    (fed es = [] \<and> fs_nextSeqNum st' = fs_nextSeqNum st \<or>
     (\<exists>p. fed es = [p] \<and> fs_nextSeqNum st' = fs_nextSeqNum st + 1 \<and>
        mature_fetch E cl chainID S (fs_nextSeqNum st) p))"
proof (cases "fs_pc st")
  case Poll1
  have no_feed: "fed es1 = []" if "aleo_blockHeightPriorWaitDur an cl http = (h, es1)" for h es1
    using that by (auto simp: aleo_blockHeightPriorWaitDur_def split: sum.splits)
  have "fed (feed_sleep cl a b) = []" for a b by (simp add: feed_sleep_def)
  then show ?thesis
    using assms(3) Poll1 no_feed by (auto simp: matured_read_def split: prod.splits if_splits)
next
  case Poll2
  have no_feed: "fed es1 = []" if "aleo_blockHeightPriorWaitDur an cl http = (h, es1)" for h es1
    using that by (auto simp: aleo_blockHeightPriorWaitDur_def split: sum.splits)
  obtain h es1 where h: "aleo_blockHeightPriorWaitDur an cl http = (h, es1)" by fastforce
  show ?thesis
    using assms(1,3) Poll2 h no_feed [OF h] height_reading [OF h]
    by (auto simp: matured_read_def split: if_splits)
next
  case Pull
  obtain x http' where m: "http' \<in> S" "GetLatestHeight (ac_url cl) http' = Inr x"
    "fs_curMaturedHeight st = x - ac_waitHeight cl"
    using assms(2) Pull by (auto simp: matured_read_def)
  show ?thesis
  proof (cases "getPktWithSeq E cl http chainID (fs_nextSeqNum st)")
    case (Inl e)
    then show ?thesis
      using assms(2,3) Pull by (auto simp: matured_read_def split: if_splits)
  next
    case (Inr pkt)
    show ?thesis
    proof (cases "sint (fs_curMaturedHeight st) < sint (p_height pkt :: i64)")
      case True
      then show ?thesis using assms(3) Pull Inr by (auto simp: matured_read_def)
    next
      case False
      then have "sint (p_height pkt :: i64) \<le> sint (x - ac_waitHeight cl)" using m(3) by simp
      then have "mature_fetch E cl chainID S (fs_nextSeqNum st) pkt"
        using m(1,2) Inr assms(1) unfolding mature_fetch_def by blast
      then show ?thesis using False assms(3) Pull Inr m by (auto simp: matured_read_def)
    qed
  qed
qed

lemma feed_run_inv:
  assumes "set https \<subseteq> S" and "matured_read cl S st"
    and "feed_run E an cl chainID https st = (st', es)"
  shows "fs_nextSeqNum st' = fs_nextSeqNum st + of_nat (length (fed es)) \<and>
    list_all2 (\<lambda>i p. mature_fetch E cl chainID S (fs_nextSeqNum st + of_nat i) p) [0..<length (fed es)] (fed es)"
  using assms
proof (induction https arbitrary: st st' es)
  case (Cons http https)
  obtain st1 es1 where s1: "feed_step E an cl chainID http (fs_pc st) st = (st1, es1)" by fastforce
  obtain es2 where s2: "feed_run E an cl chainID https st1 = (st', es2)" and es: "es = es1 @ es2"
    using Cons.prems(3) s1 by (auto split: prod.splits)
  have http: "http \<in> S" and https: "set https \<subseteq> S" using Cons.prems(1) by auto
  note step = feed_step_inv [OF http Cons.prems(2) s1]
  have IH: "fs_nextSeqNum st' = fs_nextSeqNum st1 + of_nat (length (fed es2))"
    "list_all2 (\<lambda>i p. mature_fetch E cl chainID S (fs_nextSeqNum st1 + of_nat i) p) [0..<length (fed es2)] (fed es2)"
    using Cons.IH [OF https _ s2] step by auto
  show ?case
  proof (cases "fed es1")
    case Nil
    then show ?thesis using step IH by (auto simp: es)
  next
    case (Cons p ps)
    then have p: "fed es1 = [p]" "fs_nextSeqNum st1 = fs_nextSeqNum st + 1"
      "mature_fetch E cl chainID S (fs_nextSeqNum st) p"
      using step by auto
    have "[0..<Suc (length (fed es2))] = 0 # map Suc [0..<length (fed es2)]"
      by (simp add: upt_conv_Cons map_Suc_upt del: upt_Suc)
    then show ?thesis
      using p IH by (simp add: es list_all2_map1 add.assoc del: upt_Suc)
  qed
qed simp


definition sample_aleo :: aleo_client where
  "sample_aleo =
     \<lparr>ac_url = ''u'', ac_name = ''aleo'', ac_programID = ''bridge'', ac_queryUrl = ''u'', ac_network = ''n'',
      ac_chainID = Some 2, ac_waitHeight = 10, ac_destChainsIDMap = [(''1'', 1)], ac_validityWaitDur = hour,
      ac_retryPacketWaitDur = hour, ac_pruneBaseSeqWaitDur = hour, ac_avgBlockGenDur = second\<rparr>"

text \<open>A server at height 100 that holds the sample packet under every number.\<close>

definition sample_http :: http_get where
  "sample_http url =
     (if url = ''u/latest/height'' then Inr (itoa 100)
      else Inr (ledger_text (ledger_of sample_aleo_packet (replicate 20 1) (replicate 20 2) (replicate 20 3))))"

definition sample_feed :: feed_state where
  "sample_feed = \<lparr>fs_pc = Poll1, fs_nextSeqNum = 1, fs_availableInHeight = 1, fs_curMaturedHeight = 0\<rparr>"


section \<open>The gap of the Aleo client\<close>

lemma gap_seqs_set: "set (gap_seqs a b) = {s. a \<le> s \<and> s < b}"
proof
  show "set (gap_seqs a b) \<subseteq> {s. a \<le> s \<and> s < b}"
  proof
    fix s
    assume "s \<in> set (gap_seqs a b)"
    then obtain k where k: "k < unat b - unat a" "s = a + of_nat k" by (auto simp: gap_seqs_def)
    then have "unat s = unat a + k"
      using unsigned_less [of b, where ?'a = nat]
      by (simp add: unat_word_ariths unsigned_of_nat take_bit_eq_mod)
    then show "s \<in> {s. a \<le> s \<and> s < b}" using k by (simp add: word_le_nat_alt word_less_nat_alt)
  qed
  show "{s. a \<le> s \<and> s < b} \<subseteq> set (gap_seqs a b)"
  proof
    fix s
    assume "s \<in> {s. a \<le> s \<and> s < b}"
    then have s: "unat a \<le> unat s" "unat s < unat b" by (simp_all add: word_le_nat_alt word_less_nat_alt)
    then have "s = a + of_nat (unat s - unat a)" by (simp add: word_unat_eq_iff of_nat_diff)
    moreover have "unat s - unat a < unat b - unat a" using s by simp
    ultimately show "s \<in> set (gap_seqs a b)" unfolding gap_seqs_def set_map by fastforce
  qed
qed

lemma gap_feed_all:
  "\<forall>n \<in> set ns. getPktWithSeq E cl http chainID n = Inr (P n) \<Longrightarrow> fed (gap_feed E cl http chainID ns) = map P ns"
  by (induction ns) (simp_all add: gap_feed_def)

text \<open>
  Refilling a gap on Aleo. For the range that pruning reports, from the last delivered number
  \<open>a\<close> to the next delivered number \<open>b\<close>, the client feeds the packet of every number from \<open>a\<close> up
  to but not including \<open>b\<close> when the ledger holds them all. So every missing packet is fed again,
  and so is the packet \<open>a\<close>, which was delivered before.
\<close>

theorem aleo_gap_refilled:
  assumes "\<forall>n. a \<le> n \<and> n < b \<longrightarrow> getPktWithSeq E cl http chainID n = Inr (P n)"
  shows "set (fed (gap_feed E cl http chainID (gap_seqs a b))) = P ` {n. a \<le> n \<and> n < b}"
  using gap_feed_all [of "gap_seqs a b" E cl http chainID P] assms by (simp add: gap_seqs_set)

lemma sample_fetch: "getPktWithSeq sample_eth sample_aleo sample_http dst n = Inr sample_aleo_packet"
proof -
  let ?l = "ledger_of sample_aleo_packet (replicate 20 1) (replicate 20 2) (replicate 20 3)"
  have ok: "from_ledger sample_eth sample_aleo_packet (replicate 20 1) (replicate 20 2) (replicate 20 3)"
    by (simp add: from_ledger_def sample_aleo_packet_def sample_eth_def aleo_word_def clean_def
      trimmed_char_def field_words_def required_names_def)
  have "ledger_text ?l \<noteq> nullString" by (simp add: ledger_text_def nullString_def)
  then show ?thesis
    using parseMessage_ledger [OF ledger_of_ok [OF ok]] parseAleoPacket_ledger [OF ok]
    by (simp add: getPktWithSeq_def GetMappingValue_def sample_http_def sample_aleo_def map_get_def)
qed

theorem aleo_gap_refilled_witness:
  "set (fed (gap_feed sample_eth sample_aleo sample_http ''1'' (gap_seqs 3 7))) =
     (\<lambda>n. sample_aleo_packet) ` {n :: u64. 3 \<le> n \<and> n < 7}"
  by (rule aleo_gap_refilled) (simp add: sample_fetch)

section \<open>Recording outcomes\<close>

text \<open>
  What the relay relies on when it hands a packet back to its source chain: a completed packet is
  entered among the delivered numbers of its destination, a failed one among the packets to
  retry, and nothing else changes. The two kinds of namespaces of a chain never coincide.
\<close>

definition storable :: "packet \<Rightarrow> bool" where
  "storable p \<longleftrightarrow> ascii_packet p \<and> length (marshal_packet p) \<le> 2147483646"

definition dest_of :: "packet \<Rightarrow> string" where
  "dest_of p = bigint_str (na_chain_id (p_destination p))"

fun outcome_packet :: "outcome \<Rightarrow> packet" where
  "outcome_packet (Retry p) = p"
| "outcome_packet (Completed p) = p"

text \<open>
  A database in which every namespace of the listed destinations is open and well formed, and the
  sequence numbers a namespace holds.
\<close>

definition ns_open :: "('d \<Rightarrow> string \<Rightarrow> (bytes \<rightharpoonup> bytes) option) \<Rightarrow> string \<Rightarrow> string \<Rightarrow> string set \<Rightarrow> 'd \<Rightarrow> bool" where
  "ns_open view base retry C d \<longleftrightarrow> (\<forall>c \<in> C. (\<exists>m. view d (base @ c) = Some m \<and> base_ok m) \<and>
     (\<exists>m. view d (retry @ c) = Some m \<and> retry_ok m))"

definition delivered :: "('d \<Rightarrow> string \<Rightarrow> (bytes \<rightharpoonup> bytes) option) \<Rightarrow> string \<Rightarrow> 'd \<Rightarrow> u64 set" where
  "delivered view ns d = (case view d ns of None \<Rightarrow> {} | Some m \<Rightarrow> dom (base_map m))"

definition waiting :: "('d \<Rightarrow> string \<Rightarrow> (bytes \<rightharpoonup> bytes) option) \<Rightarrow> string \<Rightarrow> 'd \<Rightarrow> u64 set" where
  "waiting view ns d = (case view d ns of None \<Rightarrow> {} | Some m \<Rightarrow> dom (retry_map m))"

locale outcome_recorder =
  fixes manage :: "outcome \<Rightarrow> 'd \<Rightarrow> 'd" and view :: "'d \<Rightarrow> string \<Rightarrow> (bytes \<rightharpoonup> bytes) option"
    and base_ns retry_ns :: string and height_of :: "packet \<Rightarrow> u64"
  assumes completed: "view d ((base_ns @ dest_of p)) = Some m \<Longrightarrow> base_ok m \<Longrightarrow>
      \<exists>m'. view (manage (Completed p) d) = (view d)((base_ns @ dest_of p) \<mapsto> m') \<and> base_ok m' \<and>
        base_map m' = (base_map m)(p_sequence p \<mapsto> height_of p)"
    and failed: "view d ((retry_ns @ dest_of p)) = Some m \<Longrightarrow> retry_ok m \<Longrightarrow> storable p \<Longrightarrow>
      \<exists>m'. view (manage (Retry p) d) = (view d)((retry_ns @ dest_of p) \<mapsto> m') \<and> retry_ok m' \<and>
        retry_map m' = (retry_map m)(p_sequence p \<mapsto> SetMissed p False)"
    and apart: "base_ns @ c \<noteq> retry_ns @ c'"
begin

lemma manage_step:
  assumes "ns_open view base_ns retry_ns C d" and "dest_of (outcome_packet oc) \<in> C" and "storable (outcome_packet oc)"
  shows "ns_open view base_ns retry_ns C (manage oc d) \<and>
    delivered view (base_ns @ c) (manage oc d) = delivered view (base_ns @ c) d \<union>
      {n. \<exists>p. oc = Completed p \<and> dest_of p = c \<and> n = p_sequence p} \<and>
    waiting view (retry_ns @ c) (manage oc d) = waiting view (retry_ns @ c) d \<union>
      {n. \<exists>p. oc = Retry p \<and> dest_of p = c \<and> n = p_sequence p}"
proof (cases oc)
  case (Completed p)
  then obtain m where m: "view d ((base_ns @ dest_of p)) = Some m" "base_ok m"
    using assms(1,2) by (auto simp: ns_open_def)
  obtain m' where m': "view (manage oc d) = (view d)((base_ns @ dest_of p) \<mapsto> m')" "base_ok m'"
    "base_map m' = (base_map m)(p_sequence p \<mapsto> height_of p)"
    using completed [OF m] Completed by blast
  have "ns_open view base_ns retry_ns C (manage oc d)"
    using assms(1) m' by (auto simp: ns_open_def apart apart [symmetric])
  moreover have "delivered view (base_ns @ c) (manage oc d) = delivered view (base_ns @ c) d \<union>
      {n. \<exists>p. oc = Completed p \<and> dest_of p = c \<and> n = p_sequence p}"
    using m m' Completed by (auto simp: delivered_def)
  moreover have "waiting view (retry_ns @ c) (manage oc d) = waiting view (retry_ns @ c) d"
    using m' by (simp add: waiting_def apart [symmetric])
  ultimately show ?thesis using Completed by simp
next
  case (Retry p)
  then obtain m where m: "view d ((retry_ns @ dest_of p)) = Some m" "retry_ok m"
    using assms(1,2) by (auto simp: ns_open_def)
  have sp: "storable p" using assms(3) Retry by simp
  obtain m' where m': "view (manage oc d) = (view d)((retry_ns @ dest_of p) \<mapsto> m')" "retry_ok m'"
    "retry_map m' = (retry_map m)(p_sequence p \<mapsto> SetMissed p False)"
    using failed [OF m sp] Retry by blast
  have "ns_open view base_ns retry_ns C (manage oc d)"
    using assms(1) m' by (auto simp: ns_open_def apart)
  moreover have "waiting view (retry_ns @ c) (manage oc d) = waiting view (retry_ns @ c) d \<union>
      {n. \<exists>p. oc = Retry p \<and> dest_of p = c \<and> n = p_sequence p}"
    using m m' Retry by (auto simp: waiting_def)
  moreover have "delivered view (base_ns @ c) (manage oc d) = delivered view (base_ns @ c) d"
    using m' by (simp add: delivered_def apart)
  ultimately show ?thesis using Retry by simp
qed

lemma outcomes_recorded:
  assumes "ns_open view base_ns retry_ns C d" and "\<forall>oc \<in> set ocs. dest_of (outcome_packet oc) \<in> C \<and> storable (outcome_packet oc)"
  shows "ns_open view base_ns retry_ns C (fold manage ocs d) \<and>
    delivered view (base_ns @ c) (fold manage ocs d) = delivered view (base_ns @ c) d \<union>
      {n. \<exists>p. Completed p \<in> set ocs \<and> dest_of p = c \<and> n = p_sequence p} \<and>
    waiting view (retry_ns @ c) (fold manage ocs d) = waiting view (retry_ns @ c) d \<union>
      {n. \<exists>p. Retry p \<in> set ocs \<and> dest_of p = c \<and> n = p_sequence p}"
  using assms
proof (induction ocs arbitrary: d)
  case (Cons oc ocs)
  have step: "ns_open view base_ns retry_ns C (manage oc d)"
    "delivered view (base_ns @ c) (manage oc d) = delivered view (base_ns @ c) d \<union> {n. \<exists>p. oc = Completed p \<and> dest_of p = c \<and> n = p_sequence p}"
    "waiting view (retry_ns @ c) (manage oc d) = waiting view (retry_ns @ c) d \<union> {n. \<exists>p. oc = Retry p \<and> dest_of p = c \<and> n = p_sequence p}"
    using manage_step [OF Cons.prems(1), of oc c] Cons.prems(2) by auto
  then show ?case using Cons.IH [OF step(1)] Cons.prems(2) by auto
qed simp

end

text \<open>Both clients meet the contract over every reliable database.\<close>

lemma eth_recorder:
  assumes "bbolt_reliable B view"
  shows "outcome_recorder (\<lambda>oc d. fst (eth_managePacket B an oc d)) view
    eth_baseSeqNumNameSpacePrefix eth_retryPacketNamespacePrefix p_height"
proof
  fix d p m
  assume "view d (eth_baseSeqNumNameSpacePrefix @ dest_of p) = Some m" "base_ok m"
  from bbolt_reliable.StoreBaseSeqNum_effect [OF assms this, of "p_sequence p" "p_height p"]
  show "\<exists>m'. view (fst (eth_managePacket B an (Completed p) d)) =
      (view d)(eth_baseSeqNumNameSpacePrefix @ dest_of p \<mapsto> m') \<and> base_ok m' \<and>
      base_map m' = (base_map m)(p_sequence p \<mapsto> p_height p)"
    by (auto simp: dest_of_def)
next
  fix d p m
  assume m: "view d (eth_retryPacketNamespacePrefix @ dest_of p) = Some m" "retry_ok m" and "storable p"
  then have "ascii_packet p" "length (marshal_packet p) \<le> 2147483646" by (simp_all add: storable_def)
  from StoreRetryPacket_effect [OF assms m this]
  show "\<exists>m'. view (fst (eth_managePacket B an (Retry p) d)) =
      (view d)(eth_retryPacketNamespacePrefix @ dest_of p \<mapsto> m') \<and> retry_ok m' \<and>
      retry_map m' = (retry_map m)(p_sequence p \<mapsto> SetMissed p False)"
    by (auto simp: dest_of_def)
qed (simp_all add: eth_baseSeqNumNameSpacePrefix_def eth_retryPacketNamespacePrefix_def)

lemma aleo_recorder:
  assumes "bbolt_reliable B view"
  shows "outcome_recorder (\<lambda>oc d. fst (aleo_managePacket B an oc d)) view
    aleo_baseSeqNumNameSpacePrefix aleo_retryPacketNamespacePrefix (\<lambda>p. 0)"
proof
  fix d p m
  assume "view d (aleo_baseSeqNumNameSpacePrefix @ dest_of p) = Some m" "base_ok m"
  from bbolt_reliable.StoreBaseSeqNum_effect [OF assms this, of "p_sequence p" 0]
  show "\<exists>m'. view (fst (aleo_managePacket B an (Completed p) d)) =
      (view d)(aleo_baseSeqNumNameSpacePrefix @ dest_of p \<mapsto> m') \<and> base_ok m' \<and>
      base_map m' = (base_map m)(p_sequence p \<mapsto> 0)"
    by (auto simp: dest_of_def)
next
  fix d p m
  assume m: "view d (aleo_retryPacketNamespacePrefix @ dest_of p) = Some m" "retry_ok m" and "storable p"
  then have "ascii_packet p" "length (marshal_packet p) \<le> 2147483646" by (simp_all add: storable_def)
  from StoreRetryPacket_effect [OF assms m this]
  show "\<exists>m'. view (fst (aleo_managePacket B an (Retry p) d)) =
      (view d)(aleo_retryPacketNamespacePrefix @ dest_of p \<mapsto> m') \<and> retry_ok m' \<and>
      retry_map m' = (retry_map m)(p_sequence p \<mapsto> SetMissed p False)"
    by (auto simp: dest_of_def)
qed (simp_all add: aleo_baseSeqNumNameSpacePrefix_def aleo_retryPacketNamespacePrefix_def)

interpretation eth_rec: outcome_recorder "\<lambda>oc d. fst (eth_managePacket mem_bolt an oc d)" mem_view
  eth_baseSeqNumNameSpacePrefix eth_retryPacketNamespacePrefix p_height for an
  by (rule eth_recorder [OF mem.bbolt_reliable_axioms])

interpretation aleo_rec: outcome_recorder "\<lambda>oc d. fst (aleo_managePacket mem_bolt an oc d)" mem_view
  aleo_baseSeqNumNameSpacePrefix aleo_retryPacketNamespacePrefix "\<lambda>p. 0" for an
  by (rule aleo_recorder [OF mem.bbolt_reliable_axioms])

text \<open>
  C27. The Ethereum client loses no outcome. On a reliable database whose namespaces are open, after
  any sequence of completed and failed packets to supported destinations, in any order, the numbers
  recorded as delivered to a destination are those recorded before and those of the completed
  packets, the numbers waiting for another attempt are those waiting before and those of the failed
  ones, and the namespaces are well formed.
\<close>

theorem eth_outcomes_recorded:
  assumes "bbolt_reliable B view"
    and "ns_open view eth_baseSeqNumNameSpacePrefix eth_retryPacketNamespacePrefix C d"
    and "\<forall>oc \<in> set ocs. dest_of (outcome_packet oc) \<in> C \<and> storable (outcome_packet oc)"
  shows "let d' = fold (\<lambda>oc d. fst (eth_managePacket B an oc d)) ocs d in
    ns_open view eth_baseSeqNumNameSpacePrefix eth_retryPacketNamespacePrefix C d' \<and>
    delivered view (eth_baseSeqNumNameSpacePrefix @ c) d' = delivered view (eth_baseSeqNumNameSpacePrefix @ c) d \<union>
      {n. \<exists>p. Completed p \<in> set ocs \<and> dest_of p = c \<and> n = p_sequence p} \<and>
    waiting view (eth_retryPacketNamespacePrefix @ c) d' = waiting view (eth_retryPacketNamespacePrefix @ c) d \<union>
      {n. \<exists>p. Retry p \<in> set ocs \<and> dest_of p = c \<and> n = p_sequence p}"
  using outcome_recorder.outcomes_recorded [OF eth_recorder [OF assms(1)] assms(2,3)] by (simp add: Let_def)

definition eth_db :: memdb where
  "eth_db = [(''ethereum_bsns2'', []), (''ethereum_rpns2'', [])]"

lemma eth_db_open:
  "ns_open mem_view eth_baseSeqNumNameSpacePrefix eth_retryPacketNamespacePrefix {''2''} eth_db"
  by (simp add: ns_open_def mem_view_def eth_db_def eth_baseSeqNumNameSpacePrefix_def
      eth_retryPacketNamespacePrefix_def base_ok_def retry_ok_def)

lemma sample_storable: "storable sample_packet"
  using sample_ascii sample_length by (simp add: storable_def)

lemma sample_dest: "dest_of sample_packet = ''2''"
  by (simp add: dest_of_def sample_packet_def bigint_str_def itoa_int_def itoa.simps digit_char_def
      char_of_eq_iff take_bit_eq_mod)

theorem eth_outcomes_recorded_witness:
  "7 \<in> delivered mem_view ''ethereum_bsns2''
     (fold (\<lambda>oc d. fst (eth_managePacket mem_bolt ''a'' oc d)) [Retry sample_packet, Completed sample_packet] eth_db)"
  using eth_outcomes_recorded [OF mem.bbolt_reliable_axioms, OF eth_db_open,
      of "[Retry sample_packet, Completed sample_packet]" "''a''" "''2''"]
    sample_storable sample_dest
  by (auto simp: Let_def eth_baseSeqNumNameSpacePrefix_def sample_packet_def)

end
