(* ===== verification/RelayProps.thy ===== *)
theory RelayProps
  imports Relay ClientProps
begin

text \<open>
  What the relay promises for one packet: it is handed back to its source chain exactly once, as
  completed when the collector has its signature and to be retried otherwise, and a retried packet
  keeps its screening result.
\<close>

section \<open>Screening\<close>

text \<open>
  The contract of a screener over a database: while its namespace is there it answers, a result
  that was stored is the one of the next screening of that packet, and no other namespace changes.
\<close>

locale screening =
  fixes screen :: "packet \<Rightarrow> 'd \<Rightarrow> bool res \<times> 'd" and store_white :: "packet \<Rightarrow> bool \<Rightarrow> 'd \<Rightarrow> unit res \<times> 'd"
    and view :: "'d \<Rightarrow> string \<Rightarrow> (bytes \<rightharpoonup> bytes) option" and screen_ns :: string
  assumes screen_answers: "view d screen_ns \<noteq> None \<Longrightarrow> \<exists>w d'. screen p d = (Inr w, d') \<and>
      view d' screen_ns \<noteq> None \<and> (\<forall>ns. ns \<noteq> screen_ns \<longrightarrow> view d' ns = view d ns)"
    and store_answers: "view d screen_ns \<noteq> None \<Longrightarrow> \<exists>d'. store_white p w d = (Inr (), d') \<and>
      view d' screen_ns \<noteq> None \<and> (\<forall>ns. ns \<noteq> screen_ns \<longrightarrow> view d' ns = view d ns)"
    and screen_stored: "view d screen_ns \<noteq> None \<Longrightarrow> store_white p w d = (Inr (), d') \<Longrightarrow> fst (screen p d') = Inr w"
begin

lemma store_then_screen:
  assumes "view d screen_ns \<noteq> None"
  shows "\<exists>d' d''. store_white p w d = (Inr (), d') \<and> screen p d' = (Inr w, d'') \<and> view d'' screen_ns \<noteq> None"
proof -
  obtain d' where d': "store_white p w d = (Inr (), d')" "view d' screen_ns \<noteq> None"
    using store_answers [OF assms] by blast
  obtain w' d'' where "screen p d' = (Inr w', d'')" "view d'' screen_ns \<noteq> None"
    using screen_answers [OF d'(2)] by blast
  then show ?thesis using d' screen_stored [OF assms d'(1)] by fastforce
qed

end

lemma hash_key [simp]:
  "bytes_of_string (GetSha256Hash p) \<noteq> []" "length (bytes_of_string (GetSha256Hash p)) \<le> 32768"
  using length_GetSha256Hash [of p] by (auto simp flip: length_greater_0_conv)

lemma screen_value_size: "length (bytes_of_string (screenValue w)) \<le> 2147483646"
  by (cases w) (simp_all add: screenValue_def)

lemma screenValue_inj [simp]: "screenValue True = screenValue w \<longleftrightarrow> w"
  by (simp add: screenValue_def)

lemma screener_contract:
  assumes "bbolt_reliable B view"
  shows "screening (Screen B) (screen_StoreWhiteStatus B) view screen_namespace"
proof
  note bb = bbolt_reliable.axioms(1) [OF assms]
  fix d p
  assume "view d screen_namespace \<noteq> None"
  then obtain m where m: "view d screen_namespace = Some m" by blast
  let ?k = "bytes_of_string (GetSha256Hash p)"
  show "\<exists>w d'. Screen B p d = (Inr w, d') \<and> view d' screen_namespace \<noteq> None \<and>
      (\<forall>ns. ns \<noteq> screen_namespace \<longrightarrow> view d' ns = view d ns)"
  proof (cases "m ?k")
    case None
    then have "getAndDelete B screen_namespace ?k d = (Inl (ErrMsg ''key does not exist''), d)"
      by (rule bbolt.getAndDelete_absent [OF bb m])
    then have "Screen B p d = (Inr True, d)" by (simp add: Screen_def GetAndDeleteWhiteStatus_def)
    then show ?thesis using m by (intro exI [of _ True] exI [of _ d]) simp
  next
    case (Some v)
    then obtain d' where "getAndDelete B screen_namespace ?k d = (Inr v, d')"
      "view d' = (view d)(screen_namespace \<mapsto> m(?k := None))"
      using bbolt_reliable.getAndDelete_succeeds [OF assms m] by blast
    then show ?thesis by (simp add: Screen_def GetAndDeleteWhiteStatus_def)
  qed
next
  fix d p w
  assume "view d screen_namespace \<noteq> None"
  then obtain m where m: "view d screen_namespace = Some m" by blast
  show "\<exists>d'. screen_StoreWhiteStatus B p w d = (Inr (), d') \<and> view d' screen_namespace \<noteq> None \<and>
      (\<forall>ns. ns \<noteq> screen_namespace \<longrightarrow> view d' ns = view d ns)"
    using bbolt_reliable.put_succeeds [OF assms m hash_key(1) hash_key(2) screen_value_size, of p w]
    by (auto simp: screen_StoreWhiteStatus_def StoreWhiteStatus_def)
next
  fix d p w d'
  assume "view d screen_namespace \<noteq> None" and st: "screen_StoreWhiteStatus B p w d = (Inr (), d')"
  then obtain m where m: "view d screen_namespace = Some m" by blast
  let ?k = "bytes_of_string (GetSha256Hash p)" and ?v = "bytes_of_string (screenValue w)"
  have "view d' = (view d)(screen_namespace \<mapsto> m(?k \<mapsto> ?v))"
    using bbolt_reliable.put_succeeds [OF assms m hash_key(1) hash_key(2) screen_value_size, of p w] st
    by (auto simp: screen_StoreWhiteStatus_def StoreWhiteStatus_def)
  then have v: "view d' screen_namespace = Some (m(?k \<mapsto> ?v))" by simp
  obtain d2 where "getAndDelete B screen_namespace ?k d' = (Inr ?v, d2)"
    using bbolt_reliable.getAndDelete_succeeds [OF assms v fun_upd_same] by blast
  then show "fst (Screen B p d') = Inr w" by (simp add: Screen_def GetAndDeleteWhiteStatus_def)
qed

interpretation mem_screen: screening "Screen mem_bolt" "screen_StoreWhiteStatus mem_bolt" mem_view screen_namespace
  by (rule screener_contract [OF mem.bbolt_reliable_axioms])

section \<open>One packet\<close>

text \<open>The outcomes that a list of effects hands to the chains.\<close>

definition handed :: "effect list \<Rightarrow> (string \<times> outcome) list" where
  "handed es = concat (map (\<lambda>e. case e of
     ERetry n p \<Rightarrow> [(n, Retry p)] | ECompleted n p \<Rightarrow> [(n, Completed p)] | _ \<Rightarrow> []) es)"

lemma handed_simps [simp]:
  "handed [] = []" "handed (ERetry n p # es) = (n, Retry p) # handed es"
  "handed (ECompleted n p # es) = (n, Completed p) # handed es" "handed (EMetric c # es) = handed es"
  by (simp_all add: handed_def)

text \<open>The signature of the packet is with the collector.\<close>

definition accepted :: "'d relay \<Rightarrow> screened_packet \<Rightarrow> bool" where
  "accepted R sp \<longleftrightarrow> (\<exists>h s. rl_HashAndSignScreenedPacket R sp = Inr (h, s) \<and>
     rl_SendToCollector R sp h s \<in> {Inr (), Inl AlreadyRelayedPacket})"

definition no_panic :: "'d relay \<Rightarrow> bool" where
  "no_panic R \<longleftrightarrow> (\<forall>sp e. rl_HashAndSignScreenedPacket R sp = Inl e \<longrightarrow> \<not> is_panic e) \<and>
     (\<forall>sp h s e. rl_SendToCollector R sp h s = Inl e \<longrightarrow> \<not> is_panic e)"

definition outcome_of :: "'d relay \<Rightarrow> packet \<Rightarrow> bool \<Rightarrow> outcome" where
  "outcome_of R p w = (if accepted R \<lparr>sp_packet = p, sp_is_white = w\<rparr> then Completed p else Retry p)"

lemma post_process_handed:
  assumes "name \<in> set RegisteredChannels" and "rl_StoreWhiteStatus R p w d = (Inr (), d')"
  shows "post_process R name p w err d =
    (Inr (), if IsMissed p then [] else case err of None \<Rightarrow> [ECompleted name p] | Some e \<Rightarrow> [ERetry name p],
     if IsMissed p \<or> err = None then d else d')"
  using assms by (simp add: post_process_def split: option.splits)

lemma sign_and_send_handed:
  assumes "name \<in> set RegisteredChannels" and "no_panic R" and "rl_StoreWhiteStatus R p w d = (Inr (), d')"
  shows "\<exists>es. sign_and_send an R name p w d = (Inr (), es, if IsMissed p \<or> accepted R \<lparr>sp_packet = p, sp_is_white = w\<rparr> then d else d') \<and>
    handed es = (if IsMissed p then [] else [(name, outcome_of R p w)])"
proof -
  let ?sp = "\<lparr>sp_packet = p, sp_is_white = w\<rparr>"
  note post = post_process_handed [OF assms(1,3)]
  show ?thesis
  proof (cases "rl_HashAndSignScreenedPacket R ?sp")
    case (Inl e)
    then have "\<not> is_panic e" "\<not> accepted R ?sp" using assms(2) by (auto simp: no_panic_def accepted_def)
    then show ?thesis using Inl by (simp add: sign_and_send_def post outcome_of_def Let_def)
  next
    case (Inr hs)
    obtain h s where hs: "hs = (h, s)" by fastforce
    show ?thesis
    proof (cases "rl_SendToCollector R ?sp h s")
      case (Inl e)
      then have "\<not> is_panic e" using assms(2) by (auto simp: no_panic_def)
      moreover have "accepted R ?sp \<longleftrightarrow> e = AlreadyRelayedPacket" using Inl Inr hs by (auto simp: accepted_def)
      ultimately show ?thesis
        using Inl Inr hs
        by (auto simp: sign_and_send_def post outcome_of_def after_effects_def is_already_relayed_def Let_def)
    next
      case (Inr u)
      then have "accepted R ?sp" using \<open>rl_HashAndSignScreenedPacket R ?sp = Inr hs\<close> hs by (auto simp: accepted_def)
      then show ?thesis
        using Inr \<open>rl_HashAndSignScreenedPacket R ?sp = Inr hs\<close> hs
        by (simp add: sign_and_send_def post outcome_of_def after_effects_def Let_def)
    qed
  qed
qed



definition fresh_packet :: packet where
  "fresh_packet = SetMissed sample_packet False"

lemma fresh_not_missed: "\<not> IsMissed fresh_packet"
  by (simp add: IsMissed_def fresh_packet_def SetMissed_def)

definition relay_db :: memdb where
  "relay_db = [(''walletScreeningNS'', []), (''ethereum_bsns2'', []), (''ethereum_rpns2'', [])]"

lemma relay_db_screen: "mem_view relay_db screen_namespace \<noteq> None"
  by (simp add: relay_db_def mem_view_def screen_namespace_def)

definition sample_chains :: "string \<rightharpoonup> chain_client" where
  "sample_chains = (\<lambda>c. Some (AleoChain sample_aleo))"

text \<open>Services that sign everything; the collector takes what passed screening.\<close>

definition sample_relay :: "memdb relay" where
  "sample_relay =
     \<lparr>rl_Screen = Screen mem_bolt, rl_StoreWhiteStatus = screen_StoreWhiteStatus mem_bolt,
      rl_HashAndSignScreenedPacket = (\<lambda>sp. Inr (''h'', ''s'')),
      rl_SendToCollector = (\<lambda>sp h s. if sp_is_white sp then Inr () else Inl TimeOutErr)\<rparr>"

lemma sample_relay_ok: "rl_Screen sample_relay = Screen mem_bolt"
  "rl_StoreWhiteStatus sample_relay = screen_StoreWhiteStatus mem_bolt" "no_panic sample_relay"
  by (auto simp: sample_relay_def no_panic_def split: if_splits)



definition refusing_relay :: "memdb relay" where
  "refusing_relay = sample_relay\<lparr>rl_SendToCollector := (\<lambda>sp h s. Inl TimeOutErr)\<rparr>"


end
