(* ===== verification/Attestation.thy ===== *)
theory Attestation
  imports SignProps RelayProps
begin

text \<open>
  The two services together: the requests of \<open>chainService/relay/signer\<close> are answered by the
  handlers of \<open>signingService\<close>, so that what the relay hands to the collector is what the bridge
  contract checks.
\<close>

section \<open>The signing service as the server of the relay\<close>

text \<open>
  \<open>net/http\<close> carries the user part of the URL as basic authentication. A handler that panics ends
  the connection, which the client sees as an error.
\<close>

definition sign_server :: "'k sign_env \<Rightarrow> 'k sign_state \<Rightarrow> http_env" where
  "sign_server V st =
     \<lparr>he_Parse = (\<lambda>s. Inl (ErrLib ''parse'')),
      he_Do = (\<lambda>rq.
        case registerHandlers V st (u_Path (hr_URL rq))
               \<lparr>sr_Method = hr_Method rq, sr_BasicAuth = u_User (hr_URL rq), sr_Body = Inr (hr_Body rq)\<rparr> of
          Inl e \<Rightarrow> Inl (ErrLib ''EOF'')
        | Inr r \<Rightarrow> Inr \<lparr>hp_Status = int (sp_Status r), hp_Body = bytes_of_string (sp_Body r), hp_ReadErr = None\<rparr>)\<rparr>"

definition signs_with :: "sign_config \<Rightarrow> sign_service \<Rightarrow> bool" where
  "signs_with cfg s \<longleftrightarrow> u_Path (sv_url s) = ''/sign'' \<and>
     u_User (sv_url s) = Some (sc_username (sg_Cred cfg), sc_password (sg_Cred cfg))"

lemma read_sign_answer:
  assumes "ascii h" and "ascii g"
  shows "(case unmarshal_string_map (sign_answer h g) of Inl e \<Rightarrow> Inl e | Inr m \<Rightarrow> read_answer m) = Inr (h, g)"
proof -
  let ?j = "JObj [(hashField, JStr h), (signatureField, JStr g)]"
  have "parse_json (print_json ?j) = Some ?j"
    using assms by (intro parse_print) (simp_all add: hashField_def signatureField_def max_depth_def)
  then show ?thesis
    by (simp add: sign_answer_def unmarshal_string_map_def read_answer_def hashField_def signatureField_def
        sg_hashField_def sg_signatureField_def)
qed

lemma client_of_server:
  assumes "ss_cfg st = Some cfg" and "signs_with cfg s"
  shows "HashAndSignScreenedPacket (sign_server V st) s sp =
    (case HashAndSign V st (marshal_screened sp) of
       Inl e \<Rightarrow> if is_panic e then Inl (ErrLib ''EOF'') else Inl (status_error 200 400)
     | Inr (h, g) \<Rightarrow> (case unmarshal_string_map (sign_answer h g) of Inl e \<Rightarrow> Inl e | Inr m \<Rightarrow> read_answer m))"
  using assms
  by (auto simp: HashAndSignScreenedPacket_def sign_server_def registerHandlers_def sign_handler_def signs_with_def
      GetUsernamePassword_def http_POST_def MethodPost_def bad_request_def StatusBadRequest_def StatusOK_def
      split: sum.splits prod.splits)

text \<open>
  The client and the signing service agree. When the URL of the client carries the configured
  credentials, it returns the hash and the signature that the service computed for the packet and
  its screening result, the flag of a missed packet apart, as long as both are ASCII; when the
  service fails or panics, the client returns an error and does not panic.
\<close>

theorem signer_agrees_with_service:
  assumes "ss_cfg st = Some cfg" and "signs_with cfg s" and "ascii_packet (sp_packet sp)"
    and "ss_chainIDToName st (bigint_str (na_chain_id (p_destination (sp_packet sp)))) = Some chainName"
    and "\<forall>h g. result = Inr (h, g) \<longrightarrow> ascii h \<and> ascii g"
    and "sign_destination V st chainName
      \<lparr>spp_packet = Some (SetMissed (sp_packet sp) False), spp_is_white = sp_is_white sp\<rparr> = result"
  shows "case result of
      Inr hg \<Rightarrow> HashAndSignScreenedPacket (sign_server V st) s sp = Inr hg
    | Inl e \<Rightarrow> \<exists>e'. HashAndSignScreenedPacket (sign_server V st) s sp = Inl e' \<and> \<not> is_panic e'"
proof -
  have "HashAndSign V st (marshal_screened sp) = result"
    using HashAndSign_marshalled [OF assms(3), of V st] assms(4,6) by (simp add: Let_def)
  then show ?thesis
    using client_of_server [OF assms(1,2), of V sp] read_sign_answer assms(5)
    by (cases result) (auto simp: status_error_def split: if_splits)
qed

definition sample_service :: sign_service where
  "sample_service = \<lparr>sv_url = \<lparr>u_Scheme = ''http'', u_User = Some (''user'', ''secret''), u_Host = ''h:1'',
     u_Path = ''/sign'', u_RawQuery = []\<rparr>\<rparr>"

lemma sample_signs: "ss_cfg sample_sign_state = Some sample_sign_config" "signs_with sample_sign_config sample_service"
  by (simp_all add: sample_sign_state_def fresh_sign_state_def signs_with_def sample_service_def sample_sign_config_def)

lemma aleo_bound_destination:
  "ss_chainIDToName sample_sign_state (bigint_str (na_chain_id (p_destination aleo_bound_packet))) = Some ''aleo''"
proof -
  have "bigint_str (na_chain_id (p_destination aleo_bound_packet)) = ''2''"
    by (simp add: aleo_bound_packet_def itoa_one_two)
  then show ?thesis by (simp add: sample_sign_state_def)
qed

theorem signer_agrees_with_service_witness:
  "HashAndSignScreenedPacket (sign_server sample_env sample_sign_state) sample_service
     \<lparr>sp_packet = aleo_bound_packet, sp_is_white = True\<rparr> = Inr (''field'', ''field'')"
proof -
  have "sign_destination sample_env sample_sign_state ''aleo''
      \<lparr>spp_packet = Some (SetMissed aleo_bound_packet False), spp_is_white = True\<rparr> = Inr (''field'', ''field'')"
    by (simp add: sign_destination_def aleo_HashAndSign_def aleo_hash_def aleo_sign_def sample_env_def
        Aleo_def hashOutput_def)
  then show ?thesis
    using signer_agrees_with_service [OF sample_signs, of "\<lparr>sp_packet = aleo_bound_packet, sp_is_white = True\<rparr>"
        "''aleo''" "Inr (''field'', ''field'')" sample_env] aleo_bound_ascii aleo_bound_destination
    by simp
qed

section \<open>From the relay to the contract\<close>

text \<open>
  C2. What the relay hands to the collector is what the contract checks. For a packet to an
  Ethereum destination that passed screening, with 256-bit amount and chain identifiers and ASCII
  addresses, the hash and signature the relay receives are the text of the digest from which the
  contract recovers the signer of a positive vote, and the signature of that digest under the
  service's key.
\<close>

theorem attestation_reaches_contract:
  assumes "eth_hashing (se_crypto V) (se_common V)" and "ss_cfg st = Some cfg" and "signs_with cfg s"
    and "ascii_packet p" and "uint256_packet p"
    and "ss_chainIDToName st (bigint_str (na_chain_id (p_destination p))) = Some ''ethereum''"
    and "digest = recover_digest (kec (se_crypto V)) (sol_hash (kec (se_crypto V)) (to_contract (se_common V) p)) YEA"
    and "crypto_Sign (se_crypto V) digest (ss_pKey st) = Inr b"
  shows "HashAndSignScreenedPacket (sign_server V st) s \<lparr>sp_packet = p, sp_is_white = True\<rparr> =
    Inr (Hash_Hex (se_crypto V) digest, ''0x'' @ hex_encode b)"
proof -
  let ?q = "SetMissed p False" and ?C = "se_crypto V" and ?E = "se_common V"
  have q: "uint256_packet ?q" "to_contract ?E ?q = to_contract ?E p"
    using assms(5) by (simp_all add: uint256_packet_def SetMissed_def to_contract_def)
  have "eth_hash ?C ?E \<lparr>spp_packet = Some ?q, spp_is_white = True\<rparr> = Inr (Hash_Hex ?C digest)"
    using eth_hashing.eth_hash_digest [OF assms(1) q(1), of True] by (simp add: q(2) assms(7) vote_of_def)
  moreover have "HexToHash ?C (Hash_Hex ?C digest) = digest"
    using eth_hashing.HexToHash_kec [OF assms(1)] by (simp add: assms(7) recover_digest_def)
  ultimately have "sign_destination V st ''ethereum'' \<lparr>spp_packet = Some ?q, spp_is_white = True\<rparr> =
      Inr (Hash_Hex ?C digest, ''0x'' @ hex_encode b)"
    using assms(8) by (simp add: sign_destination_def Aleo_def Ethereum_def eth_HashAndSign_def eth_sign_def)
  then have "HashAndSign V st (marshal_screened \<lparr>sp_packet = p, sp_is_white = True\<rparr>) =
      Inr (Hash_Hex ?C digest, ''0x'' @ hex_encode b)"
    using HashAndSign_marshalled [of "\<lparr>sp_packet = p, sp_is_white = True\<rparr>" V st] assms(4,6) by (simp add: Let_def)
  moreover have "ascii (Hash_Hex ?C digest)" "ascii (''0x'' @ hex_encode b)"
    using eth_hashing.hash_ascii [OF assms(1)] by simp_all
  ultimately show ?thesis
    using client_of_server [OF assms(2,3), of V "\<lparr>sp_packet = p, sp_is_white = True\<rparr>"] read_sign_answer by simp
qed

lemma attested_ascii: "ascii_packet attested_packet"
  by (simp add: ascii_packet_def ascii_address_def ascii_message_def ascii_def in_range_def attested_packet_def)

theorem attestation_reaches_contract_witness:
  "\<exists>d. HashAndSignScreenedPacket (sign_server sample_env sample_sign_state) sample_service
     \<lparr>sp_packet = attested_packet, sp_is_white = True\<rparr> = Inr (Hash_Hex sample_crypto d, ''0x'' @ hex_encode (d @ d @ [27]))"
proof -
  let ?d = "recover_digest (kec sample_crypto) (sol_hash (kec sample_crypto) (to_contract sample_common attested_packet)) YEA"
  have "bigint_str (na_chain_id (p_destination attested_packet)) = ''1''"
    by (simp add: attested_packet_def itoa_one_two)
  then have c: "ss_chainIDToName sample_sign_state (bigint_str (na_chain_id (p_destination attested_packet))) = Some ''ethereum''"
    by (simp add: sample_sign_state_def)
  have e: "eth_hashing (se_crypto sample_env) (se_common sample_env)" using sample_hashing by (simp add: sample_env_def)
  have k: "crypto_Sign (se_crypto sample_env) ?d (ss_pKey sample_sign_state) = Inr (?d @ ?d @ [27])"
    by (simp add: sample_env_def sample_crypto_def go_crypto_def sample_sign_state_def fresh_sign_state_def)
  have d: "?d = recover_digest (kec (se_crypto sample_env))
      (sol_hash (kec (se_crypto sample_env)) (to_contract (se_common sample_env) attested_packet)) YEA"
    by (simp add: sample_env_def)
  from attestation_reaches_contract [OF e sample_signs attested_ascii attested_uint256 c d k] show ?thesis
    by (auto simp: sample_env_def)
qed

end
