(* ===== verification/Proxy.thy ===== *)
theory Proxy
  imports Http Packets
begin

text \<open>
  \<open>proxy/main.go\<close>: the server that stands in for the Aleo node and the collector while the relay is
  benchmarked, and forwards to a remote server otherwise. The reverse proxy of \<open>net/http/httputil\<close>,
  \<open>url.Parse\<close> and the listening socket are arguments. A request is its URL as \<open>URL.String\<close> prints it.
\<close>

record proxy_reply =
  pr_Header :: "(string \<times> string) list"
  pr_Status :: nat
  pr_Body :: string

text \<open>A reply that a handler does not write has status 200 and no body.\<close>

definition written :: "nat \<Rightarrow> string \<Rightarrow> proxy_reply" where
  "written status body = \<lparr>pr_Header = [], pr_Status = status, pr_Body = body\<rparr>"

section \<open>serveHttp\<close>

definition proxy_replacer :: "string \<Rightarrow> string" where
  "proxy_replacer = replacer [(''sequence:'', []), (''u64'', []), (''%7D'', [])]"

definition modelEthAddress :: string where
  "modelEthAddress =
     ''[ 0u8, 0u8, 0u8, 0u8, 0u8, 0u8, 0u8, 0u8, 0u8, 0u8, 0u8, 0u8, 20u8, 119u8, 159u8, 153u8, 43u8, '' @
     ''47u8, 44u8, 66u8, 184u8, 102u8, 15u8, 250u8, 66u8, 219u8, 203u8, 60u8, 124u8, 153u8, 48u8, 176u8 ]''"

definition modelAleoAddress :: string where
  "modelAleoAddress = ''aleo1fcg4k0sacadavag292p7x9ggm6889aay6wn9m8ftnmynh67cg5xsx8ycu8''"

text \<open>The text of the packet, in which a line break is a backslash and the letter n.\<close>

definition nl :: string where "nl = [CHR 0x5C, CHR ''n'']"

definition bench_packet_text :: "int \<Rightarrow> string" where
  "bench_packet_text seqInt =
     ''{'' @ nl @ ''  version: '' @ itoa_int 0 @ ''u8,'' @ nl @ ''  sequence: '' @ itoa_int seqInt @ ''u64 ,'' @ nl @ ''  '' @
     ''source: {'' @ nl @ ''    chain_id: '' @ itoa_int 6694886634403 @ ''u128,'' @ nl @ ''    addr: '' @ modelAleoAddress @
       nl @ ''  },'' @ nl @ ''  '' @
     ''destination: {'' @ nl @ ''    chain_id: '' @ itoa_int 28556963657430695 @ ''u128,'' @ nl @ ''    addr: '' @
       modelEthAddress @ ''},'' @ nl @ ''  '' @
     ''message: {'' @ nl @ ''        sender_address: '' @ modelAleoAddress @ '','' @ nl @ ''  dest_token_address: '' @
       modelEthAddress @ '','' @ nl @ ''  amount: '' @ ''100'' @ ''u128,'' @ nl @ ''  receiver_address: '' @ modelEthAddress @
       nl @ ''     },'' @ nl @ ''  '' @
     ''height: '' @ itoa_int 105 @ ''u64'' @ nl @ ''}''"

definition serveHttp :: "string \<Rightarrow> proxy_reply res" where
  "serveHttp url =
     (if url = ''/testnet/latest/height'' then Inr (written 200 ''1000'')
      else if str_contains url ''collector'' then Inr (written 201 ''100'')
      else (case go_split CHR '','' (last (go_split CHR ''/'' url)) of
              _ # key # _ \<Rightarrow>
                (case parse_int64 (proxy_replacer key) of
                   None \<Rightarrow> Inr (written 200 [])
                 | Some seqInt \<Rightarrow> Inr (written 200 (bench_packet_text seqInt)))
            | _ \<Rightarrow> Inl index_range))"

section \<open>main\<close>

text \<open>The handler sets a header first. A reverse proxy is given the host of the remote server.\<close>

definition proxy_handler :: "bool \<Rightarrow> url \<Rightarrow> (string \<Rightarrow> string \<Rightarrow> proxy_reply res) \<Rightarrow> string \<Rightarrow> proxy_reply res" where
  "proxy_handler benchMark remote p_ServeHTTP url =
     (case (if benchMark then serveHttp url else p_ServeHTTP (u_Host remote) url) of
        Inl e \<Rightarrow> Inl e
      | Inr w \<Rightarrow> Inr (w\<lparr>pr_Header := (''X-Ben'', ''Rad'') # pr_Header w\<rparr>))"

text \<open>The program runs until it panics; \<open>listen\<close> serves a handler on an address.\<close>

definition proxy_main ::
    "(string \<Rightarrow> url res) \<Rightarrow> (url \<Rightarrow> string \<Rightarrow> string \<Rightarrow> proxy_reply res) \<Rightarrow>
     (string \<Rightarrow> (string \<Rightarrow> proxy_reply res) \<Rightarrow> unit res) \<Rightarrow> string \<Rightarrow> string \<Rightarrow> bool \<Rightarrow> unit res" where
  "proxy_main parse newSingleHostReverseProxy listen remoteUrl port benchMark =
     (if remoteUrl = [] \<or> port = [] then Inl (Panic ''flag: help requested'')
      else (case parse remoteUrl of
              Inl e \<Rightarrow> Inl (Panic (error_text e))
            | Inr remote \<Rightarrow>
                (case listen ('':'' @ port) (proxy_handler benchMark remote (newSingleHostReverseProxy remote)) of
                   Inl e \<Rightarrow> Inl (Panic (error_text e))
                 | Inr u \<Rightarrow> Inr ())))"

end
