(* ===== verification/ProxyProps.thy ===== *)
theory ProxyProps
  imports Proxy RelayProps
begin

text \<open>
  The Aleo client in front of the benchmark server of \<open>proxy/main.go\<close>, and the progress of the
  client's feed in front of any server that answers.
\<close>

section \<open>Trimming\<close>

lemma trim_nil [simp]: "trim [] = []"
  by (simp add: trim_def)

lemma trim_nl [simp]: "trim (nl @ s) = trim s"
  by (simp add: trim_def nl_def)

lemma trim_char: "c \<noteq> CHR 0x5C \<Longrightarrow> trim (c # s) = (if trimmed_char c then trim s else c # trim s)"
  by (auto simp: trim_def trimmed_char_def)

lemma trim_plain:
  "CHR 0x5C \<notin> set w \<Longrightarrow> trim (w @ s) = filter (\<lambda>c. \<not> trimmed_char c) w @ trim s"
  by (induction w) (auto simp: trim_char)

section \<open>The packet of the benchmark\<close>

definition model_bytes :: bytes where
  "model_bytes = [20, 119, 159, 153, 43, 47, 44, 66, 184, 102, 15, 250, 66, 219, 203, 60, 124, 153, 48, 176]"

lemma modelEthAddress_array: "modelEthAddress = ''[ '' @ go_join '', '' (aleo_array (padded model_bytes)) @ '' ]''"
  by code_simp

lemma trim_clean: "clean w \<Longrightarrow> trim (w @ s) = w @ trim s"
  by (simp add: trim_plain clean_no_sep clean_filter)

lemma trim_model: "trim (modelEthAddress @ s) = go_join '','' (aleo_array (padded model_bytes)) @ trim s"
proof -
  have ok: "\<forall>w \<in> set (aleo_array (padded model_bytes)). clean w" using array_words by blast
  have "CHR 0x5C \<notin> set modelEthAddress" using join_backslash [OF ok] by (simp add: modelEthAddress_array)
  then have "trim (modelEthAddress @ s) = filter (\<lambda>c. \<not> trimmed_char c) modelEthAddress @ trim s" by (rule trim_plain)
  then show ?thesis by (simp add: modelEthAddress_array filter_join [OF ok])
qed

lemma clean_modelAleoAddress: "clean modelAleoAddress"
  by (simp add: clean_def trimmed_char_def modelAleoAddress_def)

text \<open>The packet that the client reads from the server's answer.\<close>

definition bench_packet :: "eth_common \<Rightarrow> u64 \<Rightarrow> packet" where
  "bench_packet E n =
     (let a = Address_String E (BytesToAddress E model_bytes)
      in \<lparr>p_version = 0,
          p_source = \<lparr>na_chain_id = Some 6694886634403, na_address = modelAleoAddress\<rparr>,
          p_destination = \<lparr>na_chain_id = Some 28556963657430695, na_address = a\<rparr>,
          p_sequence = n,
          p_message = \<lparr>m_dest_token_address = a, m_sender_address = modelAleoAddress, m_amount = Some 100,
                       m_receiver_address = a\<rparr>,
          p_height = 105, p_is_missed = False\<rparr>)"

lemma bench_from_ledger: "from_ledger E (bench_packet E n) model_bytes model_bytes model_bytes"
  using clean_modelAleoAddress
  by (simp add: from_ledger_def bench_packet_def aleo_word_def Let_def model_bytes_def)
    (simp add: modelAleoAddress_def field_words_def required_names_def)

lemma itoa_words: "itoa_int (uint n) = itoa_word n" "itoa_word (0 :: u8) = itoa_int 0" "itoa_word (105 :: u64) = itoa_int 105"
  by (simp_all add: itoa_int_def itoa_word_def)

lemma clean_itoa_word: "clean (itoa_word n)"
  by (simp add: itoa_word_def)

lemma trim_bench_packet:
  "trim (bench_packet_text (uint n)) =
   trimmed_text (ledger_of (bench_packet E n) model_bytes model_bytes model_bytes)"
proof -
  have h: "CHR ''1'' # CHR ''0'' # CHR ''0'' # s = itoa_int 100 @ s" for s by code_simp
  show ?thesis
    unfolding bench_packet_text_def trimmed_text_def ledger_of_def bench_packet_def Let_def
    by (simp add: h trim_char trim_model trim_clean clean_modelAleoAddress itoa_words clean_itoa_word
        trimmed_char_def bigint_str_def)
qed

lemma parse_bench_packet:
  "\<exists>ap. parseMessage (bench_packet_text (uint n)) = Inr ap \<and> parseAleoPacket E ap = Inr (bench_packet E n)"
  using parseMessage_trimmed [OF ledger_of_ok [OF bench_from_ledger] trim_bench_packet]
    parseAleoPacket_ledger [OF bench_from_ledger] by blast

section \<open>The server as the client sees it\<close>

text \<open>
  How \<open>net/url\<close> writes the path of a request that is given without query and escapes: as it
  stands when all its characters may stand in an encoded path, and escaped otherwise.
\<close>

definition path_char :: "char \<Rightarrow> bool" where
  "path_char c \<longleftrightarrow> unreserved c \<or> c \<in> set ''$&+,/:;=@''"

definition escape_char :: "char \<Rightarrow> string" where
  "escape_char c =
     (if path_char c then [c] else [CHR ''%'', upper_hex (of_char c div 16), upper_hex (of_char c mod 16)])"

definition escaped_path :: "string \<Rightarrow> string" where
  "escaped_path p =
     (if list_all (\<lambda>c. path_char c \<or> c \<in> set (CHR 0x27 # ''!()*[]'')) p then p else concat (map escape_char p))"

text \<open>The bodies of the server at \<open>base\<close>. A handler that panics ends the connection.\<close>

definition bench_http :: "string \<Rightarrow> http_get" where
  "bench_http base u =
     (if prefix base u
      then (case serveHttp (escaped_path (drop (length base) u)) of
              Inl e \<Rightarrow> Inl (ErrLib ''EOF'') | Inr r \<Rightarrow> Inr (pr_Body r))
      else Inl (ErrLib ''dial''))"

lemma bench_http_at: "bench_http base (base @ p) =
    (case serveHttp (escaped_path p) of Inl e \<Rightarrow> Inl (ErrLib ''EOF'') | Inr r \<Rightarrow> Inr (pr_Body r))"
  by (simp add: bench_http_def)

lemma prefix_sep: "c \<notin> set sub \<Longrightarrow> prefix sub (xs @ c # ys) \<Longrightarrow> prefix sub xs"
  by (induction xs arbitrary: sub) (auto simp: prefix_Cons)

lemma sublist_sep:
  "c \<notin> set sub \<Longrightarrow> sublist sub (xs @ c # ys) \<longleftrightarrow> sublist sub xs \<or> sublist sub ys"
proof (induction xs)
  case Nil
  then show ?case by (cases sub) (auto simp: sublist_Cons_right)
next
  case (Cons x xs)
  then show ?case using prefix_sep [of c sub "x # xs" ys] prefix_prefix [of sub "x # xs" "c # ys"]
    by (auto simp: sublist_Cons_right)
qed

lemma no_collector: "CHR ''c'' \<notin> set s \<Longrightarrow> \<not> sublist ''collector'' s"
  by (meson in_mono list.set_intros(1) set_mono_sublist)

lemma split_sep_last: "\<exists>w ws. go_split c (xs @ c # ys) = w # ws \<and> ws \<noteq> [] \<and> last ws = last (go_split c ys)"
  by (induction xs) auto

lemma last_split_sep: "last (go_split c (xs @ c # ys)) = last (go_split c ys)"
  using split_sep_last [of c xs ys] by auto


text \<open>The two requests of the client.\<close>

definition escape :: "string \<Rightarrow> string" where
  "escape p = concat (map escape_char p)"

lemma escape_append [simp]: "escape (p @ q) = escape p @ escape q"
  by (simp add: escape_def)

lemma escape_id: "list_all path_char p \<Longrightarrow> escape p = p"
  by (induction p) (simp_all add: escape_def escape_char_def)

lemma digit_path_char: "is_digit c \<Longrightarrow> path_char c"
  by (auto simp: path_char_def unreserved_def is_digit_def)

lemma escape_digits: "list_all is_digit p \<Longrightarrow> escape p = p"
  using digit_path_char by (intro escape_id) (auto simp: list_all_iff)

lemma bench_height: "GetLatestHeight (base @ ''/testnet'') (bench_http base) = Inr 1000"
proof -
  have "escaped_path ''/testnet/latest/height'' = ''/testnet/latest/height''" by code_simp
  moreover have "parse_int64 ''1000'' = Some 1000" by code_simp
  ultimately show ?thesis
    using bench_http_at [of base "''/testnet/latest/height''"]
    by (simp add: GetLatestHeight_def serveHttp_def written_def)
qed

definition bench_key :: "string \<Rightarrow> u64 \<Rightarrow> string" where
  "bench_key dst n = ''%7Bchain_id:'' @ dst @ ''u128,sequence:'' @ itoa_word n @ ''u64%7D''"

lemma escaped_mapping_path:
  assumes "list_all is_digit dst"
  shows "escaped_path (''/testnet/program/'' @ P @ ''/mapping/out_packets/'' @ constructOutMappingKey dst n) =
    ''/testnet/program/'' @ escape P @ ''/mapping/out_packets/'' @ bench_key dst n"
proof -
  have lits: "escape ''/testnet/program/'' = ''/testnet/program/''"
    "escape ''/mapping/out_packets/'' = ''/mapping/out_packets/''" "escape ''{chain_id:'' = ''%7Bchain_id:''"
    "escape ''u128,sequence:'' = ''u128,sequence:''" "escape ''u64}'' = ''u64%7D''"
    by code_simp+
  have "escape (itoa_word n) = itoa_word n" using itoa_all_digits by (simp add: itoa_word_def escape_digits)
  moreover have "\<not> path_char CHR ''{''" by code_simp
  then have "escaped_path (''/testnet/program/'' @ P @ ''/mapping/out_packets/'' @ constructOutMappingKey dst n) =
      escape (''/testnet/program/'' @ P @ ''/mapping/out_packets/'' @ constructOutMappingKey dst n)"
    by (simp add: escaped_path_def escape_def constructOutMappingKey_def)
  ultimately show ?thesis
    unfolding constructOutMappingKey_def bench_key_def escape_append lits escape_digits [OF assms] by simp
qed

lemma digits_avoid: "list_all is_digit w \<Longrightarrow> \<not> is_digit c \<Longrightarrow> c \<notin> set w"
  by (auto simp: list_all_iff)

lemma word_digits: "list_all is_digit (itoa_word n)"
  using itoa_all_digits by (simp add: itoa_word_def)

lemma bench_key_split:
  assumes "list_all is_digit dst"
  shows "last (go_split CHR ''/'' (''/testnet/program/'' @ p @ ''/mapping/out_packets/'' @ bench_key dst n)) = bench_key dst n"
    and "go_split CHR '','' (bench_key dst n) = [''%7Bchain_id:'' @ dst @ ''u128'', ''sequence:'' @ itoa_word n @ ''u64%7D'']"
proof -
  have nd: "\<not> is_digit CHR ''/''" "\<not> is_digit CHR '',''" by (simp_all add: is_digit_def)
  have "CHR ''/'' \<notin> set (bench_key dst n)"
    using digits_avoid [OF assms nd(1)] digits_avoid [OF word_digits nd(1)] by (simp add: bench_key_def)
  then have "go_split CHR ''/'' (bench_key dst n) = [bench_key dst n]" by (rule go_split_no_sep)
  moreover have "''/testnet/program/'' @ p @ ''/mapping/out_packets/'' @ bench_key dst n =
      (''/testnet/program/'' @ p @ ''/mapping/out_packets'') @ CHR ''/'' # bench_key dst n" by simp
  ultimately show "last (go_split CHR ''/'' (''/testnet/program/'' @ p @ ''/mapping/out_packets/'' @ bench_key dst n)) = bench_key dst n"
    using last_split_sep by (metis last.simps)
  have "bench_key dst n = (''%7Bchain_id:'' @ dst @ ''u128'') @ CHR '','' # (''sequence:'' @ itoa_word n @ ''u64%7D'')"
    by (simp add: bench_key_def)
  moreover have "CHR '','' \<notin> set (''%7Bchain_id:'' @ dst @ ''u128'')" "CHR '','' \<notin> set (''sequence:'' @ itoa_word n @ ''u64%7D'')"
    using digits_avoid [OF assms nd(2)] digits_avoid [OF word_digits nd(2)] by simp_all
  ultimately show "go_split CHR '','' (bench_key dst n) = [''%7Bchain_id:'' @ dst @ ''u128'', ''sequence:'' @ itoa_word n @ ''u64%7D'']"
    by (simp only: go_split_append_sep go_split_no_sep not_False_eq_True)
qed

lemma bench_key_collector:
  assumes "list_all is_digit dst" and "\<not> str_contains p ''collector''"
  shows "\<not> str_contains (''/testnet/program/'' @ p @ ''/mapping/out_packets/'' @ bench_key dst n) ''collector''"
proof -
  have sep: "CHR ''/'' \<notin> set ''collector''" "CHR '':'' \<notin> set ''collector''" "CHR '','' \<notin> set ''collector''" by simp_all
  have c: "\<not> is_digit CHR ''c''" by (simp add: is_digit_def)
  have "\<not> sublist ''collector'' (dst @ ''u128'')" "\<not> sublist ''collector'' (itoa_word n @ ''u64%7D'')"
    using digits_avoid [OF assms(1) c] digits_avoid [OF word_digits c] by (intro no_collector, simp)+
  moreover have "\<not> sublist ''collector'' ''%7Bchain_id''" "\<not> sublist ''collector'' ''sequence''"
    "\<not> sublist ''collector'' ''/testnet/program''" "\<not> sublist ''collector'' ''mapping''" "\<not> sublist ''collector'' ''out_packets''"
    by (simp_all add: sublist_Cons_right prefix_Cons)
  moreover have "''/testnet/program/'' @ p @ ''/mapping/out_packets/'' @ bench_key dst n =
      ''/testnet/program'' @ CHR ''/'' # p @ CHR ''/'' # ''mapping'' @ CHR ''/'' # ''out_packets'' @ CHR ''/'' #
      ''%7Bchain_id'' @ CHR '':'' # (dst @ ''u128'') @ CHR '','' # ''sequence'' @ CHR '':'' # (itoa_word n @ ''u64%7D'')"
    by (simp add: bench_key_def)
  ultimately show ?thesis
    using assms(2) unfolding str_contains_def by (simp only: sublist_sep [OF sep(1)] sublist_sep [OF sep(2)] sublist_sep [OF sep(3)] simp_thms)
qed

lemma replacer_key: "proxy_replacer (''sequence:'' @ itoa_word (n :: u64) @ ''u64%7D'') = itoa_word n"
proof -
  have skip: "proxy_replacer (w @ s) = w @ proxy_replacer s" if "list_all is_digit w" for w s
    using that by (induction w) (auto simp: proxy_replacer_def is_digit_def)
  have "proxy_replacer ''u64%7D'' = []" by code_simp
  then have "proxy_replacer (itoa_word n @ ''u64%7D'') = itoa_word n"
    using skip [OF word_digits [of n], of "''u64%7D''"] by simp
  then show ?thesis by (simp add: proxy_replacer_def)
qed

lemma bench_serves:
  assumes "list_all is_digit dst" and "\<not> str_contains (escape P) ''collector''" and "uint n < 2 ^ 63"
  shows "serveHttp (''/testnet/program/'' @ escape P @ ''/mapping/out_packets/'' @ bench_key dst n) =
    Inr (written 200 (bench_packet_text (uint n)))"
proof -
  have "- (2 ^ 63) \<le> uint n" by (rule order_trans [of _ 0]) simp_all
  then have "parse_int64 (itoa_word n) = Some (uint n)" using assms(3) by (simp add: parse_int64_def itoa_word_def)
  then show ?thesis
    using bench_key_collector [OF assms(1,2)]
    by (simp add: serveHttp_def bench_key_split [OF assms(1)] replacer_key del: append_Cons)
qed

section \<open>Properties\<close>

text \<open>A client of the server at \<open>base\<close> on the network \<open>testnet\<close>.\<close>

definition bench_client :: "string \<Rightarrow> aleo_client \<Rightarrow> bool" where
  "bench_client base cl \<longleftrightarrow> ac_url cl = NewRPC base ''testnet'' \<and> \<not> str_contains (escape (ac_programID cl)) ''collector''"

lemma bench_packet_fetched:
  assumes "bench_client base cl" and "list_all is_digit dst" and "uint n < 2 ^ 63"
  shows "getPktWithSeq E cl (bench_http base) dst n = Inr (bench_packet E n)"
proof -
  let ?p = "''/testnet/program/'' @ ac_programID cl @ ''/mapping/out_packets/'' @ constructOutMappingKey dst n"
  have "escaped_path ?p = ''/testnet/program/'' @ escape (ac_programID cl) @ ''/mapping/out_packets/'' @ bench_key dst n"
    by (rule escaped_mapping_path [OF assms(2)])
  then have "bench_http base (base @ ?p) = Inr (bench_packet_text (uint n))"
    using bench_serves [OF assms(2) _ assms(3), of "ac_programID cl"] assms(1)
    by (simp only: bench_http_at bench_client_def) (simp add: written_def)
  moreover have "bench_packet_text (uint n) \<noteq> nullString"
    by (simp add: bench_packet_text_def nullString_def)
  ultimately show ?thesis
    using assms(1) parse_bench_packet [of n E]
    by (auto simp: getPktWithSeq_def GetMappingValue_def bench_client_def NewRPC_def outPacket_def map_get_def)
qed

lemma pull_matured:
  assumes "\<forall>i < length https. getPktWithSeq E cl (https ! i) chainID (fs_nextSeqNum st + of_nat i) =
        Inr (P (fs_nextSeqNum st + of_nat i)) \<and>
      sint (p_height (P (fs_nextSeqNum st + of_nat i)) :: i64) \<le> sint (fs_curMaturedHeight st)"
    and "fs_pc st = Pull"
  shows "fed (snd (feed_run E an cl chainID https st)) =
    map (\<lambda>i. P (fs_nextSeqNum st + of_nat i)) [0..<length https]"
  using assms
proof (induction https arbitrary: st)
  case (Cons http https)
  have p: "getPktWithSeq E cl http chainID (fs_nextSeqNum st) = Inr (P (fs_nextSeqNum st))"
    "sint (p_height (P (fs_nextSeqNum st)) :: i64) \<le> sint (fs_curMaturedHeight st)"
    using Cons.prems(1) [rule_format, of 0] by simp_all
  let ?st1 = "st\<lparr>fs_nextSeqNum := fs_nextSeqNum st + 1\<rparr>"
  have "getPktWithSeq E cl (https ! i) chainID (fs_nextSeqNum ?st1 + of_nat i) = Inr (P (fs_nextSeqNum ?st1 + of_nat i)) \<and>
      sint (p_height (P (fs_nextSeqNum ?st1 + of_nat i)) :: i64) \<le> sint (fs_curMaturedHeight ?st1)"
    if "i < length https" for i
    using Cons.prems(1) [rule_format, of "Suc i"] that by (simp add: add.assoc)
  then have "fed (snd (feed_run E an cl chainID https ?st1)) =
      map (\<lambda>i. P (fs_nextSeqNum ?st1 + of_nat i)) [0..<length https]"
    using Cons.IH [of ?st1] Cons.prems(2) by simp
  then show ?case
    using p Cons.prems(2)
    by (simp add: case_prod_beta Let_def map_upt_Suc del: upt_Suc) (simp add: add.assoc)
qed simp

text \<open>
  C32. The Aleo feed makes progress. When the server answers every request, its height stays at one
  whose matured part is not zero, and it has matured packets under the next \<open>k\<close> numbers, then the
  goroutine has put exactly these \<open>k\<close> packets on the channel, in order, after \<open>k + 2\<close> requests.
\<close>

theorem aleo_feed_progress:
  assumes "fs_pc st = Poll1" and "ht \<noteq> ac_waitHeight cl" and "length https = k + 2"
    and "\<forall>i < 2. GetLatestHeight (ac_url cl) (https ! i) = Inr ht"
    and "\<forall>i < k. getPktWithSeq E cl (https ! (i + 2)) chainID (fs_nextSeqNum st + of_nat i) =
        Inr (P (fs_nextSeqNum st + of_nat i)) \<and>
      sint (p_height (P (fs_nextSeqNum st + of_nat i)) :: i64) \<le> sint (ht - ac_waitHeight cl)"
  shows "fed (snd (feed_run E an cl chainID https st)) = map (\<lambda>i. P (fs_nextSeqNum st + of_nat i)) [0..<k]"
proof -
  obtain h0 h1 rest where hs: "https = h0 # h1 # rest" "length rest = k"
    using assms(3) by (auto simp: length_Suc_conv numeral_2_eq_2)
  have "GetLatestHeight (ac_url cl) h0 = Inr ht" "GetLatestHeight (ac_url cl) h1 = Inr ht"
    using assms(4) hs(1) by (auto simp: less_Suc_eq numeral_2_eq_2)
  then have h: "aleo_blockHeightPriorWaitDur an cl http = (ht - ac_waitHeight cl,
      [EMetric (MUpdateAleoRPCStatus an (bigint_str (ac_chainID cl)) UP)])" if "http \<in> {h0, h1}" for http
    using that by (auto simp: aleo_blockHeightPriorWaitDur_def)
  let ?st2 = "st\<lparr>fs_pc := Pull, fs_curMaturedHeight := ht - ac_waitHeight cl\<rparr>"
  have "fed (snd (feed_run E an cl chainID rest ?st2)) = map (\<lambda>i. P (fs_nextSeqNum ?st2 + of_nat i)) [0..<k]"
    using pull_matured [of rest E cl chainID ?st2 P] assms(5) hs by simp
  moreover have "fed (feed_sleep cl a b) = []" for a b by (simp add: feed_sleep_def)
  ultimately show ?thesis
    using assms(1,2) hs(1) h [of h0] h [of h1] by (simp add: case_prod_beta Let_def)
qed

definition bench_aleo :: aleo_client where
  "bench_aleo = sample_aleo\<lparr>ac_url := ''http://h/testnet''\<rparr>"

lemma bench_aleo_client: "bench_client ''http://h'' bench_aleo"
proof -
  have "escape ''bridge'' = ''bridge''" by code_simp
  then show ?thesis
    by (simp add: bench_client_def bench_aleo_def sample_aleo_def NewRPC_def str_contains_def sublist_Cons_right prefix_Cons)
qed

lemma bench_height_of: "p_height (bench_packet E n) = 105"
  by (simp add: bench_packet_def Let_def)

lemma bench_wait: "ac_waitHeight bench_aleo = 10"
  by (simp add: bench_aleo_def sample_aleo_def)

lemma parse_empty: "\<exists>m. parseMessage [] = Inl (ErrMsg m)"
  by (simp add: parseMessage_def message_tokens_def parse_field_def required_names_def)

theorem aleo_feed_progress_witness:
  "fed (snd (feed_run sample_eth ''a'' bench_aleo ''1'' (replicate 5 (bench_http ''http://h'')) sample_feed)) =
     [bench_packet sample_eth 1, bench_packet sample_eth 2, bench_packet sample_eth 3]"
proof -
  have h: "\<forall>i < 2. GetLatestHeight (ac_url bench_aleo) (replicate 5 (bench_http ''http://h'') ! i) = Inr 1000"
    using bench_height [of "''http://h''"] by (simp add: bench_aleo_def)
  have "list_all is_digit ''1''" by (simp add: is_digit_def)
  then have g: "getPktWithSeq sample_eth bench_aleo (bench_http ''http://h'') ''1'' n = Inr (bench_packet sample_eth n)"
    if "uint n < 2 ^ 63" for n
    using that by (rule bench_packet_fetched [OF bench_aleo_client])
  have p: "\<forall>i < 3. getPktWithSeq sample_eth bench_aleo (replicate 5 (bench_http ''http://h'') ! (i + 2)) ''1''
        (fs_nextSeqNum sample_feed + of_nat i) = Inr (bench_packet sample_eth (fs_nextSeqNum sample_feed + of_nat i)) \<and>
      sint (p_height (bench_packet sample_eth (fs_nextSeqNum sample_feed + of_nat i)) :: i64) \<le> sint (1000 - ac_waitHeight bench_aleo)"
  proof (intro allI impI)
    fix i :: nat assume "i < 3"
    then have "i \<in> {0, 1, 2}" by auto
    then show "getPktWithSeq sample_eth bench_aleo (replicate 5 (bench_http ''http://h'') ! (i + 2)) ''1''
        (fs_nextSeqNum sample_feed + of_nat i) = Inr (bench_packet sample_eth (fs_nextSeqNum sample_feed + of_nat i)) \<and>
      sint (p_height (bench_packet sample_eth (fs_nextSeqNum sample_feed + of_nat i)) :: i64) \<le> sint (1000 - ac_waitHeight bench_aleo)"
      using g by (auto simp: sample_feed_def bench_height_of bench_wait)
  qed
  have "fs_pc sample_feed = Poll1" "1000 \<noteq> ac_waitHeight bench_aleo"
    by (simp_all add: sample_feed_def bench_aleo_def sample_aleo_def)
  from aleo_feed_progress [OF this _ h p] show ?thesis
    by (simp add: sample_feed_def upt_rec)
qed

text \<open>
  The benchmark server serves the packets the client asks for. For every destination chain and
  every sequence number below \<open>2 ^ 63\<close>, what the client reads from its answer is the packet of that
  number; for the numbers from there on \<open>Atoi\<close> fails, the answer is empty, and the client reports
  an error that is not the one of a missing packet.
\<close>

theorem bench_serves_client:
  assumes "bench_client base cl" and "list_all is_digit dst"
  shows "if uint n < 2 ^ 63
    then getPktWithSeq E cl (bench_http base) dst n = Inr (bench_packet E n) \<and> p_sequence (bench_packet E n) = n
    else \<exists>e. getPktWithSeq E cl (bench_http base) dst n = Inl e \<and> \<not> is_packet_not_found e"
proof (cases "uint n < 2 ^ 63")
  case True
  then show ?thesis using bench_packet_fetched [OF assms True, of E] by (simp add: bench_packet_def Let_def)
next
  case False
  let ?p = "''/testnet/program/'' @ ac_programID cl @ ''/mapping/out_packets/'' @ constructOutMappingKey dst n"
  have "parse_int64 (itoa_word n) = None" using False by (simp add: parse_int64_def itoa_word_def)
  then have "serveHttp (''/testnet/program/'' @ escape (ac_programID cl) @ ''/mapping/out_packets/'' @ bench_key dst n) =
      Inr (written 200 [])"
    using bench_key_collector [OF assms(2)] assms(1)
    by (simp add: serveHttp_def bench_client_def bench_key_split [OF assms(2)] replacer_key del: append_Cons)
  then have "bench_http base (base @ ?p) = Inr []"
    by (simp only: bench_http_at escaped_mapping_path [OF assms(2)]) (simp add: written_def)
  then show ?thesis
    using False assms(1) parse_empty
    by (auto simp: getPktWithSeq_def GetMappingValue_def bench_client_def NewRPC_def outPacket_def map_get_def
        nullString_def is_packet_not_found_def)
qed

theorem bench_serves_client_witness:
  "getPktWithSeq sample_eth bench_aleo (bench_http ''http://h'') ''1'' 7 = Inr (bench_packet sample_eth 7)"
proof -
  have "list_all is_digit ''1''" by (simp add: is_digit_def)
  from bench_serves_client [OF bench_aleo_client this, of 7 sample_eth] show ?thesis by simp
qed

text \<open>The server behind a transport: the URL it prints is the path and the query of the request.\<close>

definition request_text :: "url \<Rightarrow> string" where
  "request_text u = u_Path u @ (if u_RawQuery u = [] then [] else CHR ''?'' # u_RawQuery u)"

definition bench_env :: "(string \<Rightarrow> url option) \<Rightarrow> http_env" where
  "bench_env parse =
     \<lparr>he_Parse = (\<lambda>s. case parse s of None \<Rightarrow> Inl (ErrLib ''parse'') | Some u \<Rightarrow> Inr u),
      he_Do = (\<lambda>rq. case serveHttp (request_text (hr_URL rq)) of
        Inl e \<Rightarrow> Inl (ErrLib ''EOF'')
      | Inr r \<Rightarrow> Inr \<lparr>hp_Status = int (pr_Status r), hp_Body = bytes_of_string (pr_Body r), hp_ReadErr = None\<rparr>)\<rparr>"

lemma serveHttp_created:
  "serveHttp url = Inr r \<Longrightarrow> pr_Status r = 201 \<Longrightarrow> pr_Body r = ''100''"
  by (auto simp: serveHttp_def written_def split: if_splits list.splits option.splits)

lemma hundred_is_no_answer: "\<exists>e. unmarshal_collector_response ''100'' = Inl e \<and> e \<noteq> AlreadyRelayedPacket"
proof -
  have "parse_json ''100'' = Some (JNum ''100'')" by code_simp
  then show ?thesis
    by (simp add: unmarshal_collector_response_def unmarshal_def decode_struct_def type_error_def)
qed

lemma bench_send_fails:
  "\<exists>e. SendToCollector (bench_env parse) c sp h s = Inl e \<and> e \<noteq> AlreadyRelayedPacket"
proof -
  have "\<exists>e. collector_answer \<lparr>hp_Status = int (pr_Status r), hp_Body = bytes_of_string (pr_Body r), hp_ReadErr = None\<rparr> = Inl e \<and>
      e \<noteq> AlreadyRelayedPacket" if "serveHttp url = Inr r" for r url
    using serveHttp_created [OF that] hundred_is_no_answer
    by (cases "pr_Status r = 201") (auto simp: collector_answer_def Let_def)
  then show ?thesis
    by (auto simp: SendToCollector_def bench_env_def Let_def split: option.split sum.split)
qed

text \<open>
  In the benchmark no packet is ever completed. The benchmark server answers the collector's
  requests with status 201 and the body \<open>100\<close>, which is no collector response: whatever the
  signing service does, every packet of a relay that sends to this server is handed back to be
  retried.
\<close>

theorem bench_never_completes:
  assumes "rl_SendToCollector R = SendToCollector (bench_env parse) c" and "no_panic R"
    and "name \<in> set RegisteredChannels" and "\<not> IsMissed p" and "rl_StoreWhiteStatus R p w d = (Inr (), d')"
  shows "\<exists>es. sign_and_send an R name p w d = (Inr (), es, d') \<and> handed es = [(name, Retry p)]"
proof -
  have "\<not> accepted R \<lparr>sp_packet = p, sp_is_white = w\<rparr>"
  proof
    assume "accepted R \<lparr>sp_packet = p, sp_is_white = w\<rparr>"
    then obtain h s where "SendToCollector (bench_env parse) c \<lparr>sp_packet = p, sp_is_white = w\<rparr> h s \<in> {Inr (), Inl AlreadyRelayedPacket}"
      using assms(1) by (auto simp: accepted_def)
    then show False using bench_send_fails [of parse c "\<lparr>sp_packet = p, sp_is_white = w\<rparr>" h s] by auto
  qed
  then show ?thesis
    using sign_and_send_handed [OF assms(3,2,5), of an] assms(4) by (simp add: outcome_of_def)
qed

definition bench_relay :: "memdb relay" where
  "bench_relay = sample_relay\<lparr>rl_SendToCollector := SendToCollector (bench_env (\<lambda>s. None))
     \<lparr>cl_uri = ''http://h/collector'', cl_chainIDToAddress = [], cl_collectorWaitDur = 0\<rparr>\<rparr>"

theorem bench_never_completes_witness:
  "\<exists>es d'. sign_and_send ''a'' bench_relay ''aleo'' fresh_packet True relay_db = (Inr (), es, d') \<and>
     handed es = [(''aleo'', Retry fresh_packet)]"
proof -
  let ?c = "\<lparr>cl_uri = ''http://h/collector'', cl_chainIDToAddress = [], cl_collectorWaitDur = 0\<rparr>"
  have s: "rl_SendToCollector bench_relay = SendToCollector (bench_env (\<lambda>s. None)) ?c" by (simp add: bench_relay_def)
  have "no_panic bench_relay"
    using sample_relay_ok(3) by (auto simp: bench_relay_def no_panic_def SendToCollector_def bench_env_def Let_def)
  moreover have "rl_StoreWhiteStatus bench_relay = screen_StoreWhiteStatus mem_bolt"
    using sample_relay_ok(2) by (simp add: bench_relay_def)
  moreover obtain d' where "screen_StoreWhiteStatus mem_bolt fresh_packet True relay_db = (Inr (), d')"
    using screening.store_answers [OF mem_screen.screening_axioms relay_db_screen, of fresh_packet True] by blast
  moreover have "''aleo'' \<in> set RegisteredChannels" by (simp add: RegisteredChannels_def)
  ultimately show ?thesis
    using bench_never_completes [OF s _ _ fresh_not_missed, of "''aleo''" True relay_db d' "''a''"] by auto
qed

end
