(* ===== verification/RelaySystem.thy ===== *)
theory RelaySystem
  imports RelayProps
begin

text \<open>
  The relay as a concurrent system: the goroutines of one source chain (its feed, the two ticks
  over its namespaces and \<open>managePacket\<close>) and the workers of \<open>consumePackets\<close>, interleaved one
  database transaction at a time. The steps are the operations of the other theories; what the
  chain, the signing service and the collector answer is arbitrary.
\<close>

section \<open>State and steps\<close>

text \<open>
  The packets a feeding goroutine holds until the channel takes them, those a worker holds before
  and after screening, the outcomes \<open>managePacket\<close> has received, and the database. The last
  component only records what pruning removed.
\<close>

record 'd relay_sys =
  sy_feeding :: "packet list"
  sy_fetched :: "packet list"
  sy_screened :: "(packet \<times> bool) list"
  sy_handed :: "outcome list"
  sy_db :: 'd
  sy_pruned :: "(string \<times> u64) set"

text \<open>The operations of a chain and of the relay, the supported destinations and the worker count.\<close>

record 'd relay_ops =
  ro_manage :: "outcome \<Rightarrow> 'd \<Rightarrow> 'd"
  ro_refeed :: "string \<Rightarrow> 'd \<Rightarrow> packet list res \<times> 'd"
  ro_prune :: "string \<Rightarrow> 'd \<Rightarrow> 'd"
  ro_screen :: "packet \<Rightarrow> 'd \<Rightarrow> bool res \<times> 'd"
  ro_store_white :: "packet \<Rightarrow> bool \<Rightarrow> 'd \<Rightarrow> unit res \<times> 'd"
  ro_delivered :: "'d \<Rightarrow> string \<Rightarrow> u64 set"
  ro_name :: string
  ro_dests :: "string set"
  ro_workers :: nat

datatype event =
    Feed packet
  | FeedMissed packet
  | Refeed string
  | Prune string
  | Take packet
  | Screening packet
  | Deliver packet
  | Record outcome

text \<open>
  A worker is spawned only when fewer than \<open>ConsumePacketWorker\<close> run (the capacity of
  \<open>guideCh\<close>), and its slot is free again when \<open>processPacket\<close> has returned.
\<close>

definition running :: "'d relay_sys \<Rightarrow> nat" where
  "running s = length (sy_fetched s) + length (sy_screened s)"

inductive relay_step :: "string \<Rightarrow> 'd relay_ops \<Rightarrow> 'd relay_sys \<Rightarrow> event \<Rightarrow> 'd relay_sys \<Rightarrow> bool"
  for an :: string and O' :: "'d relay_ops"
where
  feed: "\<not> IsMissed p \<Longrightarrow> storable p \<Longrightarrow> dest_of p \<in> ro_dests O' \<Longrightarrow>
    relay_step an O' s (Feed p) (s\<lparr>sy_feeding := p # sy_feeding s\<rparr>)"
| feed_missed: "relay_step an O' s (FeedMissed p) (s\<lparr>sy_feeding := SetMissed p True # sy_feeding s\<rparr>)"
| refeed: "c \<in> ro_dests O' \<Longrightarrow> ro_refeed O' c (sy_db s) = (r, d') \<Longrightarrow>
    relay_step an O' s (Refeed c)
      (s\<lparr>sy_feeding := (case r of Inl e \<Rightarrow> [] | Inr ps \<Rightarrow> ps) @ sy_feeding s, sy_db := d'\<rparr>)"
| prune: "c \<in> ro_dests O' \<Longrightarrow>
    relay_step an O' s (Prune c)
      (s\<lparr>sy_db := ro_prune O' c (sy_db s),
         sy_pruned := sy_pruned s \<union> {c} \<times> (ro_delivered O' (sy_db s) c - ro_delivered O' (ro_prune O' c (sy_db s)) c)\<rparr>)"
| take_packet: "p \<in> set (sy_feeding s) \<Longrightarrow> running s < ro_workers O' \<Longrightarrow>
    relay_step an O' s (Take p)
      (s\<lparr>sy_feeding := remove1 p (sy_feeding s), sy_fetched := p # sy_fetched s\<rparr>)"
| screening: "p \<in> set (sy_fetched s) \<Longrightarrow> ro_screen O' p (sy_db s) = (Inr w, d') \<Longrightarrow>
    relay_step an O' s (Screening p)
      (s\<lparr>sy_fetched := remove1 p (sy_fetched s), sy_screened := (p, w) # sy_screened s, sy_db := d'\<rparr>)"
| deliver: "(p, w) \<in> set (sy_screened s) \<Longrightarrow> rl_StoreWhiteStatus R = ro_store_white O' \<Longrightarrow> no_panic R \<Longrightarrow>
    sign_and_send an R (ro_name O') p w (sy_db s) = (Inr (), es, d') \<Longrightarrow>
    relay_step an O' s (Deliver p)
      (s\<lparr>sy_screened := remove1 (p, w) (sy_screened s), sy_handed := map snd (handed es) @ sy_handed s, sy_db := d'\<rparr>)"
| record_outcome: "oc \<in> set (sy_handed s) \<Longrightarrow>
    relay_step an O' s (Record oc)
      (s\<lparr>sy_handed := remove1 oc (sy_handed s), sy_db := ro_manage O' oc (sy_db s)\<rparr>)"

inductive_cases relay_stepE: "relay_step an O' s ev s'"

inductive relay_run :: "string \<Rightarrow> 'd relay_ops \<Rightarrow> 'd relay_sys \<Rightarrow> event list \<Rightarrow> 'd relay_sys \<Rightarrow> bool"
  for an :: string and O' :: "'d relay_ops" and s0 :: "'d relay_sys"
where
  run_start: "relay_run an O' s0 [] s0"
| run_step: "relay_run an O' s0 evs s \<Longrightarrow> relay_step an O' s ev s' \<Longrightarrow> relay_run an O' s0 (evs @ [ev]) s'"

definition relay_start :: "'d \<Rightarrow> 'd relay_sys" where
  "relay_start d = \<lparr>sy_feeding = [], sy_fetched = [], sy_screened = [], sy_handed = [], sy_db = d, sy_pruned = {}\<rparr>"

text \<open>The operations of the two chains.\<close>

definition eth_ops ::
    "'d bolt \<Rightarrow> ('d \<Rightarrow> string \<Rightarrow> (bytes \<rightharpoonup> bytes) option) \<Rightarrow> string \<Rightarrow> string set \<Rightarrow> nat \<Rightarrow> 'd relay_ops" where
  "eth_ops B view an C workers =
     \<lparr>ro_manage = (\<lambda>oc d. fst (eth_managePacket B an oc d)),
      ro_refeed = (\<lambda>c. RetrieveAndDeleteNPackets B (eth_retryPacketNamespacePrefix @ c) retrievePacketNum),
      ro_prune = (\<lambda>c d. snd (PruneBaseSeqNum B (eth_baseSeqNumNameSpacePrefix @ c) d)),
      ro_screen = Screen B, ro_store_white = screen_StoreWhiteStatus B,
      ro_delivered = (\<lambda>d c. delivered view (eth_baseSeqNumNameSpacePrefix @ c) d),
      ro_name = ''ethereum'', ro_dests = C, ro_workers = workers\<rparr>"

definition aleo_ops ::
    "'d bolt \<Rightarrow> ('d \<Rightarrow> string \<Rightarrow> (bytes \<rightharpoonup> bytes) option) \<Rightarrow> string \<Rightarrow> string set \<Rightarrow> nat \<Rightarrow> 'd relay_ops" where
  "aleo_ops B view an C workers =
     \<lparr>ro_manage = (\<lambda>oc d. fst (aleo_managePacket B an oc d)),
      ro_refeed = (\<lambda>c. RetrieveAndDeleteNPackets B (aleo_retryPacketNamespacePrefix @ c) 10),
      ro_prune = (\<lambda>c d. snd (PruneBaseSeqNum B (aleo_baseSeqNumNameSpacePrefix @ c) d)),
      ro_screen = Screen B, ro_store_white = screen_StoreWhiteStatus B,
      ro_delivered = (\<lambda>d c. delivered view (aleo_baseSeqNumNameSpacePrefix @ c) d),
      ro_name = ''aleo'', ro_dests = C, ro_workers = workers\<rparr>"

section \<open>The contract of the operations\<close>

text \<open>
  Beside what recording an outcome and screening promise, taking packets out of a retry namespace
  returns exactly those it removes, pruning touches only its namespace, and the screening namespace
  is none of the chain's.
\<close>

locale relay_parts = outcome_recorder "ro_manage O'" view base_ns retry_ns height_of +
    screening "ro_screen O'" "ro_store_white O'" view screen_ns
  for O' :: "'d relay_ops" and view :: "'d \<Rightarrow> string \<Rightarrow> (bytes \<rightharpoonup> bytes) option"
    and base_ns retry_ns :: string and height_of :: "packet \<Rightarrow> u64" and screen_ns :: string +
  assumes refeed_view: "view d (retry_ns @ c) = Some m \<Longrightarrow> retry_ok m \<Longrightarrow>
      \<exists>r d' m'. ro_refeed O' c d = (r, d') \<and> view d' = (view d)(retry_ns @ c \<mapsto> m') \<and> retry_ok m' \<and>
        (case r of Inl e \<Rightarrow> m' = m
         | Inr ps \<Rightarrow> \<exists>X. X \<subseteq> dom (retry_map m) \<and> set ps = (\<lambda>n. the (retry_map m n)) ` X \<and>
             retry_map m' = retry_map m |` (- X))"
    and prune_view: "view d (base_ns @ c) = Some m \<Longrightarrow> base_ok m \<Longrightarrow>
      \<exists>m'. view (ro_prune O' c d) = (view d)(base_ns @ c \<mapsto> m') \<and> base_ok m'"
    and screen_apart: "screen_ns \<noteq> base_ns @ c" "screen_ns \<noteq> retry_ns @ c"
    and delivered_view: "ro_delivered O' d c = delivered view (base_ns @ c) d"
    and name_registered: "ro_name O' \<in> set RegisteredChannels"

section \<open>The invariant\<close>

text \<open>A packet is identified by its destination and its sequence number.\<close>

definition packet_key :: "packet \<Rightarrow> string \<times> u64" where
  "packet_key p = (dest_of p, p_sequence p)"

definition in_workers :: "'d relay_sys \<Rightarrow> packet set" where
  "in_workers s = set (sy_feeding s) \<union> set (sy_fetched s) \<union> fst ` set (sy_screened s)"

definition in_hand :: "'d relay_sys \<Rightarrow> (string \<times> u64) set" where
  "in_hand s = packet_key ` {p \<in> in_workers s. \<not> IsMissed p} \<union> packet_key ` outcome_packet ` set (sy_handed s)"

definition on_record ::
    "('d \<Rightarrow> string \<Rightarrow> (bytes \<rightharpoonup> bytes) option) \<Rightarrow> string \<Rightarrow> string \<Rightarrow> string set \<Rightarrow> 'd \<Rightarrow> (string \<times> u64) set" where
  "on_record view base_ns retry_ns C d =
     {(c, n). c \<in> C \<and> (n \<in> delivered view (base_ns @ c) d \<or> n \<in> waiting view (retry_ns @ c) d)}"

definition good_packet :: "string set \<Rightarrow> packet \<Rightarrow> bool" where
  "good_packet C p \<longleftrightarrow> \<not> IsMissed p \<and> storable p \<and> dest_of p \<in> C"

definition waiting_ok ::
    "('d \<Rightarrow> string \<Rightarrow> (bytes \<rightharpoonup> bytes) option) \<Rightarrow> string \<Rightarrow> string set \<Rightarrow> 'd \<Rightarrow> bool" where
  "waiting_ok view retry_ns C d \<longleftrightarrow> (\<forall>c \<in> C. \<forall>m n p. view d (retry_ns @ c) = Some m \<longrightarrow>
     retry_map m n = Some p \<longrightarrow> packet_key p = (c, n) \<and> good_packet C p)"

definition db_inv ::
    "('d \<Rightarrow> string \<Rightarrow> (bytes \<rightharpoonup> bytes) option) \<Rightarrow> string \<Rightarrow> string \<Rightarrow> string \<Rightarrow> string set \<Rightarrow> 'd \<Rightarrow> bool" where
  "db_inv view base_ns retry_ns screen_ns C d \<longleftrightarrow> ns_open view base_ns retry_ns C d \<and>
     waiting_ok view retry_ns C d \<and> view d screen_ns \<noteq> None"

definition relay_inv ::
    "('d \<Rightarrow> string \<Rightarrow> (bytes \<rightharpoonup> bytes) option) \<Rightarrow> string \<Rightarrow> string \<Rightarrow> string \<Rightarrow> 'd relay_ops \<Rightarrow> 'd relay_sys \<Rightarrow> bool" where
  "relay_inv view base_ns retry_ns screen_ns O' s \<longleftrightarrow>
     db_inv view base_ns retry_ns screen_ns (ro_dests O') (sy_db s) \<and>
     (\<forall>p \<in> in_workers s. \<not> IsMissed p \<longrightarrow> good_packet (ro_dests O') p) \<and>
     (\<forall>oc \<in> set (sy_handed s). good_packet (ro_dests O') (outcome_packet oc)) \<and>
     running s \<le> ro_workers O'"

lemma storable_SetMissed [simp]: "storable (SetMissed p b) = storable p"
  by (simp add: storable_def ascii_packet_def SetMissed_def marshal_packet_def json_packet_def)

lemma key_SetMissed [simp]: "packet_key (SetMissed p b) = packet_key p" "dest_of (SetMissed p b) = dest_of p"
  by (simp_all add: packet_key_def dest_of_def SetMissed_def)

lemma IsMissed_SetMissed [simp]: "IsMissed (SetMissed p b) = b"
  by (simp add: IsMissed_def SetMissed_def)

lemma good_SetMissed: "good_packet C p \<Longrightarrow> good_packet C (SetMissed p False)"
  by (simp add: good_packet_def)

context relay_parts
begin

abbreviation dinv :: "string set \<Rightarrow> 'd \<Rightarrow> bool" where
  "dinv \<equiv> db_inv view base_ns retry_ns screen_ns"

abbreviation recorded :: "string set \<Rightarrow> 'd \<Rightarrow> (string \<times> u64) set" where
  "recorded \<equiv> on_record view base_ns retry_ns"

lemma screen_frame:
  assumes "dinv C d" and "\<forall>ns. ns \<noteq> screen_ns \<longrightarrow> view d' ns = view d ns" and "view d' screen_ns \<noteq> None"
  shows "dinv C d' \<and> recorded C d' = recorded C d"
proof -
  have same: "view d' (base_ns @ c) = view d (base_ns @ c)" "view d' (retry_ns @ c) = view d (retry_ns @ c)" for c
    using assms(2) screen_apart by metis+
  then show ?thesis
    using assms(1,3)
    by (simp add: db_inv_def ns_open_def waiting_ok_def on_record_def delivered_def waiting_def)
qed

lemma manage_dinv:
  assumes d: "dinv C d" and oc: "good_packet C (outcome_packet oc)"
  shows "dinv C (ro_manage O' oc d) \<and> recorded C d \<subseteq> recorded C (ro_manage O' oc d) \<and>
    packet_key (outcome_packet oc) \<in> recorded C (ro_manage O' oc d)"
proof -
  have op: "ns_open view base_ns retry_ns C d" and wa: "waiting_ok view retry_ns C d" and sc: "view d screen_ns \<noteq> None"
    using d by (simp_all add: db_inv_def)
  have oc': "dest_of (outcome_packet oc) \<in> C" "storable (outcome_packet oc)"
    using oc by (simp_all add: good_packet_def)
  note step = manage_step [OF op oc']
  have "waiting_ok view retry_ns C (ro_manage O' oc d) \<and> view (ro_manage O' oc d) screen_ns \<noteq> None"
  proof (cases oc)
    case (Completed p)
    then obtain m where m: "view d (base_ns @ dest_of p) = Some m" "base_ok m"
      using op oc' by (auto simp: ns_open_def)
    obtain m' where "view (ro_manage O' oc d) = (view d)(base_ns @ dest_of p \<mapsto> m')"
      using completed [OF m] Completed by blast
    then show ?thesis using wa sc by (simp add: waiting_ok_def apart [symmetric] screen_apart)
  next
    case (Retry p)
    then obtain m where m: "view d (retry_ns @ dest_of p) = Some m" "retry_ok m"
      using op oc' by (auto simp: ns_open_def)
    obtain m' where m': "view (ro_manage O' oc d) = (view d)(retry_ns @ dest_of p \<mapsto> m')"
      "retry_map m' = (retry_map m)(p_sequence p \<mapsto> SetMissed p False)"
      using failed [OF m] oc'(2) Retry by auto
    have "packet_key (SetMissed p False) = (dest_of p, p_sequence p)"
      unfolding key_SetMissed by (simp add: packet_key_def)
    moreover have "good_packet C (SetMissed p False)" using good_SetMissed oc Retry by simp
    ultimately have "packet_key (SetMissed p False) = (dest_of p, p_sequence p)" "good_packet C (SetMissed p False)"
      by blast+
    then show ?thesis
      using wa m m' sc by (auto simp: waiting_ok_def screen_apart split: if_splits)
  qed
  moreover have "recorded C d \<subseteq> recorded C (ro_manage O' oc d)" using step by (auto simp: on_record_def)
  moreover have "packet_key (outcome_packet oc) \<in> recorded C (ro_manage O' oc d)"
    using step [of "dest_of (outcome_packet oc)"] oc'(1) by (cases oc) (auto simp: on_record_def packet_key_def)
  ultimately show ?thesis using step by (simp add: db_inv_def)
qed

lemma refeed_dinv:
  assumes d: "dinv C d" and c: "c \<in> C" and r: "ro_refeed O' c d = (r, d')"
  defines "ps \<equiv> (case r of Inl e \<Rightarrow> [] | Inr ps \<Rightarrow> ps)"
  shows "dinv C d' \<and> recorded C d \<subseteq> recorded C d' \<union> packet_key ` set ps \<and> (\<forall>p \<in> set ps. good_packet C p)"
proof -
  obtain m where m: "view d (retry_ns @ c) = Some m" "retry_ok m"
    using d c by (auto simp: db_inv_def ns_open_def)
  obtain m' where m': "view d' = (view d)(retry_ns @ c \<mapsto> m')" "retry_ok m'"
    and out: "case r of Inl e \<Rightarrow> m' = m
         | Inr ps \<Rightarrow> \<exists>X. X \<subseteq> dom (retry_map m) \<and> set ps = (\<lambda>n. the (retry_map m n)) ` X \<and>
             retry_map m' = retry_map m |` (- X)"
    using refeed_view [OF m] r by auto
  obtain X where X: "X \<subseteq> dom (retry_map m)" "set ps = (\<lambda>n. the (retry_map m n)) ` X" "retry_map m' = retry_map m |` (- X)"
  proof (cases r)
    case (Inl e)
    then show ?thesis using that [of "{}"] out by (simp add: ps_def restrict_map_def)
  next
    case (Inr qs)
    then show ?thesis using that out by (auto simp: ps_def)
  qed
  have w: "packet_key p = (c, n) \<and> good_packet C p" if "retry_map m n = Some p" for n p
    using d c m(1) that by (simp add: db_inv_def waiting_ok_def)
  have "dinv C d'"
    using d m' X(3) by (auto simp: db_inv_def ns_open_def waiting_ok_def apart screen_apart m(1) restrict_map_def split: if_splits)
  moreover have "\<forall>p \<in> set ps. good_packet C p" using X w by fastforce
  moreover have "recorded C d \<subseteq> recorded C d' \<union> packet_key ` set ps"
  proof
    fix x
    assume x: "x \<in> recorded C d"
    obtain c' n where x': "x = (c', n)" by fastforce
    show "x \<in> recorded C d' \<union> packet_key ` set ps"
    proof (cases "c' = c \<and> n \<in> X")
      case True
      then have "(c, n) \<in> packet_key ` set ps" using X(1,2) w by force
      then show ?thesis using True x' by simp
    next
      case False
      then have "n \<in> waiting view (retry_ns @ c') d' \<longleftrightarrow> n \<in> waiting view (retry_ns @ c') d"
        using m' X(3) m(1) by (auto simp: waiting_def)
      moreover have "delivered view (base_ns @ c') d' = delivered view (base_ns @ c') d"
        using m' by (simp add: delivered_def apart)
      ultimately show ?thesis using x x' by (auto simp: on_record_def)
    qed
  qed
  ultimately show ?thesis by blast
qed

lemma prune_dinv:
  assumes d: "dinv C d" and c: "c \<in> C"
  shows "dinv C (ro_prune O' c d) \<and> recorded C d \<subseteq> recorded C (ro_prune O' c d) \<union>
    {c} \<times> (ro_delivered O' d c - ro_delivered O' (ro_prune O' c d) c)"
proof -
  obtain m where m: "view d (base_ns @ c) = Some m" "base_ok m"
    using d c by (auto simp: db_inv_def ns_open_def)
  obtain m' where m': "view (ro_prune O' c d) = (view d)(base_ns @ c \<mapsto> m')" "base_ok m'"
    using prune_view [OF m] by blast
  have "dinv C (ro_prune O' c d)"
    using d m' by (auto simp: db_inv_def ns_open_def waiting_ok_def apart apart [symmetric] screen_apart)
  moreover have "waiting view (retry_ns @ c') (ro_prune O' c d) = waiting view (retry_ns @ c') d" for c'
    using m' by (simp add: waiting_def apart [symmetric])
  moreover have "c' \<noteq> c \<Longrightarrow> delivered view (base_ns @ c') (ro_prune O' c d) = delivered view (base_ns @ c') d" for c'
    using m' by (simp add: delivered_def)
  ultimately have "c' \<in> C \<Longrightarrow> n \<in> delivered view (base_ns @ c') d \<or> n \<in> waiting view (retry_ns @ c') d \<Longrightarrow>
      (c', n) \<in> recorded C (ro_prune O' c d) \<union> {c} \<times> (ro_delivered O' d c - ro_delivered O' (ro_prune O' c d) c)" for c' n
    by (cases "c' = c") (auto simp: on_record_def delivered_view)
  then have "recorded C d \<subseteq> recorded C (ro_prune O' c d) \<union>
      {c} \<times> (ro_delivered O' d c - ro_delivered O' (ro_prune O' c d) c)"
    unfolding on_record_def [of _ _ _ _ d] by blast
  then show ?thesis using \<open>dinv C (ro_prune O' c d)\<close> by blast
qed

lemma set_remove1_insert: "set xs \<subseteq> insert x (set (remove1 x xs))"
proof
  fix y
  assume "y \<in> set xs"
  then show "y \<in> insert x (set (remove1 x xs))" by (cases "y = x") (simp_all add: in_set_remove1)
qed

lemma deliver_outcome:
  assumes d: "dinv C d" and "rl_StoreWhiteStatus R = ro_store_white O'" and "no_panic R"
    and "sign_and_send an R (ro_name O') p w d = (Inr (), es, d')"
  shows "dinv C d' \<and> recorded C d' = recorded C d \<and>
    map snd (handed es) = (if IsMissed p then [] else [outcome_of R p w])"
proof -
  obtain d1 where d1: "ro_store_white O' p w d = (Inr (), d1)" "view d1 screen_ns \<noteq> None"
    "\<forall>ns. ns \<noteq> screen_ns \<longrightarrow> view d1 ns = view d ns"
    using store_answers d by (metis db_inv_def)
  have st: "rl_StoreWhiteStatus R p w d = (Inr (), d1)" using assms(2) d1(1) by simp
  note send = sign_and_send_handed [OF name_registered assms(3) st, of an]
  then have "d' = d \<or> d' = d1" using assms(4) by (auto split: if_splits)
  then have "dinv C d' \<and> recorded C d' = recorded C d" using screen_frame [OF d d1(3,2)] d by auto
  then show ?thesis using send assms(4) by auto
qed

lemma outcome_of_packet [simp]: "outcome_packet (outcome_of R p w) = p"
  by (simp add: outcome_of_def)

abbreviation accounted :: "'d relay_sys \<Rightarrow> (string \<times> u64) set" where
  "accounted s \<equiv> in_hand s \<union> recorded (ro_dests O') (sy_db s) \<union> sy_pruned s"

abbreviation inv :: "'d relay_sys \<Rightarrow> bool" where
  "inv \<equiv> relay_inv view base_ns retry_ns screen_ns O'"

lemma relay_step_inv:
  assumes "relay_step an O' s ev s'" and "inv s"
  shows "inv s' \<and> accounted s \<subseteq> accounted s' \<and> (\<forall>p. ev = Feed p \<longrightarrow> packet_key p \<in> in_hand s')"
  using assms
proof (induction rule: relay_step.induct)
  case (feed p s)
  then show ?case
    by (auto simp: relay_inv_def in_workers_def in_hand_def good_packet_def running_def)
next
  case (feed_missed s p)
  then show ?case by (auto simp: relay_inv_def in_workers_def in_hand_def running_def)
next
  case (refeed c s r d')
  let ?ps = "case r of Inl e \<Rightarrow> [] | Inr ps \<Rightarrow> ps"
  have d: "dinv (ro_dests O') (sy_db s)" using refeed.prems by (simp add: relay_inv_def)
  note r = refeed_dinv [OF d refeed.hyps]
  then have "packet_key ` set ?ps \<subseteq> in_hand (s\<lparr>sy_feeding := ?ps @ sy_feeding s, sy_db := d'\<rparr>)"
    by (auto simp: in_hand_def in_workers_def good_packet_def)
  moreover have "in_hand s \<subseteq> in_hand (s\<lparr>sy_feeding := ?ps @ sy_feeding s, sy_db := d'\<rparr>)"
    by (auto simp: in_hand_def in_workers_def)
  ultimately show ?case using r refeed.prems by (auto simp: relay_inv_def in_workers_def running_def)
next
  case (prune c s)
  have d: "dinv (ro_dests O') (sy_db s)" using prune.prems by (simp add: relay_inv_def)
  show ?case
    using prune_dinv [OF d prune.hyps] prune.prems
    by (auto simp: relay_inv_def in_workers_def in_hand_def running_def)
next
  case (take_packet p s)
  have "in_workers (s\<lparr>sy_feeding := remove1 p (sy_feeding s), sy_fetched := p # sy_fetched s\<rparr>) = in_workers s"
    using take_packet.hyps(1) set_remove1_insert [of "sy_feeding s" p] set_remove1_subset [of p "sy_feeding s"] by (auto simp: in_workers_def)
  then show ?case using take_packet by (auto simp: relay_inv_def in_hand_def running_def)
next
  case (screening p s w d')
  have d: "dinv (ro_dests O') (sy_db s)" using screening.prems by (simp add: relay_inv_def)
  then have "view (sy_db s) screen_ns \<noteq> None" by (simp add: db_inv_def)
  from screen_answers [OF this, of p] screening.hyps(2)
  have f: "view d' screen_ns \<noteq> None" "\<forall>ns. ns \<noteq> screen_ns \<longrightarrow> view d' ns = view (sy_db s) ns" by auto
  have "in_workers (s\<lparr>sy_fetched := remove1 p (sy_fetched s), sy_screened := (p, w) # sy_screened s, sy_db := d'\<rparr>) =
      in_workers s"
    using screening.hyps(1) set_remove1_insert [of "sy_fetched s" p] set_remove1_subset [of p "sy_fetched s"] by (auto simp: in_workers_def)
  moreover have "length (sy_fetched s) = Suc (length (remove1 p (sy_fetched s)))"
    using screening.hyps(1) length_pos_if_in_set [OF screening.hyps(1)] by (simp add: length_remove1)
  ultimately show ?case
    using screen_frame [OF d f(2,1)] screening.prems by (auto simp: relay_inv_def in_hand_def running_def)
next
  case (deliver p w s R es d')
  have d: "dinv (ro_dests O') (sy_db s)" using deliver.prems by (simp add: relay_inv_def)
  note out = deliver_outcome [OF d deliver.hyps(2-4)]
  let ?s' = "s\<lparr>sy_screened := remove1 (p, w) (sy_screened s), sy_handed := map snd (handed es) @ sy_handed s, sy_db := d'\<rparr>"
  have sub: "set (remove1 (p, w) (sy_screened s)) \<subseteq> set (sy_screened s)"
    "set (sy_screened s) \<subseteq> insert (p, w) (set (remove1 (p, w) (sy_screened s)))"
    by (rule set_remove1_subset, rule set_remove1_insert)
  have pw: "p \<in> in_workers s" using deliver.hyps(1) by (force simp: in_workers_def)
  have w': "in_workers ?s' \<subseteq> in_workers s" "in_workers s \<subseteq> insert p (in_workers ?s')"
    using image_mono [OF sub(1), of fst] image_mono [OF sub(2), of fst] unfolding in_workers_def by auto
  have "in_hand s \<subseteq> in_hand ?s'" using w'(2) out by (auto simp: in_hand_def)
  moreover have "running ?s' \<le> running s" by (simp add: running_def length_remove1)
  moreover have "\<forall>oc \<in> set (sy_handed ?s'). good_packet (ro_dests O') (outcome_packet oc)"
    using out deliver.prems pw by (auto simp: relay_inv_def)
  ultimately show ?case using out w'(1) deliver.prems by (auto simp: relay_inv_def)
next
  case (record_outcome oc s)
  have d: "dinv (ro_dests O') (sy_db s)" "good_packet (ro_dests O') (outcome_packet oc)"
    using record_outcome by (simp_all add: relay_inv_def)
  let ?s' = "s\<lparr>sy_handed := remove1 oc (sy_handed s), sy_db := ro_manage O' oc (sy_db s)\<rparr>"
  have "in_hand s \<subseteq> insert (packet_key (outcome_packet oc)) (in_hand ?s')"
    using set_remove1_insert [of "sy_handed s" oc] by (auto simp: in_hand_def in_workers_def)
  moreover have "in_workers ?s' = in_workers s" "set (sy_handed ?s') \<subseteq> set (sy_handed s)"
    using set_remove1_subset [of oc] by (simp_all add: in_workers_def)
  ultimately show ?case
    using manage_dinv [OF d] record_outcome.prems by (auto simp: relay_inv_def running_def)
qed

lemma relay_run_inv:
  assumes "relay_run an O' s0 evs s" and "inv s0"
  shows "inv s \<and> accounted s0 \<subseteq> accounted s \<and> (\<forall>p. Feed p \<in> set evs \<longrightarrow> packet_key p \<in> accounted s)"
  using assms
proof (induction rule: relay_run.induct)
  case (run_step evs s ev s')
  then show ?case using relay_step_inv [OF run_step.hyps(2)] by fastforce
qed simp

end

section \<open>Both chains meet the contract\<close>

lemma retry_map_key:
  assumes "retry_ok m" and "retry_map m n = Some p"
  shows "\<exists>q. p = SetMissed q False \<and> p_sequence q = n"
proof -
  obtain v where v: "m (be64 n) = Some v" "unmarshal_packet v = Inr p"
    using assms(2) by (auto simp: retry_map_def split: option.splits sum.splits)
  then obtain q where "ascii_packet q" "be64 n = be64 (p_sequence q)" "v = marshal_packet q"
    using assms(1) unfolding retry_ok_def by blast
  then show ?thesis using v(2) by (auto simp: unmarshal_marshal_packet)
qed

lemma refeed_contract:
  assumes B: "bbolt_cursor B view" and v: "view d ns = Some m" and ok: "retry_ok m" and n: "n \<noteq> 0"
  shows "\<exists>r d' m'. RetrieveAndDeleteNPackets B ns n d = (r, d') \<and> view d' = (view d)(ns \<mapsto> m') \<and> retry_ok m' \<and>
    (case r of Inl e \<Rightarrow> m' = m
     | Inr ps \<Rightarrow> \<exists>X. X \<subseteq> dom (retry_map m) \<and> set ps = (\<lambda>n. the (retry_map m n)) ` X \<and> retry_map m' = retry_map m |` (- X))"
proof (cases "dom m = {}")
  case True
  then obtain e where "retrieveAndDeleteNKeysFromFirst B ns n d = (Inl e, d)"
    using bbolt_cursor.retrieveAndDelete_empty [OF B v] by blast
  then have "RetrieveAndDeleteNPackets B ns n d = (Inl e, d)" by (simp add: RetrieveAndDeleteNPackets_def)
  moreover have "view d = (view d)(ns \<mapsto> m)" using v by auto
  ultimately show ?thesis using ok by fastforce
next
  case False
  let ?X = "set (take n (sorted_list_of_set (dom (retry_map m))))"
  have fin: "finite (dom m)"
    using bbolt.finite_view [OF bbolt_reliable.axioms(1) [OF bbolt_cursor.axioms(1) [OF B]] v] .
  have "finite (dom (retry_map m))"
    using finite_imageD [of be64 "dom (retry_map m)"] finite_subset [OF _ fin, of "be64 ` dom (retry_map m)"]
      retry_map_dom [OF ok] by (auto simp: inj_on_def)
  then have "?X \<subseteq> dom (retry_map m)" using set_take_subset by (metis set_sorted_list_of_set)
  moreover obtain d' m' where "RetrieveAndDeleteNPackets B ns n d =
      (Inr (map (\<lambda>s. the (retry_map m s)) (take n (sorted_list_of_set (dom (retry_map m))))), d')"
    "view d' = (view d)(ns \<mapsto> m')" "retry_ok m'" "retry_map m' = retry_map m |` (- ?X)"
    using RetrieveAndDeleteNPackets_effect [OF B v ok False n] by blast
  ultimately show ?thesis by (intro exI conjI) (assumption | auto)+
qed

lemma prune_contract:
  assumes B: "bbolt_reliable B view" and v: "view d ns = Some m" and ok: "base_ok m"
  shows "\<exists>m'. view (snd (PruneBaseSeqNum B ns d)) = (view d)(ns \<mapsto> m') \<and> base_ok m'"
proof (cases "dom m = {}")
  case True
  note bb = bbolt_reliable.axioms(1) [OF B]
  have "bo_bucket B d ns" "bo_first B d ns = None"
    using bbolt.bucket_iff [OF bb] bbolt.first_view [OF bb v] v True by (auto simp: least_pair_def)
  then have "snd (PruneBaseSeqNum B ns d) = d"
    by (simp add: PruneBaseSeqNum_def retrieveNKeyValuesFromFirst_def numeral_eq_Suc)
  moreover have "view d = (view d)(ns \<mapsto> m)" using v by auto
  ultimately show ?thesis using ok by metis
next
  case False
  from bbolt_reliable.prune_effect [OF B v ok this] show ?thesis
    using base_ok_restrict [OF ok] by fastforce
qed

lemma eth_relay_parts:
  assumes "bbolt_cursor B view"
  shows "relay_parts (eth_ops B view an C workers) view eth_baseSeqNumNameSpacePrefix
    eth_retryPacketNamespacePrefix p_height screen_namespace"
proof (rule relay_parts.intro)
  note rel = bbolt_cursor.axioms(1) [OF assms]
  show "outcome_recorder (ro_manage (eth_ops B view an C workers)) view eth_baseSeqNumNameSpacePrefix
      eth_retryPacketNamespacePrefix p_height"
    using eth_recorder [OF rel, of an] by (simp add: eth_ops_def)
  show "screening (ro_screen (eth_ops B view an C workers)) (ro_store_white (eth_ops B view an C workers)) view
      screen_namespace"
    using screener_contract [OF rel] by (simp add: eth_ops_def)
  show "relay_parts_axioms (eth_ops B view an C workers) view eth_baseSeqNumNameSpacePrefix
      eth_retryPacketNamespacePrefix screen_namespace"
  proof
    show "screen_namespace \<noteq> eth_baseSeqNumNameSpacePrefix @ c" "screen_namespace \<noteq> eth_retryPacketNamespacePrefix @ c" for c
      by (simp_all add: screen_namespace_def eth_baseSeqNumNameSpacePrefix_def eth_retryPacketNamespacePrefix_def)
  qed (use refeed_contract [OF assms] prune_contract [OF rel] in
      \<open>auto simp: eth_ops_def retrievePacketNum_def RegisteredChannels_def\<close>)
qed

lemma aleo_relay_parts:
  assumes "bbolt_cursor B view"
  shows "relay_parts (aleo_ops B view an C workers) view aleo_baseSeqNumNameSpacePrefix
    aleo_retryPacketNamespacePrefix (\<lambda>p. 0) screen_namespace"
proof (rule relay_parts.intro)
  note rel = bbolt_cursor.axioms(1) [OF assms]
  show "outcome_recorder (ro_manage (aleo_ops B view an C workers)) view aleo_baseSeqNumNameSpacePrefix
      aleo_retryPacketNamespacePrefix (\<lambda>p. 0)"
    using aleo_recorder [OF rel, of an] by (simp add: aleo_ops_def)
  show "screening (ro_screen (aleo_ops B view an C workers)) (ro_store_white (aleo_ops B view an C workers)) view
      screen_namespace"
    using screener_contract [OF rel] by (simp add: aleo_ops_def)
  show "relay_parts_axioms (aleo_ops B view an C workers) view aleo_baseSeqNumNameSpacePrefix
      aleo_retryPacketNamespacePrefix screen_namespace"
  proof
    show "screen_namespace \<noteq> aleo_baseSeqNumNameSpacePrefix @ c" "screen_namespace \<noteq> aleo_retryPacketNamespacePrefix @ c" for c
      by (simp_all add: screen_namespace_def aleo_baseSeqNumNameSpacePrefix_def aleo_retryPacketNamespacePrefix_def)
  qed (use refeed_contract [OF assms] prune_contract [OF rel] in
      \<open>auto simp: aleo_ops_def retrievePacketNum_def RegisteredChannels_def\<close>)
qed

interpretation eth_sys: relay_parts "eth_ops mem_bolt mem_view an C workers" mem_view
  eth_baseSeqNumNameSpacePrefix eth_retryPacketNamespacePrefix p_height screen_namespace for an C workers
  by (rule eth_relay_parts [OF mem.bbolt_cursor_axioms])

interpretation aleo_sys: relay_parts "aleo_ops mem_bolt mem_view an C workers" mem_view
  aleo_baseSeqNumNameSpacePrefix aleo_retryPacketNamespacePrefix "\<lambda>p. 0" screen_namespace for an C workers
  by (rule aleo_relay_parts [OF mem.bbolt_cursor_axioms])

section \<open>No packet is lost\<close>

lemma relay_start_inv:
  assumes "db_inv view base_ns retry_ns screen_ns (ro_dests O') d"
  shows "relay_inv view base_ns retry_ns screen_ns O' (relay_start d)"
  using assms by (simp add: relay_inv_def relay_start_def in_workers_def running_def)



lemma fresh_good: "storable fresh_packet" "dest_of fresh_packet = ''2''"
  unfolding fresh_packet_def by (simp_all add: sample_storable sample_dest)

text \<open>A run in which the packet is fed, taken by the only worker and screened.\<close>

lemma sample_screening:
  "\<exists>w d'. Screen mem_bolt fresh_packet d = (Inr w, d')" if "mem_view d screen_namespace \<noteq> None"
  using screening.screen_answers [OF mem_screen.screening_axioms that] by blast

lemma sample_run:
  assumes "ro_dests ops = {''2''}" and "ro_workers ops = 1" and "ro_screen ops = Screen mem_bolt"
    and "mem_view d screen_namespace \<noteq> None"
  shows "\<exists>s. relay_run ''a'' ops (relay_start d) [Feed fresh_packet, Take fresh_packet, Screening fresh_packet] s"
proof -
  obtain w d' where w: "ro_screen ops fresh_packet d = (Inr w, d')" using sample_screening [OF assms(4)] assms(3) by auto
  let ?s1 = "(relay_start d)\<lparr>sy_feeding := [fresh_packet]\<rparr>"
  let ?s2 = "?s1\<lparr>sy_feeding := [], sy_fetched := [fresh_packet]\<rparr>"
  have 1: "relay_step ''a'' ops (relay_start d) (Feed fresh_packet) ?s1"
    using relay_step.feed [of fresh_packet ops "''a''" "relay_start d"] fresh_not_missed fresh_good assms(1)
    by (simp add: relay_start_def)
  have 2: "relay_step ''a'' ops ?s1 (Take fresh_packet) ?s2"
    using relay_step.take_packet [of fresh_packet ?s1 ops "''a''"] assms(2) by (simp add: relay_start_def running_def)
  have 3: "relay_step ''a'' ops ?s2 (Screening fresh_packet)
      (?s2\<lparr>sy_fetched := [], sy_screened := [(fresh_packet, w)], sy_db := d'\<rparr>)"
    using relay_step.screening [of fresh_packet ?s2 ops w d' "''a''"] w by (simp add: relay_start_def)
  show ?thesis
    using run_step [OF run_step [OF run_step [OF run_start 1] 2] 3] by auto
qed

definition aleo_relay_db :: memdb where
  "aleo_relay_db = [(''walletScreeningNS'', []), (''aleo_bsns2'', []), (''aleo_rpns2'', [])]"

lemma relay_db_inv:
  "db_inv mem_view eth_baseSeqNumNameSpacePrefix eth_retryPacketNamespacePrefix screen_namespace {''2''} relay_db"
  "db_inv mem_view aleo_baseSeqNumNameSpacePrefix aleo_retryPacketNamespacePrefix screen_namespace {''2''} aleo_relay_db"
  by (auto simp: db_inv_def ns_open_def waiting_ok_def mem_view_def relay_db_def aleo_relay_db_def screen_namespace_def
      eth_baseSeqNumNameSpacePrefix_def eth_retryPacketNamespacePrefix_def aleo_baseSeqNumNameSpacePrefix_def
      aleo_retryPacketNamespacePrefix_def base_ok_def retry_ok_def retry_map_def)



end
