(* ===== verification/Logger.thy ===== *)
theory Logger
  imports Config Packets
begin

text \<open>
  \<open>chainService/logger/logger.go\<close>: the configuration of the logger and its one-time set-up. A
  logger of the zap library is the choices it is built from; the rotation of the log file is the
  argument \<open>rotateLog\<close>.
\<close>

record rotate_config =
  rc_maxSize :: int
  rc_maxBackup :: int
  rc_maxAge :: int
  rc_compress :: bool

definition getLogConfig :: "string \<Rightarrow> rotate_config" where
  "getLogConfig mode =
     (if mode = Production then \<lparr>rc_maxSize = 100, rc_maxBackup = 100, rc_maxAge = 180, rc_compress = True\<rparr>
      else \<lparr>rc_maxSize = 10, rc_maxBackup = 2, rc_maxAge = 2, rc_compress = False\<rparr>)"

datatype encoder_base = ProductionEncoder | DevelopmentEncoder
datatype encoding = ConsoleEncoding | JSONEncoding
datatype log_level = DebugLevel | InfoLevel
datatype log_output = LogFile string rotate_config | LogStdout

record encoder_keys =
  ek_TimeKey :: string
  ek_LevelKey :: string
  ek_CallerKey :: string
  ek_StacktraceKey :: string
  ek_MessageKey :: string

record zap_logger =
  zl_base :: encoder_base
  zl_keys :: encoder_keys
  zl_encoding :: encoding
  zl_outputs :: "log_output list"
  zl_level :: log_level
  zl_development :: bool
  zl_addCaller :: bool

definition log_outputs :: "string \<Rightarrow> logger_config \<Rightarrow> log_output list" where
  "log_outputs mode cfg =
     (let lumber = LogFile (lc_OutputPath cfg) (getLogConfig mode)
      in if mode = Development \<or> mode = Stage then [lumber, LogStdout] else [lumber])"

definition initLog :: "(string \<Rightarrow> unit res) \<Rightarrow> string \<Rightarrow> logger_config option \<Rightarrow> zap_logger res" where
  "initLog rotateLog mode cfg =
     (case cfg of
        None \<Rightarrow> Inl nil_deref
      | Some cfg \<Rightarrow>
          (case rotateLog (lc_OutputPath cfg) of
             Inl e \<Rightarrow> Inl (Panic (error_text e))
           | Inr u \<Rightarrow>
               Inr \<lparr>zl_base = (if mode = Production then ProductionEncoder else DevelopmentEncoder),
                    zl_keys = \<lparr>ek_TimeKey = ''ts'', ek_LevelKey = ''level'', ek_CallerKey = ''caller'',
                               ek_StacktraceKey = ''stacktrace'', ek_MessageKey = ''msg''\<rparr>,
                    zl_encoding = (if lc_Encoding cfg = ''json'' then JSONEncoding else ConsoleEncoding),
                    zl_outputs = log_outputs mode cfg,
                    zl_level = DebugLevel,
                    zl_development = (mode \<noteq> Production),
                    zl_addCaller = (mode \<noteq> Production)\<rparr>))"

text \<open>
  The package variables. \<open>sync.Once\<close> marks itself done even when its function panics, so only the
  first call has an effect. The logger is \<open>None\<close> while it is the default one of \<open>init\<close>.
\<close>

record logging_state =
  ls_once :: bool
  ls_logger :: "zap_logger option"
  ls_AttestorName :: string

definition logging_init :: logging_state where
  "logging_init = \<lparr>ls_once = False, ls_logger = None, ls_AttestorName = []\<rparr>"

definition InitLogging ::
    "(string \<Rightarrow> unit res) \<Rightarrow> string \<Rightarrow> string \<Rightarrow> logger_config option \<Rightarrow> logging_state \<Rightarrow> unit res \<times> logging_state" where
  "InitLogging rotateLog mode name cfg st =
     (if ls_once st then (Inr (), st)
      else case initLog rotateLog mode cfg of
             Inl e \<Rightarrow> (Inl e, st\<lparr>ls_once := True\<rparr>)
           | Inr l \<Rightarrow> (Inr (), \<lparr>ls_once = True, ls_logger = Some l, ls_AttestorName = name\<rparr>))"

end
