(* ===== verification/Attestor.thy ===== *)
theory Attestor
  imports Relay Logger
begin

text \<open>
  \<open>chainService/main.go\<close> and \<open>signal.go\<close>, the pusher of \<open>metrics/metrics.go\<close> and the opening of
  the database (\<open>store.InitKVStore\<close>): how the parts of the service are put together.
\<close>

section \<open>Signals\<close>

datatype signal =
    SIGINT | SIGTERM | SIGQUIT | SIGILL | SIGTRAP | SIGABRT | SIGSTKFLT | SIGSYS
  | SIGHUP | SIGALRM | SIGVTALRM | SIGUSR1 | SIGUSR2

definition getKillSignals :: "signal list" where
  "getKillSignals = [SIGINT, SIGTERM, SIGQUIT, SIGILL, SIGTRAP, SIGABRT, SIGSTKFLT, SIGSYS]"

definition getIgnoreSignals :: "signal list" where
  "getIgnoreSignals = [SIGHUP, SIGALRM, SIGVTALRM, SIGUSR1, SIGUSR2]"

section \<open>The database and the pusher\<close>

text \<open>\<open>bbolt.Open\<close> with the mode of the file; its result is the database.\<close>

definition initDB :: "(string \<Rightarrow> nat \<Rightarrow> 'd res) \<Rightarrow> string \<Rightarrow> 'd res" where
  "initDB open_db path = open_db path 429"

definition InitKVStore :: "(string \<Rightarrow> nat \<Rightarrow> 'd res) \<Rightarrow> string \<Rightarrow> 'd res" where
  "InitKVStore open_db path = initDB open_db path"

definition closeDB :: "('d \<Rightarrow> unit res) \<Rightarrow> 'd \<Rightarrow> unit res" where
  "closeDB close_db d = close_db d"

definition CloseDB :: "('d \<Rightarrow> unit res) \<Rightarrow> 'd \<Rightarrow> unit res" where
  "CloseDB close_db d = closeDB close_db d"

record pusher =
  pu_host :: string
  pu_job :: string
  pu_instance :: string

definition InitMetrics ::
    "'f filesystem \<Rightarrow> (string \<Rightarrow> string \<Rightarrow> unit res) \<Rightarrow> collector_service_config \<Rightarrow> config \<Rightarrow> 'f \<Rightarrow> pusher res" where
  "InitMetrics F LoadX509KeyPair cfg globalCfg f =
     (case fs_read F f (co_CaCertificate cfg) of
        Inl e \<Rightarrow> Inl e
      | Inr caCert \<Rightarrow>
          (case LoadX509KeyPair (co_AttestorCertificate cfg) (co_AttestorKey cfg) of
             Inl e \<Rightarrow> Inl (Panic (error_text e))
           | Inr u \<Rightarrow>
               Inr \<lparr>pu_host = mc_Host (cf_MetricConfig globalCfg), pu_job = mc_JobName (cf_MetricConfig globalCfg),
                    pu_instance = cf_Mode globalCfg\<rparr>))"

text \<open>
  \<open>PushMetrics\<close> hands the registry to the pusher first, which fails for the nil pusher of a failed
  \<open>InitMetrics\<close>. Then each tick pushes; errors are logged and change nothing.
\<close>

definition PushMetrics :: "pusher option \<Rightarrow> prometheus_metrics \<Rightarrow> (vec list \<Rightarrow> unit res) list \<Rightarrow> unit res list res" where
  "PushMetrics p m pushes =
     (case p of None \<Rightarrow> Inl nil_deref | Some x \<Rightarrow> Inr (map (\<lambda>push. push (pm_registry m)) pushes))"

section \<open>main\<close>

text \<open>How the process ends its start-up: it exits with a code, crashes, or runs the relay.\<close>

datatype 'a startup = Exit int | Crash gerror | Running 'a

record 'd attestor =
  at_config :: config
  at_logging :: logging_state
  at_pusher :: "pusher option"
  at_metrics :: prometheus_metrics
  at_signer :: sign_service
  at_collector :: collector
  at_clients :: "chain_client list"
  at_relay :: "'d relay_state"

text \<open>What the process finds when it starts: files, the YAML decoder, log rotation, certificates.\<close>

record ('f, 'd) host =
  ho_files :: "'f filesystem"
  ho_decode :: "bytes \<Rightarrow> config res"
  ho_rotate :: "string \<Rightarrow> unit res"
  ho_keypair :: "string \<Rightarrow> string \<Rightarrow> unit res"
  ho_open :: "string \<Rightarrow> nat \<Rightarrow> 'd res"

text \<open>
  A failure of \<open>InitMetrics\<close> is only logged; the process then crashes in the goroutine of
  \<open>PushMetrics\<close>.
\<close>

definition attestor_main ::
    "'d bolt \<Rightarrow> 'l world \<Rightarrow> http_env \<Rightarrow> ('f, 'd) host \<Rightarrow> flag_args \<Rightarrow> 'f \<Rightarrow> 'd attestor startup" where
  "attestor_main B W H S flagArgs f =
     (case InitConfig (ho_files S) (ho_decode S) flagArgs f of
        (Inl e, f1) \<Rightarrow> if is_panic e then Crash e else Exit 1
      | (Inr cfg, f1) \<Rightarrow>
     (case InitLogging (ho_rotate S) (cf_Mode cfg) (cf_Name cfg) (cf_LogConfig cfg) logging_init of
        (Inl e, lg) \<Rightarrow> Crash e
      | (Inr u, lg) \<Rightarrow>
     (case InitMetrics (ho_files S) (ho_keypair S) (cf_CollectorServiceConfig cfg) cfg f1 of
        Inl e \<Rightarrow> if is_panic e then Crash e
                 else (case InitKVStore (ho_open S) (cf_DBPath cfg) of Inl e' \<Rightarrow> Exit 1 | Inr d \<Rightarrow> Crash nil_deref)
      | Inr pusher \<Rightarrow>
     (case InitKVStore (ho_open S) (cf_DBPath cfg) of
        Inl e \<Rightarrow> Exit 1
      | Inr d \<Rightarrow>
     (case NewPrometheusMetrics of
        Inl e \<Rightarrow> Crash e
      | Inr pmetrics0 \<Rightarrow>
     (case StartVersion (ls_AttestorName lg) (cf_Version cfg) pmetrics0 of
        Inl e \<Rightarrow> Crash e
      | Inr pmetrics \<Rightarrow>
     (case StartRelay B W H (ho_files S) (ho_keypair S) cfg f1
             \<lparr>rs_chainIDToChain = Map.empty, rs_aleo_namespaces = \<lparr>nsp_base = [], nsp_retry = []\<rparr>,
              rs_eth_namespaces = \<lparr>nsp_base = [], nsp_retry = []\<rparr>, rs_db = d\<rparr> of
        Inl e \<Rightarrow> Crash e
      | Inr (s, c, cls, st) \<Rightarrow>
          Running \<lparr>at_config = cfg, at_logging = lg, at_pusher = Some pusher, at_metrics = pmetrics,
                   at_signer = s, at_collector = c, at_clients = cls, at_relay = st\<rparr>)))))))"

end
