(* ===== verification/RelayStart.thy ===== *)
theory RelayStart
  imports RelaySystem Attestor
begin

text \<open>
  What the set-up of the relay establishes: the configuration after \<open>validateChainConfig\<close>, the
  namespaces and clients after \<open>StartRelay\<close>, and the polling of the collector that it starts.
\<close>

section \<open>Namespaces\<close>

text \<open>
  A database whose namespaces, as far as they exist, hold what the chains store there: the stored
  packets are those of their destination under their number.
\<close>

definition sound_db ::
    "('d \<Rightarrow> string \<Rightarrow> (bytes \<rightharpoonup> bytes) option) \<Rightarrow> string \<Rightarrow> string \<Rightarrow> 'd \<Rightarrow> bool" where
  "sound_db view base_ns retry_ns d \<longleftrightarrow> (\<forall>c m.
     (view d (base_ns @ c) = Some m \<longrightarrow> base_ok m) \<and>
     (view d (retry_ns @ c) = Some m \<longrightarrow> retry_ok m \<and>
        (\<forall>n p. retry_map m n = Some p \<longrightarrow> packet_key p = (c, n) \<and> \<not> IsMissed p \<and> storable p)))"

text \<open>Only empty namespaces are added.\<close>

definition grown :: "('d \<Rightarrow> string \<Rightarrow> (bytes \<rightharpoonup> bytes) option) \<Rightarrow> 'd \<Rightarrow> 'd \<Rightarrow> bool" where
  "grown view d d' \<longleftrightarrow> (\<forall>ns m.
     (view d ns = Some m \<longrightarrow> view d' ns = Some m) \<and>
     (view d' ns = Some m \<longrightarrow> view d ns = Some m \<or> m = Map.empty))"

lemma grownD:
  "grown view d d' \<Longrightarrow> view d ns = Some m \<Longrightarrow> view d' ns = Some m"
  "grown view d d' \<Longrightarrow> view d' ns = Some m \<Longrightarrow> view d ns = Some m \<or> m = Map.empty"
  by (simp_all add: grown_def)

lemma grown_refl: "grown view d d"
  by (simp add: grown_def)

lemma grown_trans: "grown view d d1 \<Longrightarrow> grown view d1 d2 \<Longrightarrow> grown view d d2"
  unfolding grown_def by blast

lemma grown_open: "grown view d d' \<Longrightarrow> view d ns \<noteq> None \<Longrightarrow> view d' ns \<noteq> None"
  using grownD(1) by fastforce

definition opened ::
    "('d \<Rightarrow> string \<Rightarrow> (bytes \<rightharpoonup> bytes) option) \<Rightarrow> string \<Rightarrow> string \<Rightarrow> string set \<Rightarrow> 'd \<Rightarrow> bool" where
  "opened view b r C d \<longleftrightarrow> (\<forall>c \<in> C. view d (b @ c) \<noteq> None \<and> view d (r @ c) \<noteq> None)"

lemma opened_grown: "opened view b r C d \<Longrightarrow> grown view d d' \<Longrightarrow> opened view b r C d'"
  by (simp add: opened_def grown_open)

lemma empty_ok: "base_ok Map.empty" "retry_ok Map.empty" "retry_map Map.empty n = None"
  by (simp_all add: base_ok_def retry_ok_def retry_map_def)

lemma grown_sound:
  assumes "grown view d d'" and "sound_db view b r d"
  shows "sound_db view b r d'"
  unfolding sound_db_def
proof (intro allI conjI impI)
  fix c m
  show "base_ok m" if "view d' (b @ c) = Some m"
    using grownD(2) [OF assms(1) that] assms(2) empty_ok by (auto simp: sound_db_def)
  assume m: "view d' (r @ c) = Some m"
  then show "retry_ok m" using grownD(2) [OF assms(1) m] assms(2) empty_ok by (auto simp: sound_db_def)
  show "packet_key p = (c, n)" "\<not> IsMissed p" "storable p" if "retry_map m n = Some p" for n p
    using grownD(2) [OF assms(1) m] assms(2) empty_ok(3) [of n] that unfolding sound_db_def by fastforce+
qed

lemma created_grown:
  assumes "bbolt_reliable B view" and "[] \<notin> set names" and "CreateNamespaces B names d = (r, d')"
  shows "r = Inr () \<and> grown view d d' \<and> (\<forall>ns \<in> set names. view d' ns \<noteq> None)"
proof -
  have "r = Inr ()" and v: "view d' = (\<lambda>ns. if ns \<in> set names \<and> view d ns = None then Some Map.empty else view d ns)"
    using CreateNamespaces_effect [OF assms(1,2), of d] assms(3) by auto
  moreover have "grown view d d'" unfolding grown_def v by (simp split: if_splits)
  ultimately show ?thesis by simp
qed

lemma sound_db_inv:
  assumes "sound_db view b r d" and "opened view b r C d"
    and "view d screen_ns \<noteq> None"
  shows "db_inv view b r screen_ns C d"
proof -
  have "ns_open view b r C d" using assms(1,2) by (auto simp: ns_open_def sound_db_def opened_def)
  moreover have "waiting_ok view r C d"
    unfolding waiting_ok_def
  proof (intro ballI allI impI)
    fix c m n p
    assume "c \<in> C" and "view d (r @ c) = Some m" and "retry_map m n = Some p"
    then have "packet_key p = (c, n)" "\<not> IsMissed p" "storable p" using assms(1) unfolding sound_db_def by blast+
    then show "packet_key p = (c, n) \<and> good_packet C p"
      using \<open>c \<in> C\<close> by (auto simp: good_packet_def packet_key_def)
  qed
  ultimately show ?thesis using assms(3) by (simp add: db_inv_def)
qed

section \<open>The clients\<close>

text \<open>The namespaces that the package of the chain works with exist.\<close>

definition chain_opened ::
    "('d \<Rightarrow> string \<Rightarrow> (bytes \<rightharpoonup> bytes) option) \<Rightarrow> chain_config \<Rightarrow> 'd \<Rightarrow> bool" where
  "chain_opened view v d \<longleftrightarrow>
     (cc_Name v = ''ethereum'' \<longrightarrow>
        opened view eth_baseSeqNumNameSpacePrefix eth_retryPacketNamespacePrefix (set (cc_DestChains v)) d) \<and>
     (cc_Name v = ''aleo'' \<longrightarrow>
        opened view aleo_baseSeqNumNameSpacePrefix aleo_retryPacketNamespacePrefix (set (cc_DestChains v)) d)"

lemma chain_opened_grown:
  assumes "chain_opened view v d" and "grown view d d'"
  shows "chain_opened view v d'"
  using assms(1) opened_grown [OF _ assms(2)] by (simp add: chain_opened_def)

lemma chain_namespaces_set: "set (chain_namespaces r b cs) = (\<lambda>c. r @ c) ` set cs \<union> (\<lambda>c. b @ c) ` set cs"
  by (auto simp: chain_namespaces_def)

lemma eth_NewClient_opens:
  assumes "bbolt_reliable B view" and "eth_NewClient B L v nsp d = (Inr (cl, nsp'), d')"
  shows "grown view d d' \<and> ec_name cl = (if cc_Name v = [] then ''ethereum'' else cc_Name v) \<and>
    opened view eth_baseSeqNumNameSpacePrefix eth_retryPacketNamespacePrefix (set (cc_DestChains v)) d'"
proof -
  let ?names = "chain_namespaces eth_retryPacketNamespacePrefix eth_baseSeqNumNameSpacePrefix (cc_DestChains v)"
  have "CreateNamespaces B ?names d = (Inr (), d')"
    and cl: "ec_name cl = (if cc_Name v = [] then ''ethereum'' else cc_Name v)"
    using assms(2) by (auto simp: eth_NewClient_def split: sum.splits prod.splits)
  moreover have "[] \<notin> set ?names"
    by (auto simp: chain_namespaces_set eth_retryPacketNamespacePrefix_def eth_baseSeqNumNameSpacePrefix_def)
  ultimately show ?thesis
    using created_grown [OF assms(1), of ?names d "Inr ()" d'] by (auto simp: chain_namespaces_set opened_def)
qed

lemma aleo_NewClient_opens:
  assumes "bbolt_reliable B view" and "aleo_NewClient B v nsp d = (Inr (cl, nsp'), d')"
  shows "grown view d d' \<and> ac_name cl = (if cc_Name v = [] then ''aleo'' else cc_Name v) \<and>
    opened view aleo_baseSeqNumNameSpacePrefix aleo_retryPacketNamespacePrefix (set (cc_DestChains v)) d'"
proof -
  let ?names = "chain_namespaces aleo_retryPacketNamespacePrefix aleo_baseSeqNumNameSpacePrefix (cc_DestChains v)"
  have "CreateNamespaces B ?names d = (Inr (), d')"
    and cl: "ac_name cl = (if cc_Name v = [] then ''aleo'' else cc_Name v)"
    using assms(2) by (auto simp: aleo_NewClient_def Let_def split: sum.splits prod.splits list.splits)
  moreover have "[] \<notin> set ?names"
    by (auto simp: chain_namespaces_set aleo_retryPacketNamespacePrefix_def aleo_baseSeqNumNameSpacePrefix_def)
  ultimately show ?thesis
    using created_grown [OF assms(1), of ?names d "Inr ()" d'] by (auto simp: chain_namespaces_set opened_def)
qed

definition has_client :: "(string \<rightharpoonup> chain_client) \<Rightarrow> chain_config \<Rightarrow> bool" where
  "has_client clients v \<longleftrightarrow>
     (\<exists>cl. clients (bigint_str (cc_ChainID v)) = Some cl \<and> client_name cl \<in> {''aleo'', ''ethereum''})"

lemma init_client_opens:
  assumes "bbolt_reliable B view" and "init_client B W (Some v) st = Inr (cl, st')"
  shows "grown view (rs_db st) (rs_db st') \<and> chain_opened view v (rs_db st') \<and>
    cc_Name v \<in> {''aleo'', ''ethereum''} \<and> client_name cl = cc_Name v \<and>
    rs_chainIDToChain st' = (rs_chainIDToChain st)(bigint_str (cc_ChainID v) \<mapsto> cl)"
proof (cases "cc_Name v = ''ethereum''")
  case True
  then obtain c nsp d' where "eth_NewClient B (w_library W) v (rs_eth_namespaces st) (rs_db st) =
      (Inr (c, nsp), d')" and
    "cl = EthereumChain c" "rs_db st' = d'" "rs_chainIDToChain st' = (rs_chainIDToChain st)(bigint_str (cc_ChainID v) \<mapsto> cl)"
    using assms(2) by (auto simp: init_client_def RegisteredClients_def register_ethereum_def split: sum.splits prod.splits)
  then show ?thesis using eth_NewClient_opens [OF assms(1)] True by (auto simp: chain_opened_def)
next
  case False
  then have name: "cc_Name v = ''aleo''"
    using assms(2) by (auto simp: init_client_def RegisteredClients_def split: if_splits)
  then obtain c nsp d' where "aleo_NewClient B v (rs_aleo_namespaces st) (rs_db st) = (Inr (c, nsp), d')" and
    "cl = AleoChain c" "rs_db st' = d'" "rs_chainIDToChain st' = (rs_chainIDToChain st)(bigint_str (cc_ChainID v) \<mapsto> cl)"
    using assms(2) by (auto simp: init_client_def RegisteredClients_def register_aleo_def split: sum.splits prod.splits)
  then show ?thesis using aleo_NewClient_opens [OF assms(1)] name by (auto simp: chain_opened_def)
qed

definition registered_ids :: "(string \<rightharpoonup> chain_client) \<Rightarrow> string set" where
  "registered_ids clients = {k. \<exists>cl. clients k = Some cl \<and> client_name cl \<in> {''aleo'', ''ethereum''}}"

lemma initPacketFeeder_opens:
  assumes "bbolt_reliable B view" and "initPacketFeeder B W cs st = Inr (cls, st')"
  shows "grown view (rs_db st) (rs_db st') \<and>
    registered_ids (rs_chainIDToChain st) \<subseteq> registered_ids (rs_chainIDToChain st') \<and>
    (\<forall>v. Some v \<in> set cs \<longrightarrow> chain_opened view v (rs_db st') \<and> cc_Name v \<in> {''aleo'', ''ethereum''} \<and>
       bigint_str (cc_ChainID v) \<in> registered_ids (rs_chainIDToChain st'))"
  using assms(2)
proof (induction cs arbitrary: st cls)
  case Nil
  then show ?case by (simp add: grown_refl)
next
  case (Cons c cs)
  then obtain cl st1 cls1 where 1: "init_client B W c st = Inr (cl, st1)" "initPacketFeeder B W cs st1 = Inr (cls1, st')"
    by (auto split: sum.splits prod.splits)
  then obtain v where v: "c = Some v" by (cases c) (auto simp: init_client_def)
  note head = init_client_opens [OF assms(1) 1(1) [unfolded v]]
  note tail = Cons.IH [OF 1(2)]
  have ids: "registered_ids (rs_chainIDToChain st) \<union> {bigint_str (cc_ChainID v)} \<subseteq> registered_ids (rs_chainIDToChain st1)"
    using head by (auto simp: registered_ids_def)
  have 2: "grown view (rs_db st) (rs_db st1)" "chain_opened view v (rs_db st1)" "cc_Name v \<in> {''aleo'', ''ethereum''}"
    using head by simp_all
  have 3: "grown view (rs_db st1) (rs_db st')"
    "registered_ids (rs_chainIDToChain st1) \<subseteq> registered_ids (rs_chainIDToChain st')"
    using tail by simp_all
  have 4: "chain_opened view w (rs_db st') \<and> cc_Name w \<in> {''aleo'', ''ethereum''} \<and>
      bigint_str (cc_ChainID w) \<in> registered_ids (rs_chainIDToChain st')" if "Some w \<in> set (c # cs)" for w
  proof (cases "w = v")
    case True
    then show ?thesis using chain_opened_grown [OF 2(2) 3(1)] 2(3) 3(2) ids by blast
  next
    case False
    then show ?thesis using tail that v by auto
  qed
  show ?case using grown_trans [OF 2(1) 3(1)] 3(2) ids 4 by (meson Un_subset_iff order_trans)
qed

section \<open>StartRelay\<close>

lemma SetupScreenService_opens:
  assumes "bbolt_reliable B view" and "SetupScreenService B d = (Inr sc, d')"
  shows "grown view d d' \<and> view d' screen_namespace \<noteq> None"
proof -
  have "CreateNamespaces B [screen_namespace] d = (Inr (), d')"
    using assms(2) by (auto simp: SetupScreenService_def split: sum.splits prod.splits)
  from created_grown [OF assms(1) _ this] show ?thesis by (simp add: screen_namespace_def)
qed

lemma StartRelay_opens:
  assumes "bbolt_reliable B view" and "StartRelay B W H F kp cfg f st = Inr (s, c, cls, st')"
  shows "grown view (rs_db st) (rs_db st') \<and> view (rs_db st') screen_namespace \<noteq> None \<and>
    (\<forall>v. Some v \<in> set (cf_ChainConfigs cfg) \<longrightarrow> chain_opened view v (rs_db st') \<and>
       cc_Name v \<in> {''aleo'', ''ethereum''} \<and> bigint_str (cc_ChainID v) \<in> registered_ids (rs_chainIDToChain st'))"
proof -
  obtain sc d where 1: "SetupScreenService B (rs_db st) = (Inr sc, d)"
    "initPacketFeeder B W (cf_ChainConfigs cfg) (st\<lparr>rs_db := d\<rparr>) = Inr (cls, st')"
    using assms(2) by (auto simp: StartRelay_def split: sum.splits prod.splits)
  note sc = SetupScreenService_opens [OF assms(1) 1(1)]
  note feeder = initPacketFeeder_opens [OF assms(1) 1(2), simplified]
  have "grown view d (rs_db st')" using feeder by simp
  then show ?thesis using sc feeder grown_trans [of view "rs_db st" d "rs_db st'"] grown_open [of view d "rs_db st'"] by blast
qed


text \<open>An attestor of one Ethereum chain, on a host where every file is empty.\<close>

definition start_chain :: chain_config where
  "start_chain =
     \<lparr>cc_Name = ''ethereum'', cc_ChainID = Some 1, cc_BridgeContract = [], cc_NodeUrl = [], cc_PacketValidityWaitDuration = 0,
      cc_FeedPacketWaitDuration = 0, cc_FinalityHeight = 0, cc_WalletPath = [], cc_DestChains = [''2''],
      cc_WalletAddress = ''w'', cc_StartSeqNum = [], cc_StartHeight = 0, cc_FilterTopic = [], cc_RetryPacketWaitDur = 0,
      cc_PruneBaseSeqNumberWaitDur = 0, cc_AverageBlockGenDur = 0\<rparr>"

definition start_config :: config where
  "start_config =
     \<lparr>cf_Name = ''a'', cf_ChainConfigs = [Some start_chain], cf_LogConfig = None, cf_DBDir = [], cf_DBPath = [],
      cf_ConsumePacketWorker = 10, cf_Mode = ''dev'',
      cf_SigningServiceConfig = \<lparr>sc_Host = ''h'', sc_Port = 1, sc_Endpoint = ''/sign'', sc_Scheme = ''http'',
        sc_Username = ''user'', sc_Password = ''secret'', sc_HealthEndpoint = ''/health''\<rparr>,
      cf_CollectorServiceConfig = \<lparr>co_Uri = ''c'', co_CollectorWaitDur = 0, co_CaCertificate = [],
        co_AttestorCertificate = [], co_AttestorKey = []\<rparr>,
      cf_CheckHealthServiceDur = 0, cf_MetricConfig = \<lparr>mc_Host = [], mc_JobName = []\<rparr>, cf_Version = []\<rparr>"

definition start_world :: "(u64 \<times> out_packet) world" where
  "start_world = \<lparr>w_node = mem_node [], w_eth = sample_eth, w_http = (\<lambda>u. Inl TimeOutErr), 
     w_library = \<lparr>el_Dial = (\<lambda>u. Inr ()), el_NewBridge = (\<lambda>a. Inr ()), el_HexToAddress = (\<lambda>s. replicate 20 0),
       el_HexToHash = (\<lambda>s. replicate 32 0)\<rparr>\<rparr>"

definition start_http :: http_env where
  "start_http = \<lparr>he_Parse = (\<lambda>s. Inl TimeOutErr), he_Do = (\<lambda>r. Inr \<lparr>hp_Status = 400, hp_Body = [], hp_ReadErr = None\<rparr>)\<rparr>"

definition start_files :: "unit filesystem" where
  "start_files = \<lparr>fs_read = (\<lambda>f p. Inr []), fs_stat = (\<lambda>f p. StatDir), fs_mkdir_all = (\<lambda>f p m. Inr f),
     fs_remove = (\<lambda>f p. Inr None)\<rparr>"

definition fresh_state :: "memdb relay_state" where
  "fresh_state = \<lparr>rs_chainIDToChain = Map.empty, rs_aleo_namespaces = \<lparr>nsp_base = [], nsp_retry = []\<rparr>,
     rs_eth_namespaces = \<lparr>nsp_base = [], nsp_retry = []\<rparr>, rs_db = []\<rparr>"

lemma fresh_sound: "sound_db mem_view b r (rs_db fresh_state)"
  by (simp add: sound_db_def fresh_state_def mem_view_def)

lemma start_succeeds:
  "\<exists>s c cls st'. StartRelay mem_bolt start_world start_http start_files (\<lambda>a b. Inr ()) start_config () fresh_state =
     Inr (s, c, cls, st')"
proof -
  have created: "\<exists>d'. CreateNamespaces mem_bolt names d = (Inr (), d')" if "[] \<notin> set names" for names d
    using CreateNamespaces_effect [OF mem.bbolt_reliable_axioms that] by blast
  obtain d1 where "CreateNamespaces mem_bolt [screen_namespace] [] = (Inr (), d1)"
    using created [of "[screen_namespace]"] by (auto simp: screen_namespace_def)
  then have 1: "SetupScreenService mem_bolt [] = (Inr True, d1)"
    by (auto simp: SetupScreenService_def split: sum.splits prod.splits)
  obtain d2 where 2: "CreateNamespaces mem_bolt
      (chain_namespaces eth_retryPacketNamespacePrefix eth_baseSeqNumNameSpacePrefix [''2'']) d1 = (Inr (), d2)"
    using created by (fastforce simp: chain_namespaces_set eth_retryPacketNamespacePrefix_def eth_baseSeqNumNameSpacePrefix_def)
  obtain s where 3: "SetupSigner start_http (cf_SigningServiceConfig start_config) = Inr s"
    by (simp add: SetupSigner_def dial_def start_http_def)
  obtain m where 4: "wallet_addresses (cf_ChainConfigs start_config) [] = Inr m"
    by (simp add: start_config_def)
  obtain c where 5: "SetupCollector start_files (\<lambda>a b. Inr ()) (cf_CollectorServiceConfig start_config) m
      (co_CollectorWaitDur (cf_CollectorServiceConfig start_config)) () = Inr c"
    by (simp add: SetupCollector_def start_files_def)
  have "\<exists>cls st'. initPacketFeeder mem_bolt start_world [Some start_chain] (fresh_state\<lparr>rs_db := d1\<rparr>) = Inr (cls, st')"
    using 2 by (simp add: init_client_def RegisteredClients_def register_ethereum_def eth_NewClient_def NewEthClient_def start_world_def start_chain_def)
  then have "\<exists>cls st'. initPacketFeeder mem_bolt start_world (cf_ChainConfigs start_config) (fresh_state\<lparr>rs_db := d1\<rparr>) =
      Inr (cls, st')"
    by (simp only: start_config_def config.select_convs)
  moreover have "rs_db fresh_state = []" by (simp add: fresh_state_def)
  ultimately show ?thesis
    using 1 3 4 5 by (auto simp: StartRelay_def)
qed


end
