(* ===== verification/ConfigProps.thy ===== *)
theory ConfigProps
  imports Config
begin

text \<open>
  What a configuration is after \<open>InitConfig\<close>: destination chains and start numbers are keyed by
  chain identifiers instead of names, and the settings that the service relies on are set.
\<close>

section \<open>Names and identifiers\<close>

text \<open>The identifier of a chain name. Of several chains of one name the last one counts.\<close>

definition chain_id_of :: "chain_config list \<Rightarrow> string \<rightharpoonup> string" where
  "chain_id_of cs = map_of (rev (map (\<lambda>c. (cc_Name c, bigint_str (cc_ChainID c))) cs))"

definition resolved :: "(string \<rightharpoonup> string) \<Rightarrow> chain_config \<Rightarrow> chain_config \<Rightarrow> bool" where
  "resolved ids c c' \<longleftrightarrow> (\<exists>ss.
     c' = c\<lparr>cc_DestChains := map (the \<circ> ids) (cc_DestChains c), cc_StartSeqNum := ss\<rparr> \<and>
     map_of ss = map_of (rev (map (\<lambda>(name, n). (the (ids name), n)) (cc_StartSeqNum c))))"

definition names_used :: "chain_config \<Rightarrow> string set" where
  "names_used c = set (cc_DestChains c) \<union> fst ` set (cc_StartSeqNum c)"

lemma chain_ids_some: "chain_ids (map Some cs) m = Inr (m ++ chain_id_of cs)"
  by (induction cs arbitrary: m) (simp_all add: chain_id_of_def map_add_def fun_eq_iff split: option.split)

lemma chain_ids_none: "None \<in> set cs \<Longrightarrow> chain_ids cs m = Inl nil_deref"
proof (induction cs arbitrary: m)
  case (Cons c cs)
  then show ?case by (cases c) auto
qed simp

lemma resolve_dests_result:
  "resolve_dests ids names acc =
     (case find (\<lambda>n. ids n = None) names of
        None \<Rightarrow> Inr (acc @ map (the \<circ> ids) names) | Some n \<Rightarrow> Inl (no_chain_id n))"
  by (induction names arbitrary: acc) (auto split: option.split)

lemma resolve_seqs_error:
  "find (\<lambda>(n, k). ids n = None) ss = Some (n, k) \<Longrightarrow> resolve_seqs ids ss acc = Inl (no_chain_id n)"
  by (induction ids ss acc rule: resolve_seqs.induct) (auto split: if_splits option.splits)

lemma resolve_seqs_ok:
  "find (\<lambda>(n, k). ids n = None) ss = None \<Longrightarrow> \<exists>r. resolve_seqs ids ss acc = Inr r \<and>
     map_of r = map_of acc ++ map_of (rev (map (\<lambda>(name, n). (the (ids name), n)) ss))"
proof (induction ids ss acc rule: resolve_seqs.induct)
  case (2 ids name n rest acc)
  then obtain chainID where "ids name = Some chainID" by (auto split: if_splits)
  moreover have "m ++ ([chainID \<mapsto> n] ++ M) = m(chainID \<mapsto> n) ++ M" for m M :: "string \<rightharpoonup> u64"
    by (simp add: map_add_assoc)
  ultimately show ?case using 2 by (simp add: update_conv' fun_upd_def split: if_splits)
qed simp

text \<open>The chains one by one: all are resolved, or the error names one that is unknown.\<close>

lemma resolve_chains_result:
  "case resolve_chains ids (map Some cs) of
     Inr cs' \<Rightarrow> (\<forall>c \<in> set cs. names_used c \<subseteq> dom ids) \<and> (\<exists>rs. cs' = map Some rs \<and> list_all2 (resolved ids) cs rs)
   | Inl e \<Rightarrow> \<exists>c \<in> set cs. \<exists>name \<in> names_used c. ids name = None \<and> e = no_chain_id name"
proof (induction cs)
  case (Cons c cs)
  show ?case
  proof (cases "find (\<lambda>n. ids n = None) (cc_DestChains c)")
    case (Some n)
    then have "n \<in> set (cc_DestChains c)" "ids n = None" by (auto simp: find_Some_iff)
    then show ?thesis using Some by (auto simp: resolve_dests_result names_used_def)
  next
    case dests: None
    show ?thesis
    proof (cases "find (\<lambda>(n, k). ids n = None) (cc_StartSeqNum c)")
      case (Some nk)
      obtain n k where nk: "nk = (n, k)" by fastforce
      have "(n, k) \<in> set (cc_StartSeqNum c)" "ids n = None"
        using Some nk nth_mem by (fastforce simp: find_Some_iff)+
      then show ?thesis
        using dests resolve_seqs_error [OF Some [unfolded nk]] by (force simp: resolve_dests_result names_used_def)
    next
      case None
      then obtain ss where ss: "resolve_seqs ids (cc_StartSeqNum c) [] = Inr ss"
        "map_of ss = map_of (rev (map (\<lambda>(name, n). (the (ids name), n)) (cc_StartSeqNum c)))"
        using resolve_seqs_ok [OF None, of "[]"] by auto
      have used: "names_used c \<subseteq> dom ids"
        using dests None by (fastforce simp: names_used_def find_None_iff)
      let ?c' = "c\<lparr>cc_DestChains := map (the \<circ> ids) (cc_DestChains c), cc_StartSeqNum := ss\<rparr>"
      have r: "resolved ids c ?c'" using ss(2) by (auto simp: resolved_def)
      show ?thesis
      proof (cases "resolve_chains ids (map Some cs)")
        case (Inl e)
        then show ?thesis using Cons dests ss(1) by (auto simp: resolve_dests_result)
      next
        case (Inr cs')
        then obtain rs where "cs' = map Some rs" "list_all2 (resolved ids) cs rs" using Cons by auto
        then show ?thesis
          using Inr Cons dests ss(1) used r by (auto simp: resolve_dests_result intro!: exI [of _ "?c' # rs"])
      qed
    qed
  qed
qed simp

section \<open>Properties\<close>

lemma no_none_map: "None \<notin> set xs \<Longrightarrow> \<exists>cs. xs = map Some cs"
proof (induction xs)
  case (Cons x xs)
  then obtain y cs where "x = Some y" "xs = map Some cs" by (cases x) auto
  then show ?case by (intro exI [of _ "y # cs"]) simp
qed simp

lemma validate_result:
  "case validateChainConfig cfg of
     Inr cfg' \<Rightarrow> (\<exists>cs rs. cf_ChainConfigs cfg = map Some cs \<and> cfg' = cfg\<lparr>cf_ChainConfigs := map Some rs\<rparr> \<and>
       list_all2 (resolved (chain_id_of cs)) cs rs \<and> \<Union> (names_used ` set cs) \<subseteq> dom (chain_id_of cs))
   | Inl e \<Rightarrow> None \<in> set (cf_ChainConfigs cfg) \<and> e = nil_deref \<or>
       (\<exists>cs. cf_ChainConfigs cfg = map Some cs \<and>
         (\<exists>c \<in> set cs. \<exists>name \<in> names_used c. chain_id_of cs name = None \<and> e = no_chain_id name))"
proof (cases "None \<in> set (cf_ChainConfigs cfg)")
  case True
  then show ?thesis by (simp add: validateChainConfig_def chain_ids_none)
next
  case False
  then obtain cs where cs: "cf_ChainConfigs cfg = map Some cs" using no_none_map by blast
  have ids: "chain_ids (cf_ChainConfigs cfg) Map.empty = Inr (chain_id_of cs)" by (simp add: cs chain_ids_some)
  show ?thesis
    using resolve_chains_result [where ids = "chain_id_of cs" and cs = cs] ids cs
    by (cases "resolve_chains (chain_id_of cs) (map Some cs)") (auto simp: validateChainConfig_def)
qed

text \<open>
  C30. Destinations become chain identifiers. \<open>validateChainConfig\<close> succeeds only when every name
  among the destinations and the start numbers of a chain is that of a configured chain. Then it
  changes nothing but these two fields: each destination becomes the identifier of the chain of that
  name, and the start numbers are keyed by the identifiers, later entries winning. Otherwise it
  fails with an error that names an unknown chain, or panics on an entry without a value.
\<close>

theorem validateChainConfig_correct:
  "case validateChainConfig cfg of
     Inr cfg' \<Rightarrow> (\<exists>cs rs. cf_ChainConfigs cfg = map Some cs \<and> cfg' = cfg\<lparr>cf_ChainConfigs := map Some rs\<rparr> \<and>
       list_all2 (resolved (chain_id_of cs)) cs rs \<and> \<Union> (names_used ` set cs) \<subseteq> dom (chain_id_of cs))
   | Inl e \<Rightarrow> None \<in> set (cf_ChainConfigs cfg) \<and> e = nil_deref \<or>
       (\<exists>cs. cf_ChainConfigs cfg = map Some cs \<and>
         (\<exists>c \<in> set cs. \<exists>name \<in> names_used c. chain_id_of cs name = None \<and> e = no_chain_id name))"
  by (rule validate_result)

lemma chain_id_of_range:
  "chain_id_of cs name = Some d \<Longrightarrow> \<exists>c \<in> set cs. d = bigint_str (cc_ChainID c)"
  unfolding chain_id_of_def by (drule map_of_SomeD) auto

lemma validated_dests:
  assumes "validateChainConfig cfg = Inr cfg'" and "Some v \<in> set (cf_ChainConfigs cfg')" and "d \<in> set (cc_DestChains v)"
  shows "\<exists>w. Some w \<in> set (cf_ChainConfigs cfg') \<and> d = bigint_str (cc_ChainID w)"
proof -
  obtain cs rs where 1: "cfg' = cfg\<lparr>cf_ChainConfigs := map Some rs\<rparr>" "list_all2 (resolved (chain_id_of cs)) cs rs"
    "\<Union> (names_used ` set cs) \<subseteq> dom (chain_id_of cs)"
    using validate_result [of cfg] assms(1) by auto
  have "v \<in> set rs" using 1(1) assms(2) by auto
  then obtain i where i: "i < length rs" "rs ! i = v" by (auto simp: in_set_conv_nth)
  then have r: "resolved (chain_id_of cs) (cs ! i) v" "i < length cs"
    using 1(2) by (auto simp: list_all2_conv_all_nth)
  then obtain name where name: "name \<in> set (cc_DestChains (cs ! i))" "d = the (chain_id_of cs name)"
    using assms(3) by (auto simp: resolved_def)
  have "name \<in> dom (chain_id_of cs)" using 1(3) name(1) r(2) by (force simp: names_used_def)
  then obtain c where c: "c \<in> set cs" "d = bigint_str (cc_ChainID c)"
    using chain_id_of_range [of cs name] name(2) by auto
  then obtain j where j: "j < length cs" "cs ! j = c" by (auto simp: in_set_conv_nth)
  then have "resolved (chain_id_of cs) c (rs ! j)" "j < length rs" using 1(2) by (auto simp: list_all2_conv_all_nth)
  then have "cc_ChainID (rs ! j) = cc_ChainID c" "rs ! j \<in> set rs" by (auto simp: resolved_def)
  then show ?thesis using c(2) 1(1) by auto
qed

definition log_dir :: "flag_args \<Rightarrow> logger_config \<Rightarrow> string" where
  "log_dir a l = (if fa_LogDir a \<noteq> [] then fa_LogDir a else if lc_OutputDir l \<noteq> [] then lc_OutputDir l else ''.'')"

definition db_dir :: "flag_args \<Rightarrow> config \<Rightarrow> string" where
  "db_dir a cfg = (if fa_DBDir a \<noteq> [] then fa_DBDir a else if cf_DBDir cfg \<noteq> [] then cf_DBDir cfg else ''.'')"

lemma getPath_ok:
  "getPath F flag yaml fileName f = (Inr p, f') \<Longrightarrow>
   p = filepath_Join [if flag \<noteq> [] then flag else if yaml \<noteq> [] then yaml else ''.'', fileName]"
  by (auto simp: getPath_def split: if_splits sum.splits prod.splits)

text \<open>
  What a running service can rely on. When \<open>InitConfig\<close> succeeds, every destination of every
  chain is the identifier of a configured chain, the scheme of the signing service is http or https,
  the number of workers is not zero, the mode is one of the three, and the database and the log are
  the files of their names in the directory of the flag, else of the file, else the current one.
\<close>

theorem InitConfig_valid:
  assumes "InitConfig F decode a f = (Inr cfg, f')"
  shows "(\<forall>v d. Some v \<in> set (cf_ChainConfigs cfg) \<and> d \<in> set (cc_DestChains v) \<longrightarrow>
      (\<exists>w. Some w \<in> set (cf_ChainConfigs cfg) \<and> d = bigint_str (cc_ChainID w))) \<and>
    sc_Scheme (cf_SigningServiceConfig cfg) \<in> {''http'', ''https''} \<and>
    cf_ConsumePacketWorker cfg \<noteq> 0 \<and> cf_Mode cfg \<in> {Development, Production, Stage} \<and>
    cf_DBPath cfg = filepath_Join [db_dir a cfg, dbFileName] \<and>
    (\<exists>l. cf_LogConfig cfg = Some l \<and> lc_OutputPath l = filepath_Join [log_dir a l, logFileName])"
proof -
  obtain c0 c1 where v: "validateChainConfig c0 = Inr c1"
    and s: "sc_Scheme (cf_SigningServiceConfig c1) \<in> {''http'', ''https''}"
    and rest: "\<exists>dbFilePath f1 l logFilePath f2.
      getPath F (fa_DBDir a) (cf_DBDir c1) dbFileName f = (Inr dbFilePath, f1) \<and> cf_LogConfig c1 = Some l \<and>
      getPath F (fa_LogDir a) (lc_OutputDir l) logFileName f1 = (Inr logFilePath, f2) \<and>
      cfg = (if cf_ConsumePacketWorker c1 = 0 then c1\<lparr>cf_ConsumePacketWorker := 10\<rparr> else c1)
        \<lparr>cf_DBPath := dbFilePath, cf_LogConfig := Some (set_output a logFilePath l), cf_Mode := run_mode (fa_Mode a)\<rparr>"
    using assms by (auto simp: InitConfig_def Let_def split: sum.splits prod.splits option.splits if_splits)
  have mode: "run_mode (fa_Mode a) \<in> {Development, Production, Stage}" by (simp add: run_mode_def)
  obtain dbFilePath f1 l logFilePath f2 c2 where g: "getPath F (fa_DBDir a) (cf_DBDir c1) dbFileName f = (Inr dbFilePath, f1)"
    "getPath F (fa_LogDir a) (lc_OutputDir l) logFileName f1 = (Inr logFilePath, f2)"
    and c2: "c2 = (if cf_ConsumePacketWorker c1 = 0 then c1\<lparr>cf_ConsumePacketWorker := 10\<rparr> else c1)"
    and cfg: "cfg = c2\<lparr>cf_DBPath := dbFilePath, cf_LogConfig := Some (set_output a logFilePath l), cf_Mode := run_mode (fa_Mode a)\<rparr>"
    using rest by blast
  have same: "cf_ChainConfigs c2 = cf_ChainConfigs c1" "cf_SigningServiceConfig c2 = cf_SigningServiceConfig c1"
    "cf_DBDir c2 = cf_DBDir c1" "cf_ConsumePacketWorker c2 \<noteq> 0"
    by (simp_all add: c2)
  have out: "lc_OutputDir (set_output a q l) = lc_OutputDir l" "lc_OutputPath (set_output a q l) = q" for q
    by (simp_all add: set_output_def Let_def)
  have "\<forall>v d. Some v \<in> set (cf_ChainConfigs c1) \<and> d \<in> set (cc_DestChains v) \<longrightarrow>
      (\<exists>w. Some w \<in> set (cf_ChainConfigs c1) \<and> d = bigint_str (cc_ChainID w))"
    using validated_dests [OF v] by blast
  then show ?thesis
    using s mode getPath_ok [OF g(1)] getPath_ok [OF g(2)]
    unfolding cfg by (simp add: same out db_dir_def log_dir_def)
qed

definition empty_files :: "unit filesystem" where
  "empty_files = \<lparr>fs_read = (\<lambda>f p. Inr []), fs_stat = (\<lambda>f p. StatDir), fs_mkdir_all = (\<lambda>f p m. Inr f),
     fs_remove = (\<lambda>f p. Inr None)\<rparr>"

definition sample_config :: config where
  "sample_config =
     \<lparr>cf_Name = ''a'', cf_ChainConfigs = [], cf_LogConfig = Some \<lparr>lc_Encoding = [], lc_OutputDir = [], lc_OutputPath = []\<rparr>,
      cf_DBDir = ''data'', cf_DBPath = [], cf_ConsumePacketWorker = 0, cf_Mode = [],
      cf_SigningServiceConfig = \<lparr>sc_Host = ''h'', sc_Port = 1, sc_Endpoint = ''/sign'', sc_Scheme = ''http'',
        sc_Username = ''user'', sc_Password = ''secret'', sc_HealthEndpoint = ''/health''\<rparr>,
      cf_CollectorServiceConfig = \<lparr>co_Uri = ''c'', co_CollectorWaitDur = 0, co_CaCertificate = [],
        co_AttestorCertificate = [], co_AttestorKey = []\<rparr>,
      cf_CheckHealthServiceDur = 0, cf_MetricConfig = \<lparr>mc_Host = [], mc_JobName = []\<rparr>, cf_Version = []\<rparr>"

definition no_flags :: flag_args where
  "no_flags = \<lparr>fa_ConfigFile = ''c'', fa_DBDir = [], fa_LogDir = [], fa_LogEnc = [], fa_Mode = [], fa_CleanStart = False\<rparr>"

theorem InitConfig_valid_witness:
  "\<exists>cfg f'. InitConfig empty_files (\<lambda>b. Inr sample_config) no_flags () = (Inr cfg, f') \<and>
     cf_ConsumePacketWorker cfg \<noteq> 0 \<and> cf_DBPath cfg = filepath_Join [''data'', ''verulinkBolt.db'']"
proof -
  have "\<not> str_contains ''data'' dbFileName"
    by (simp add: str_contains_def dbFileName_def sublist_Cons_right prefix_Cons)
  then obtain cfg f' where run: "InitConfig empty_files (\<lambda>b. Inr sample_config) no_flags () = (Inr cfg, f')"
    "cf_DBDir cfg = ''data''"
    by (simp add: InitConfig_def empty_files_def validateChainConfig_def sample_config_def no_flags_def getPath_def
        validateDirectory_def clean_start_def)
  then show ?thesis
    using InitConfig_valid [OF run(1)] by (auto simp: db_dir_def no_flags_def dbFileName_def)
qed

end
