(* ===== verification/CollectorProps.thy ===== *)
theory CollectorProps
  imports Collector
begin

text \<open>
  How the collector's client asks for missed packets: the wallets in turn, as long as every request
  is answered.
\<close>

lemma receive_tick_answer:
  assumes "he_Parse H (cl_uri c) = Inr u" and "i < length addrs"
  shows "receive_tick H c addrs i =
    (case poll_missed H u (addrs ! i) of
       Inl e \<Rightarrow> Inr (i, [])
     | Inr None \<Rightarrow> Inl nil_deref
     | Inr (Some d) \<Rightarrow> Inr ((i + 1) mod length addrs, map EMissed (mpd_data d)))"
  using assms by (simp add: receive_tick_def)

lemma receive_ticks_rotate:
  assumes "\<forall>H \<in> set Hs. he_Parse H (cl_uri c) = Inr u" and "i < length addrs"
    and "\<forall>k < length Hs. poll_missed (Hs ! k) u (addrs ! ((i + k) mod length addrs)) = Inr (Some (ans k))"
  shows "receive_ticks Hs c addrs i =
    Inr ((i + length Hs) mod length addrs, concat (map (\<lambda>k. map EMissed (mpd_data (ans k))) [0..<length Hs]))"
  using assms
proof (induction Hs arbitrary: i ans)
  case (Cons H Hs)
  let ?n = "length addrs" and ?j = "(i + 1) mod length addrs"
  have first: "receive_tick H c addrs i = Inr (?j, map EMissed (mpd_data (ans 0)))"
    using receive_tick_answer [of H c u i addrs] Cons.prems by (auto dest: spec [of _ 0])
  have turn: "(Suc i mod ?n + k) mod ?n = Suc (i + k) mod ?n" for k by (simp add: mod_simps)
  have "poll_missed (Hs ! k) u (addrs ! ((?j + k) mod ?n)) = Inr (Some (ans (Suc k)))" if "k < length Hs" for k
    using Cons.prems(3) [rule_format, of "Suc k"] that by (simp add: turn)
  then have "receive_ticks Hs c addrs ?j =
      Inr ((?j + length Hs) mod ?n, concat (map (\<lambda>k. map EMissed (mpd_data (ans (Suc k)))) [0..<length Hs]))"
    using Cons.prems(1,2) by (intro Cons.IH) (auto intro: mod_less_divisor)
  then show ?case by (simp add: first turn map_upt_Suc del: upt_Suc)
qed simp

lemma receive_ticks_stuck:
  assumes "\<forall>H \<in> set Hs. he_Parse H (cl_uri c) = Inr u" and "i < length addrs"
    and "\<forall>H \<in> set Hs. \<exists>e. poll_missed H u (addrs ! i) = Inl e"
  shows "receive_ticks Hs c addrs i = Inr (i, [])"
  using assms
proof (induction Hs)
  case (Cons H Hs)
  then show ?case using receive_tick_answer [of H c u i addrs] by fastforce
qed simp

text \<open>
  C33. The wallets are asked in turn. While every request is answered, tick \<open>k\<close> asks for the wallet
  \<open>k\<close> places behind the first one, cyclically, and all packets of the answers are passed on in
  order. While the requests for one wallet fail, the position stays where it is, so no other
  wallet is asked.
\<close>

theorem collector_polling:
  assumes "\<forall>H \<in> set Hs. he_Parse H (cl_uri c) = Inr u" and "i < length addrs"
  shows "((\<forall>k < length Hs. poll_missed (Hs ! k) u (addrs ! ((i + k) mod length addrs)) = Inr (Some (ans k))) \<longrightarrow>
      receive_ticks Hs c addrs i =
        Inr ((i + length Hs) mod length addrs, concat (map (\<lambda>k. map EMissed (mpd_data (ans k))) [0..<length Hs]))) \<and>
    ((\<forall>H \<in> set Hs. \<exists>e. poll_missed H u (addrs ! i) = Inl e) \<longrightarrow> receive_ticks Hs c addrs i = Inr (i, []))"
  using receive_ticks_rotate [OF assms] receive_ticks_stuck [OF assms] by blast

definition poll_env :: "int \<Rightarrow> http_env" where
  "poll_env status = \<lparr>he_Parse = (\<lambda>s. Inr \<lparr>u_Scheme = ''http'', u_User = None, u_Host = ''h'', u_Path = ''/'', u_RawQuery = []\<rparr>),
     he_Do = (\<lambda>r. Inr \<lparr>hp_Status = status, hp_Body = bytes_of_string ''{}'', hp_ReadErr = None\<rparr>)\<rparr>"

definition poll_collector :: collector where
  "poll_collector = \<lparr>cl_uri = ''c'', cl_chainIDToAddress = [(''1'', ''a''), (''2'', ''b'')], cl_collectorWaitDur = 0\<rparr>"

theorem collector_polling_witness:
  "receive_ticks (replicate 3 (poll_env 200)) poll_collector [''a'', ''b''] 0 = Inr (1, []) \<and>
   receive_ticks (replicate 3 (poll_env 500)) poll_collector [''a'', ''b''] 0 = Inr (0, [])"
proof -
  let ?u = "\<lparr>u_Scheme = ''http'', u_User = None, u_Host = ''h'', u_Path = ''/'', u_RawQuery = []\<rparr>"
  let ?d = "\<lparr>mpd_data = [], mpd_message = []\<rparr>"
  have p: "\<forall>H \<in> set (replicate 3 (poll_env s)). he_Parse H (cl_uri poll_collector) = Inr ?u" for s
    by (simp add: poll_env_def)
  have e: "\<exists>x. poll_missed (poll_env 500) ?u a = Inl x" for a
    by (simp add: poll_missed_def poll_env_def)
  have "unmarshal_details ''{}'' = Inr (Some ?d)" by code_simp
  then have o: "poll_missed (poll_env 200) ?u a = Inr (Some ?d)" for a
    by (simp add: poll_missed_def poll_env_def)
  have "3 mod Suc (Suc 0) = Suc 0" by (simp add: numeral_3_eq_3 mod_Suc)
  then show ?thesis
    using collector_polling [OF p, of 0 "[''a'', ''b'']" 200 "\<lambda>k. ?d"] collector_polling [OF p, of 0 "[''a'', ''b'']" 500 "\<lambda>k. ?d"] o e
    by (simp add: upt_rec)
qed

end
