(* ===== verification/EndToEnd.thy ===== *)
theory EndToEnd
  imports AleoClient EthClient Http
begin

text \<open>
  The end-to-end test program \<open>e2etest/\<close>: the writer of a relay configuration
  (\<open>attestor/relayInitializer.go\<close>), the test clients of the two chains (\<open>chains/aleo/\<close>,
  \<open>chains/ethereum/client.go\<close>), the reader of the collector's data (\<open>dbService/db.go\<close>), the two
  test flows (\<open>testSuite/e2eTest.go\<close>) and the main program. The world the tests act on (external
  commands, files, chains, time) is a state \<open>'w\<close> that the calls of the record \<open>e2e_world\<close> change.
\<close>

section \<open>Settings\<close>

record e2e_chain =
  ch_Name :: string
  ch_NodeUrl :: string
  ch_BridgeContractAddress :: string
  ch_TokenServiceContractAddress :: string
  ch_USDCContractAddress :: string
  ch_WalletPath :: string
  ch_WalletAddress :: string
  ch_ChainID :: string
  ch_DestChains :: "string list"

record e2e_settings =
  es_Chains :: "e2e_chain option list"
  es_CollectorServiceURI :: string
  es_WriteConfigPath :: string

section \<open>The configuration written for the relay\<close>

record e2e_relay_chain =
  rc_Name :: string
  rc_ChainID :: bigint
  rc_BridgeContract :: string
  rc_NodeUrl :: string
  rc_PacketValidityWaitDuration :: duration
  rc_FeedPacketWaitDuration :: duration
  rc_FinalityHeight :: u64
  rc_WalletPath :: string
  rc_DestChains :: "string list"
  rc_WalletAddress :: string
  rc_StartSeqNum :: "(string \<times> u64) list"
  rc_StartHeight :: u64
  rc_FilterTopic :: string
  rc_RetryPacketWaitDur :: duration
  rc_PruneBaseSeqNumberWaitDur :: duration

record e2e_signing_service =
  rs_Host :: string
  rs_Port :: int
  rs_Endpoint :: string
  rs_Scheme :: string
  rs_Username :: string
  rs_Password :: string

record e2e_collector_service =
  ro_Uri :: string
  ro_CollectorWaitDur :: duration
  ro_CaCertificate :: string
  ro_AttestorCertificate :: string
  ro_AttestorKey :: string

record e2e_log =
  rl_Encoding :: string
  rl_OutputPath :: string

record e2e_metrics =
  rm_Host :: string
  rm_JobName :: string

text \<open>The pointers of the struct are never nil in a configuration that is written.\<close>

record e2e_relay_config =
  rf_Name :: string
  rf_ChainConfigs :: "e2e_relay_chain list"
  rf_LogConfig :: e2e_log
  rf_DBDir :: string
  rf_DBPath :: string
  rf_ConsumePacketWorker :: int
  rf_Mode :: string
  rf_SigningServiceConfig :: e2e_signing_service
  rf_CollectorServiceConfig :: e2e_collector_service
  rf_CheckHealthServiceDur :: duration
  rf_MetricConfig :: e2e_metrics

definition e2e_relay_aleo :: "string \<Rightarrow> u64 \<Rightarrow> e2e_relay_chain" where
  "e2e_relay_aleo aleoNodeURL aleoStartSeqNumber =
     \<lparr>rc_Name = ''aleo'', rc_ChainID = Some 6694886634403,
      rc_BridgeContract = ''token_bridge_v0001.aleo'', rc_NodeUrl = aleoNodeURL,
      rc_PacketValidityWaitDuration = 20000000, rc_FeedPacketWaitDuration = 0, rc_FinalityHeight = 1,
      rc_WalletPath = [], rc_DestChains = [''ethereum''],
      rc_WalletAddress = ''aleo1fcg4k0sacadavag292p7x9ggm6889aay6wn9m8ftnmynh67cg5xsx8ycu8'',
      rc_StartSeqNum = [(''ethereum'', aleoStartSeqNumber)], rc_StartHeight = 0, rc_FilterTopic = [],
      rc_RetryPacketWaitDur = 60 * second, rc_PruneBaseSeqNumberWaitDur = 60 * second\<rparr>"

definition e2e_relay_ethereum :: "string \<Rightarrow> u64 \<Rightarrow> e2e_relay_chain" where
  "e2e_relay_ethereum ethNodeURL ethStartHeight =
     \<lparr>rc_Name = ''ethereum'', rc_ChainID = Some 28556963657430695,
      rc_BridgeContract = ''0xB83766b28bE2Cf6Fb28Cd055beFB55fdc68CfC9C'', rc_NodeUrl = ethNodeURL,
      rc_PacketValidityWaitDuration = 2 * second, rc_FeedPacketWaitDuration = 2 * second, rc_FinalityHeight = 1,
      rc_WalletPath = [], rc_DestChains = [''aleo''],
      rc_WalletAddress = ''0x684C68bE1b58f61a33888E0eE3EA63f021d8CB0a'',
      rc_StartSeqNum = [], rc_StartHeight = ethStartHeight,
      rc_FilterTopic = ''0x23b9e965d90a00cd3ad31e46b58592d41203f5789805c086b955e34ecd462eb9'',
      rc_RetryPacketWaitDur = 60 * second, rc_PruneBaseSeqNumberWaitDur = 60 * second\<rparr>"

definition e2e_relay_config_of :: "string \<Rightarrow> string \<Rightarrow> u64 \<Rightarrow> u64 \<Rightarrow> bool \<Rightarrow> e2e_relay_config" where
  "e2e_relay_config_of ethNodeURL aleoNodeURL ethStartHeight aleoStartSeqNumber benchmark =
     (let signingServiceHost = (if benchmark then ''localhost'' else ''signingservice'');
          aleoNodeURL = (if benchmark then ''http://localhost:3002|testnet'' else aleoNodeURL)
      in \<lparr>rf_Name = ''e2eAttestor'',
          rf_ChainConfigs = [e2e_relay_aleo aleoNodeURL aleoStartSeqNumber, e2e_relay_ethereum ethNodeURL ethStartHeight],
          rf_LogConfig = \<lparr>rl_Encoding = ''console'', rl_OutputPath = ''log''\<rparr>,
          rf_DBDir = [], rf_DBPath = ''db'', rf_ConsumePacketWorker = 10, rf_Mode = ''dev'',
          rf_SigningServiceConfig = \<lparr>rs_Host = signingServiceHost, rs_Port = 8080, rs_Endpoint = ''/sign'',
            rs_Scheme = ''http'', rs_Username = ''username'', rs_Password = ''password''\<rparr>,
          rf_CollectorServiceConfig = \<lparr>ro_Uri = ''https://aleomtls.ibriz.ai'', ro_CollectorWaitDur = hour,
            ro_CaCertificate = ''/home/aanya/ibriz/aleo/bridge/verulink/attestor/chainService/.mtls/ca.cer'',
            ro_AttestorCertificate = ''/home/aanya/ibriz/aleo/bridge/verulink/attestor/chainService/.mtls/attestor9.crt'',
            ro_AttestorKey = ''/home/aanya/ibriz/aleo/bridge/verulink/attestor/chainService/.mtls/attestor9.key''\<rparr>,
          rf_CheckHealthServiceDur = 5 * second,
          rf_MetricConfig = \<lparr>rm_Host = ''172.17.0.1:9091'', rm_JobName = ''dev-push-gateway''\<rparr>\<rparr>)"

section \<open>The world of the tests\<close>

text \<open>
  The transactions that the test client sends to contracts, with the options it builds for them.
  \<open>ew_Transact\<close> answers the hash of the transaction and \<open>ew_TransactionReceipt\<close> the status of its
  receipt; \<open>ew_http\<close> and \<open>ew_aleo\<close> are the servers as they answer in a state.
\<close>

record tx_opts =
  to_ChainID :: int
  to_GasPrice :: bigint
  to_GasLimit :: u64
  to_Value :: bigint

datatype e2e_call = Transfer0 string | Mint bytes int | Approve bytes int | Transfer bytes int string

record ('w, 'k) e2e_world =
  ew_create :: "string \<Rightarrow> 'w \<Rightarrow> unit res \<times> 'w"
  ew_encode :: "string \<Rightarrow> e2e_relay_config \<Rightarrow> 'w \<Rightarrow> unit res \<times> 'w"
  ew_read :: "string \<Rightarrow> 'w \<Rightarrow> bytes res"
  ew_append :: "string \<Rightarrow> 'w \<Rightarrow> unit res \<times> 'w"
  ew_output :: "string list \<Rightarrow> 'w \<Rightarrow> string res \<times> 'w"
  ew_start :: "string list \<Rightarrow> 'w \<Rightarrow> unit res \<times> 'w"
  ew_kill :: "string list \<Rightarrow> 'w \<Rightarrow> 'w"
  ew_sleep :: "duration \<Rightarrow> 'w \<Rightarrow> 'w"
  ew_aleo :: "'w \<Rightarrow> http_get"
  ew_http :: "'w \<Rightarrow> http_env"
  ew_library :: eth_library
  ew_NewTokenService :: "bytes \<Rightarrow> unit res"
  ew_NewUSDC :: "bytes \<Rightarrow> unit res"
  ew_DecryptKey :: "bytes \<Rightarrow> string \<Rightarrow> 'k res"
  ew_NewKeyedTransactor :: "'k \<Rightarrow> int \<Rightarrow> tx_opts res"
  ew_SuggestGasPrice :: "'w \<Rightarrow> bigint res \<times> 'w"
  ew_Transact :: "bytes \<Rightarrow> tx_opts \<Rightarrow> e2e_call \<Rightarrow> 'w \<Rightarrow> bytes res \<times> 'w"
  ew_TransactionReceipt :: "bytes \<Rightarrow> 'w \<Rightarrow> u64 res \<times> 'w"
  ew_Sequence :: "bytes \<Rightarrow> 'w \<Rightarrow> int res \<times> 'w"

section \<open>relayInitializer.go\<close>

definition WriteE2EConifg ::
    "('w, 'k) e2e_world \<Rightarrow> string \<Rightarrow> string \<Rightarrow> string \<Rightarrow> u64 \<Rightarrow> u64 \<Rightarrow> bool \<Rightarrow> 'w \<Rightarrow> unit res \<times> 'w" where
  "WriteE2EConifg W path ethNodeURL aleoNodeURL ethStartHeight aleoStartSeqNumber benchmark w =
     (case ew_create W path w of
        (Inl e, w1) \<Rightarrow> (Inl (Panic (error_text e)), w1)
      | (Inr u, w1) \<Rightarrow>
          (case ew_encode W path
                  (e2e_relay_config_of ethNodeURL aleoNodeURL ethStartHeight aleoStartSeqNumber benchmark) w1 of
             (Inl e, w2) \<Rightarrow> (Inl (Panic (error_text e)), w2)
           | (Inr u, w2) \<Rightarrow> (Inr (), w2)))"

text \<open>An external command whose failure ends the test by a panic.\<close>

definition must_output :: "('w, 'k) e2e_world \<Rightarrow> string list \<Rightarrow> 'w \<Rightarrow> unit res \<times> 'w" where
  "must_output W args w =
     (case ew_output W args w of
        (Inl e, w1) \<Rightarrow> (Inl (Panic (error_text e)), w1)
      | (Inr out, w1) \<Rightarrow> (Inr (), w1))"

definition BuildRelayImage :: "('w, 'k) e2e_world \<Rightarrow> 'w \<Rightarrow> unit res \<times> 'w" where
  "BuildRelayImage W w = must_output W [''docker'', ''compose'', ''-f'', ''../../compose.yaml'', ''build''] w"

definition RunRelayImage :: "('w, 'k) e2e_world \<Rightarrow> string \<Rightarrow> 'w \<Rightarrow> unit res \<times> 'w" where
  "RunRelayImage W relativePath w = must_output W [''docker'', ''compose'', ''-f'', relativePath, ''up'', ''-d''] w"

definition StopRelayImage :: "('w, 'k) e2e_world \<Rightarrow> string \<Rightarrow> 'w \<Rightarrow> unit res \<times> 'w" where
  "StopRelayImage W relativePath w = must_output W [''docker'', ''compose'', ''-f'', relativePath, ''down''] w"

section \<open>chains/aleo/rpc\<close>

record rpc_put =
  pu_Type :: string
  pu_Id :: string
  pu_Value :: string

record rpc_transition =
  rt_Id :: string
  rt_Program :: string
  rt_Function :: string
  rt_Inputs :: "rpc_put list"
  rt_Outputs :: "rpc_put list"
  rt_Tpk :: string
  rt_Tcm :: string

record rpc_execution =
  re_Transitions :: "rpc_transition list"
  re_GlobalStateRoot :: string
  re_Proof :: string

record rpc_fee =
  rfe_Transition :: rpc_transition
  rfe_GlobalStateRoot :: string
  rfe_Proof :: string

record rpc_transaction =
  rx_Type :: string
  rx_Id :: string
  rx_Execution :: rpc_execution
  rx_Fee :: rpc_fee

text \<open>
  A slice of structs: an array is decoded over the elements that a repeated key has left there, and
  the result has the length of the array; null clears the slice.
\<close>

fun decode_elems :: "'b field_decoder \<Rightarrow> 'b \<Rightarrow> 'b list \<Rightarrow> json list \<Rightarrow> 'b list res" where
  "decode_elems dec zero old [] = Inr []"
| "decode_elems dec zero old (j # js) =
     (case dec j (case old of [] \<Rightarrow> zero | x # _ \<Rightarrow> x) of
        Inl e \<Rightarrow> Inl e
      | Inr x \<Rightarrow> (case decode_elems dec zero (tl old) js of Inl e \<Rightarrow> Inl e | Inr xs \<Rightarrow> Inr (x # xs)))"

definition decode_slice :: "'b field_decoder \<Rightarrow> 'b \<Rightarrow> ('a \<Rightarrow> 'b list) \<Rightarrow> ('b list \<Rightarrow> 'a \<Rightarrow> 'a) \<Rightarrow> 'a field_decoder" where
  "decode_slice dec zero get_fld set_fld j a =
     (case j of
        JNull \<Rightarrow> Inr (set_fld [] a)
      | JArr js \<Rightarrow> (case decode_elems dec zero (get_fld a) js of Inl e \<Rightarrow> Inl e | Inr xs \<Rightarrow> Inr (set_fld xs a))
      | _ \<Rightarrow> Inl type_error)"

definition decode_nested :: "'b field_decoder \<Rightarrow> ('a \<Rightarrow> 'b) \<Rightarrow> ('b \<Rightarrow> 'a \<Rightarrow> 'a) \<Rightarrow> 'a field_decoder" where
  "decode_nested dec get_fld set_fld j a =
     (case dec j (get_fld a) of Inl e \<Rightarrow> Inl e | Inr x \<Rightarrow> Inr (set_fld x a))"

definition zero_put :: rpc_put where "zero_put = \<lparr>pu_Type = [], pu_Id = [], pu_Value = []\<rparr>"

definition zero_transition :: rpc_transition where
  "zero_transition = \<lparr>rt_Id = [], rt_Program = [], rt_Function = [], rt_Inputs = [], rt_Outputs = [], rt_Tpk = [], rt_Tcm = []\<rparr>"

definition zero_transaction :: rpc_transaction where
  "zero_transaction =
     \<lparr>rx_Type = [], rx_Id = [],
      rx_Execution = \<lparr>re_Transitions = [], re_GlobalStateRoot = [], re_Proof = []\<rparr>,
      rx_Fee = \<lparr>rfe_Transition = zero_transition, rfe_GlobalStateRoot = [], rfe_Proof = []\<rparr>\<rparr>"

definition decode_put :: "rpc_put field_decoder" where
  "decode_put = decode_struct
     [(''type'', decode_string (\<lambda>v a. a\<lparr>pu_Type := v\<rparr>)),
      (''id'', decode_string (\<lambda>v a. a\<lparr>pu_Id := v\<rparr>)),
      (''value'', decode_string (\<lambda>v a. a\<lparr>pu_Value := v\<rparr>))]"

definition decode_transition :: "rpc_transition field_decoder" where
  "decode_transition = decode_struct
     [(''id'', decode_string (\<lambda>v a. a\<lparr>rt_Id := v\<rparr>)),
      (''program'', decode_string (\<lambda>v a. a\<lparr>rt_Program := v\<rparr>)),
      (''function'', decode_string (\<lambda>v a. a\<lparr>rt_Function := v\<rparr>)),
      (''inputs'', decode_slice decode_put zero_put rt_Inputs (\<lambda>v a. a\<lparr>rt_Inputs := v\<rparr>)),
      (''outputs'', decode_slice decode_put zero_put rt_Outputs (\<lambda>v a. a\<lparr>rt_Outputs := v\<rparr>)),
      (''tpk'', decode_string (\<lambda>v a. a\<lparr>rt_Tpk := v\<rparr>)),
      (''tcm'', decode_string (\<lambda>v a. a\<lparr>rt_Tcm := v\<rparr>))]"

definition decode_execution :: "rpc_execution field_decoder" where
  "decode_execution = decode_struct
     [(''transitions'', decode_slice decode_transition zero_transition re_Transitions (\<lambda>v a. a\<lparr>re_Transitions := v\<rparr>)),
      (''global_state_root'', decode_string (\<lambda>v a. a\<lparr>re_GlobalStateRoot := v\<rparr>)),
      (''proof'', decode_string (\<lambda>v a. a\<lparr>re_Proof := v\<rparr>))]"

definition decode_fee :: "rpc_fee field_decoder" where
  "decode_fee = decode_struct
     [(''transition'', decode_nested decode_transition rfe_Transition (\<lambda>v a. a\<lparr>rfe_Transition := v\<rparr>)),
      (''global_state_root'', decode_string (\<lambda>v a. a\<lparr>rfe_GlobalStateRoot := v\<rparr>)),
      (''proof'', decode_string (\<lambda>v a. a\<lparr>rfe_Proof := v\<rparr>))]"

definition decode_transaction :: "rpc_transaction field_decoder" where
  "decode_transaction = decode_struct
     [(''type'', decode_string (\<lambda>v a. a\<lparr>rx_Type := v\<rparr>)),
      (''id'', decode_string (\<lambda>v a. a\<lparr>rx_Id := v\<rparr>)),
      (''execution'', decode_nested decode_execution rx_Execution (\<lambda>v a. a\<lparr>rx_Execution := v\<rparr>)),
      (''fee'', decode_nested decode_fee rx_Fee (\<lambda>v a. a\<lparr>rx_Fee := v\<rparr>))]"

definition e2e_NewRPC :: "string \<Rightarrow> string \<Rightarrow> string" where
  "e2e_NewRPC RpcEndPoint Network = RpcEndPoint @ ''/'' @ Network"

definition e2e_GetLatestHeight :: "string \<Rightarrow> http_get \<Rightarrow> i64 res" where
  "e2e_GetLatestHeight url http =
     (case http (url @ ''/latest/height'') of
        Inl e \<Rightarrow> Inl e
      | Inr ht \<Rightarrow> (case parse_int64 ht of None \<Rightarrow> Inl (ErrLib ''strconv.ParseInt'') | Some h \<Rightarrow> Inr (of_int h)))"

definition GetTransactionById :: "string \<Rightarrow> http_get \<Rightarrow> string \<Rightarrow> rpc_transaction res" where
  "GetTransactionById url http transactionId =
     (case http (url @ ''/transaction/'' @ transactionId) of
        Inl e \<Rightarrow> Inl e
      | Inr t \<Rightarrow> unmarshal decode_transaction t zero_transaction)"

text \<open>The elements of a \<open>[]string\<close>: a null element keeps what is there, which is the empty text.\<close>

definition GetMappingNames :: "string \<Rightarrow> http_get \<Rightarrow> string \<Rightarrow> string list res" where
  "GetMappingNames url http programId =
     (case http (url @ ''/program/'' @ programId @ ''/mappings'') of
        Inl e \<Rightarrow> Inl e
      | Inr t \<Rightarrow> unmarshal (decode_slice (decode_string (\<lambda>v s. v)) [] (\<lambda>m. m) (\<lambda>v m. v)) t [])"

definition e2e_GetMappingValue :: "string \<Rightarrow> http_get \<Rightarrow> string \<Rightarrow> string \<Rightarrow> string \<Rightarrow> (string \<rightharpoonup> string) res" where
  "e2e_GetMappingValue url http programId mappingName mappingKey =
     (case http (url @ ''/program/'' @ programId @ ''/mapping/'' @ mappingName @ ''/'' @ mappingKey) of
        Inl e \<Rightarrow> Inl e
      | Inr t \<Rightarrow> Inr [mappingKey \<mapsto> t])"

text \<open>
  The quotes around the identifier are removed. An empty body is indexed out of range, and a body
  that is one quote is sliced from 1 to 0.
\<close>

definition slice_range :: gerror where
  "slice_range = Panic ''runtime error: slice bounds out of range''"

definition FindTransactionIDByProgramID :: "string \<Rightarrow> http_get \<Rightarrow> string \<Rightarrow> string res" where
  "FindTransactionIDByProgramID url http programId =
     (case http (url @ ''/find/transactionID/deployment/'' @ programId) of
        Inl e \<Rightarrow> Inl e
      | Inr transactionId \<Rightarrow>
          if transactionId = [] then Inl index_range
          else if hd transactionId = CHR 0x22 \<and> last transactionId = CHR 0x22 then
            (if length transactionId < 2 then Inl slice_range else Inr (butlast (tl transactionId)))
          else Inr transactionId)"

definition Send_command :: "string \<Rightarrow> string \<Rightarrow> string \<Rightarrow> string \<Rightarrow> string \<Rightarrow> string list" where
  "Send_command aleoPacket privateKey queryUrl network priorityFee =
     [''snarkos'', ''developer'', ''execute'', ''bridge.aleo'', ''attest'', aleoPacket,
      ''--private-key'', privateKey, ''--query'', queryUrl,
      ''--broadcast'', queryUrl @ ''/'' @ network @ ''/transaction/broadcast'', ''--priority-fee'', priorityFee]"

section \<open>chains/aleo/client.go\<close>

record e2e_aleo =
  ea_name :: string
  ea_url :: string
  ea_bridgeAddress :: string
  ea_tokenServiceAddress :: string
  ea_rpc :: string
  ea_privateKey :: string

definition e2e_aleo_NewClient :: "e2e_chain \<Rightarrow> e2e_aleo res" where
  "e2e_aleo_NewClient cfg =
     (let endPoint = go_split (CHR ''|'') (ch_NodeUrl cfg)
      in if length endPoint < 2 then Inl index_range
         else Inr \<lparr>ea_name = ch_Name cfg, ea_url = endPoint ! 0, ea_bridgeAddress = ch_BridgeContractAddress cfg,
                   ea_tokenServiceAddress = ch_TokenServiceContractAddress cfg,
                   ea_rpc = e2e_NewRPC ''http://localhost:3000'' (endPoint ! 1),
                   ea_privateKey = ch_WalletPath cfg\<rparr>)"

definition e2e_aleo_TransferUSDC :: "('w, 'k) e2e_world \<Rightarrow> e2e_aleo \<Rightarrow> 'w \<Rightarrow> unit res \<times> 'w" where
  "e2e_aleo_TransferUSDC W c w =
     (case ew_output W
        [''snarkos'', ''developer'', ''execute'', ''wusdc_connector_v0001_1.aleo'', ''wusdc_send'',
         ''[232u8, 173u8, 26u8, 65u8, 73u8, 166u8, 25u8, 249u8, 9u8, 115u8, 238u8, 73u8, 233u8, 16u8, 8u8, 81u8, 150u8, 224u8, 242u8, 37u8]'',
         ''101u128'', ''--private-key'', ea_privateKey c, ''--network'', ''1'', ''--query'', ea_url c,
         ''--broadcast'', ea_url c @ ''/testnet/transaction/broadcast''] w of
        (Inl e, w1) \<Rightarrow> (Inl e, w1)
      | (Inr output, w1) \<Rightarrow> (Inr (), w1))"

text \<open>Every failure gives the number 0.\<close>

definition e2e_aleo_GetLatestSequenceNumber :: "e2e_aleo \<Rightarrow> http_get \<Rightarrow> u64" where
  "e2e_aleo_GetLatestSequenceNumber c http =
     (case e2e_GetMappingValue (ea_rpc c) http (ea_bridgeAddress c) ''sequences'' ''28556963657430695u128'' of
        Inl e \<Rightarrow> 0
      | Inr sequenceMap \<Rightarrow>
          (let seqString = replacer [([CHR 0x22], []), ([CHR 0x5C], []), (''u64'', [])]
                             (map_get sequenceMap ''28556963657430695u128'')
           in case parse_int64 seqString of None \<Rightarrow> 0 | Some sequenceInt \<Rightarrow> of_int sequenceInt))"

section \<open>chains/ethereum/client.go\<close>

definition defaultSendTxTimeout :: duration where "defaultSendTxTimeout = 30 * second"
definition defaultGasPrice :: int where "defaultGasPrice = 130000000000"
definition defaultGasLimit :: u64 where "defaultGasLimit = 1500000"

text \<open>\<open>walletAddress\<close> is never set. The connections and contract objects are in the world.\<close>

record 'k e2e_eth =
  ee_name :: string
  ee_url :: string
  ee_bridgeAddress :: bytes
  ee_tokenServiceAddress :: bytes
  ee_usdcAddress :: bytes
  ee_privateKey :: 'k
  ee_walletAddress :: bytes

definition loadWallet :: "('w, 'k) e2e_world \<Rightarrow> string \<Rightarrow> 'w \<Rightarrow> 'k res" where
  "loadWallet W path w =
     (case ew_read W path w of
        Inl e \<Rightarrow> Inl (Panic (error_text e))
      | Inr file \<Rightarrow>
          (case ew_DecryptKey W file ''Icon@123'' of
             Inl e \<Rightarrow> Inl (Panic (error_text e))
           | Inr privateKey \<Rightarrow> Inr privateKey))"

definition e2e_eth_NewClient :: "('w, 'k) e2e_world \<Rightarrow> e2e_chain \<Rightarrow> 'w \<Rightarrow> 'k e2e_eth res" where
  "e2e_eth_NewClient W cfg w =
     (case el_Dial (ew_library W) ''http://localhost:3001/'' of
        Inl e \<Rightarrow> Inl (Panic (error_text e))
      | Inr u \<Rightarrow>
     (let bridgeContractAddress = el_HexToAddress (ew_library W) (ch_BridgeContractAddress cfg);
          tokenServiceContractAddress = el_HexToAddress (ew_library W) (ch_TokenServiceContractAddress cfg);
          usdcContractAddress = el_HexToAddress (ew_library W) (ch_USDCContractAddress cfg)
      in case el_NewBridge (ew_library W) bridgeContractAddress of
        Inl e \<Rightarrow> Inl (Panic (''failed to create ethereum bridge client. Error: '' @ error_text e))
      | Inr u \<Rightarrow>
     (case ew_NewTokenService W tokenServiceContractAddress of
        Inl e \<Rightarrow> Inl (Panic (''failed to create ethereum bridge client. Error: '' @ error_text e))
      | Inr u \<Rightarrow>
     (case ew_NewUSDC W usdcContractAddress of
        Inl e \<Rightarrow> Inl (Panic (error_text e))
      | Inr u \<Rightarrow>
     (case loadWallet W (ch_WalletPath cfg) w of
        Inl e \<Rightarrow> Inl e
      | Inr privateKey \<Rightarrow>
          Inr \<lparr>ee_name = ch_Name cfg, ee_url = ch_NodeUrl cfg, ee_bridgeAddress = bridgeContractAddress,
               ee_tokenServiceAddress = tokenServiceContractAddress, ee_usdcAddress = usdcContractAddress,
               ee_privateKey = privateKey, ee_walletAddress = replicate 20 0\<rparr>)))))"

text \<open>The price that the node suggests is asked for and then replaced by the default.\<close>

definition buildTransactionOpts :: "('w, 'k) e2e_world \<Rightarrow> 'k e2e_eth \<Rightarrow> 'w \<Rightarrow> tx_opts res \<times> 'w" where
  "buildTransactionOpts W c w =
     (case ew_NewKeyedTransactor W (ee_privateKey c) 11155111 of
        Inl e \<Rightarrow> (Inl e, w)
      | Inr txo \<Rightarrow>
          (case ew_SuggestGasPrice W w of
             (r, w1) \<Rightarrow> (Inr (txo\<lparr>to_GasLimit := defaultGasLimit, to_GasPrice := Some defaultGasPrice\<rparr>), w1)))"

text \<open>\<open>getTxReceipt\<close>: the rounds of the loop that are left are counted down from 10.\<close>

fun receipt_rounds :: "('w, 'k) e2e_world \<Rightarrow> bytes \<Rightarrow> nat \<Rightarrow> 'w \<Rightarrow> u64 res \<times> 'w" where
  "receipt_rounds W txHash 0 w = (Inl (ErrMsg (''could not fetch the tx receipt of 0x'' @ hex_encode txHash)), w)"
| "receipt_rounds W txHash (Suc n) w =
     (case ew_TransactionReceipt W txHash w of
        (Inl e, w1) \<Rightarrow> receipt_rounds W txHash n (ew_sleep W (second * 5) w1)
      | (Inr receipt, w1) \<Rightarrow> (Inr receipt, w1))"

definition getTxReceipt :: "('w, 'k) e2e_world \<Rightarrow> bytes \<Rightarrow> 'w \<Rightarrow> u64 res \<times> 'w" where
  "getTxReceipt W txHash w = receipt_rounds W txHash 10 w"

text \<open>
  The steps that \<open>TransferEther\<close>, \<open>MintUSDC\<close>, \<open>ApproveUSDC\<close> and \<open>TransferUSDC\<close> share: options, the
  transaction with the value of the message, its receipt, and the status of the receipt.
\<close>

definition send_and_confirm ::
    "('w, 'k) e2e_world \<Rightarrow> 'k e2e_eth \<Rightarrow> (tx_opts \<Rightarrow> tx_opts) \<Rightarrow> bytes \<Rightarrow> e2e_call \<Rightarrow> 'w \<Rightarrow> unit res \<times> 'w" where
  "send_and_confirm W c adjust contract call w =
     (case buildTransactionOpts W c w of
        (Inl e, w1) \<Rightarrow> (Inl e, w1)
      | (Inr txOpts, w1) \<Rightarrow>
     (case ew_Transact W contract (adjust txOpts) call w1 of
        (Inl e, w2) \<Rightarrow> (Inl e, w2)
      | (Inr txHash, w2) \<Rightarrow>
     (case getTxReceipt W txHash w2 of
        (Inl e, w3) \<Rightarrow> (Inl e, w3)
      | (Inr status, w3) \<Rightarrow>
          (if status \<noteq> 1 then Inl (ErrMsg ''error in transaction'') else Inr (), w3))))"

definition TransferEther :: "('w, 'k) e2e_world \<Rightarrow> 'k e2e_eth \<Rightarrow> 'w \<Rightarrow> unit res \<times> 'w" where
  "TransferEther W c w =
     send_and_confirm W c (\<lambda>txOpts. txOpts\<lparr>to_Value := Some 500000000000000000\<rparr>) (ee_tokenServiceAddress c)
       (Transfer0 ''aleo1n0e4f57rlgg7sl2f0sm0xha2557hc8ecw4zst93768qeggdzxgrqcs0vc6'') w"

definition MintUSDC :: "('w, 'k) e2e_world \<Rightarrow> 'k e2e_eth \<Rightarrow> bytes \<Rightarrow> int \<Rightarrow> 'w \<Rightarrow> unit res \<times> 'w" where
  "MintUSDC W c address v w = send_and_confirm W c id (ee_usdcAddress c) (Mint address v) w"

definition ApproveUSDC :: "('w, 'k) e2e_world \<Rightarrow> 'k e2e_eth \<Rightarrow> int \<Rightarrow> 'w \<Rightarrow> unit res \<times> 'w" where
  "ApproveUSDC W c v w =
     send_and_confirm W c id (ee_usdcAddress c) (Approve (ee_tokenServiceAddress c) v) w"

definition e2e_TransferUSDC :: "('w, 'k) e2e_world \<Rightarrow> 'k e2e_eth \<Rightarrow> int \<Rightarrow> string \<Rightarrow> 'w \<Rightarrow> unit res \<times> 'w" where
  "e2e_TransferUSDC W c v receiver w =
     send_and_confirm W c id (ee_tokenServiceAddress c) (Transfer (ee_usdcAddress c) v receiver) w"

definition e2e_eth_GetLatestSequenceNumber :: "('w, 'k) e2e_world \<Rightarrow> 'k e2e_eth \<Rightarrow> 'w \<Rightarrow> u64 res \<times> 'w" where
  "e2e_eth_GetLatestSequenceNumber W c w =
     (case ew_Sequence W (ee_bridgeAddress c) w of
        (Inl e, w1) \<Rightarrow> (Inl e, w1)
      | (Inr sequence, w1) \<Rightarrow> (Inr (big_uint64 sequence), w1))"

section \<open>dbService/db.go\<close>

record packet_info =
  pi_ID :: string
  pi_SourceChainID :: string
  pi_DestChainID :: string
  pi_Sequence :: u64
  pi_PacketHash :: string
  pi_Attestor :: string
  pi_Signature :: string
  pi_Screening :: bool

record packet_infos =
  pis_Data :: "packet_info list"
  pis_Message :: string

definition zero_packet_info :: packet_info where
  "zero_packet_info =
     \<lparr>pi_ID = [], pi_SourceChainID = [], pi_DestChainID = [], pi_Sequence = 0, pi_PacketHash = [],
      pi_Attestor = [], pi_Signature = [], pi_Screening = False\<rparr>"

definition decode_packet_info :: "packet_info field_decoder" where
  "decode_packet_info = decode_struct
     [(''_id'', decode_string (\<lambda>v a. a\<lparr>pi_ID := v\<rparr>)),
      (''sourceChainId'', decode_string (\<lambda>v a. a\<lparr>pi_SourceChainID := v\<rparr>)),
      (''destChainId'', decode_string (\<lambda>v a. a\<lparr>pi_DestChainID := v\<rparr>)),
      (''sequence'', decode_uint 64 (\<lambda>v a. a\<lparr>pi_Sequence := of_nat v\<rparr>)),
      (''packetHash'', decode_string (\<lambda>v a. a\<lparr>pi_PacketHash := v\<rparr>)),
      (''attestorSigner'', decode_string (\<lambda>v a. a\<lparr>pi_Attestor := v\<rparr>)),
      (''signature'', decode_string (\<lambda>v a. a\<lparr>pi_Signature := v\<rparr>)),
      (''offChainAnalysis'', decode_bool (\<lambda>v a. a\<lparr>pi_Screening := v\<rparr>))]"

definition decode_packet_infos :: "packet_infos field_decoder" where
  "decode_packet_infos = decode_struct
     [(''data'', decode_slice decode_packet_info zero_packet_info pis_Data (\<lambda>v a. a\<lparr>pis_Data := v\<rparr>)),
      (''message'', decode_string (\<lambda>v a. a\<lparr>pis_Message := v\<rparr>))]"

text \<open>The first element of the answer is taken without a look at its length.\<close>

definition GetPacketInfo :: "http_env \<Rightarrow> string \<Rightarrow> string \<Rightarrow> string \<Rightarrow> string \<Rightarrow> packet_info res" where
  "GetPacketInfo H collectorUri sequence src dest =
     (case he_Parse H collectorUri of
        Inl e \<Rightarrow> Inl e
      | Inr u0 \<Rightarrow>
     (let u = (JoinPath u0 ''/signature'')
                \<lparr>u_RawQuery := encode_query [(''destinationChainId'', dest), (''sequence'', sequence), (''sourceChainId'', src)]\<rparr>
      in case he_Do H \<lparr>hr_Method = http_GET, hr_URL = u, hr_ContentType = None, hr_Body = []\<rparr> of
        Inl e \<Rightarrow> Inl e
      | Inr resp \<Rightarrow>
     (if hp_Status resp \<noteq> 200 then Inl (ErrMsg (''unexpected status code '' @ itoa_int (hp_Status resp)))
      else case hp_ReadErr resp of
        Some e \<Rightarrow> Inl e
      | None \<Rightarrow>
     (case unmarshal decode_packet_infos (string_of_bytes (hp_Body resp)) \<lparr>pis_Data = [], pis_Message = []\<rparr> of
        Inl e \<Rightarrow> Inl e
      | Inr pktInfo \<Rightarrow> (case pis_Data pktInfo of [] \<Rightarrow> Inl index_range | p # ps \<Rightarrow> Inr p)))))"

section \<open>testSuite/e2eTest.go\<close>

definition TokenReceiverAddress :: string where
  "TokenReceiverAddress = ''aleo1v7nr80exf6p2709py6xf692v9f69l5cm230w23tz2p9fhx954qpq7cm7p4''"
definition FinalityHeight :: int where "FinalityHeight = 1"
definition EthChainID :: string where "EthChainID = ''28556963657430695''"
definition AleoChainID :: string where "AleoChainID = ''6694886634403''"

text \<open>
  The test object is a fresh \<open>testing.T\<close> that no test runner reads; its state is whether an assertion
  has failed on it. A failed assertion does not end the flow. A flow that returns has printed
  that the test passed.
\<close>

definition assert_NoError :: "'a res \<Rightarrow> bool \<Rightarrow> bool" where
  "assert_NoError r failed \<longleftrightarrow> failed \<or> isl r"

definition waitTime :: duration where
  "waitTime = (second * 14) * (FinalityHeight + 2)"

text \<open>\<open>strconv.Itoa(int(seqNumber) + 1)\<close>.\<close>

definition next_number :: "u64 \<Rightarrow> string" where
  "next_number seqNumber = itoa_int (sint (seqNumber + 1))"

text \<open>The lookup of a flow: an error leaves a nil pointer, which the next line dereferences.\<close>

definition check_packet :: "http_env \<Rightarrow> string \<Rightarrow> u64 \<Rightarrow> string \<Rightarrow> string \<Rightarrow> bool \<Rightarrow> unit res \<times> bool" where
  "check_packet H dbServiceURI seqNumber src dest failed =
     (case GetPacketInfo H dbServiceURI (next_number seqNumber) src dest of
        Inl e \<Rightarrow> if is_panic e then (Inl e, failed) else (Inl nil_deref, True)
      | Inr pktInfo \<Rightarrow> (Inr (), failed \<or> seqNumber + 1 \<noteq> pi_Sequence pktInfo))"

definition ExecuteETHFlow ::
    "('w, 'k) e2e_world \<Rightarrow> e2e_chain \<Rightarrow> string \<Rightarrow> bool \<times> 'w \<Rightarrow> unit res \<times> bool \<times> 'w" where
  "ExecuteETHFlow W cfg dbServiceURI = (\<lambda>(failed, w).
     (case e2e_eth_NewClient W cfg w of
        Inl e \<Rightarrow> (Inl e, failed, w)
      | Inr ethClient \<Rightarrow>
     (let (latest, w1) = e2e_eth_GetLatestSequenceNumber W ethClient w;
          seqNumber = (case latest of Inl e \<Rightarrow> 0 | Inr n \<Rightarrow> n);
          mintValue = 100000000000000000000;
          (mint, w2) = MintUSDC W ethClient (el_HexToAddress (ew_library W) (ch_WalletAddress cfg)) mintValue w1;
          transferValue = mintValue div 10;
          (approve, w3) = ApproveUSDC W ethClient transferValue w2;
          (transfer, w4) = e2e_TransferUSDC W ethClient transferValue TokenReceiverAddress w3;
          w5 = ew_sleep W waitTime w4;
          failed1 = assert_NoError transfer (assert_NoError approve (assert_NoError mint (assert_NoError latest failed)));
          (r, failed2) = check_packet (ew_http W w5) dbServiceURI seqNumber EthChainID AleoChainID failed1
      in (r, failed2, w5))))"

definition ExecuteALEOFlow ::
    "('w, 'k) e2e_world \<Rightarrow> e2e_chain \<Rightarrow> string \<Rightarrow> bool \<times> 'w \<Rightarrow> unit res \<times> bool \<times> 'w" where
  "ExecuteALEOFlow W cfg dbServiceURI = (\<lambda>(failed, w).
     (case e2e_aleo_NewClient cfg of
        Inl e \<Rightarrow> (Inl e, failed, w)
      | Inr aleoClient \<Rightarrow>
     (let sequenceNumber = e2e_aleo_GetLatestSequenceNumber aleoClient (ew_aleo W w);
          (transfer, w1) = e2e_aleo_TransferUSDC W aleoClient w;
          w2 = ew_sleep W waitTime w1;
          (r, failed2) = check_packet (ew_http W w2) dbServiceURI sequenceNumber AleoChainID EthChainID
                           (assert_NoError transfer failed)
      in (r, failed2, w2))))"

definition TestBringRelayDown :: "('w, 'k) e2e_world \<Rightarrow> 'w \<Rightarrow> unit res \<times> 'w" where
  "TestBringRelayDown W w = StopRelayImage W ''../compose.yaml'' w"

section \<open>main.go\<close>

definition e2e_InitConfig :: "('w, 'k) e2e_world \<Rightarrow> (bytes \<Rightarrow> e2e_settings res) \<Rightarrow> string \<Rightarrow> 'w \<Rightarrow> e2e_settings res" where
  "e2e_InitConfig W decode configFile w =
     (case ew_read W configFile w of
        Inl e \<Rightarrow> Inl e
      | Inr b \<Rightarrow> (case decode b of Inl e \<Rightarrow> Inl e | Inr config \<Rightarrow> Inr config))"

text \<open>The endpoints of the two chains: the last chain of each name wins.\<close>

fun chain_endpoints :: "e2e_chain option list \<Rightarrow> string \<times> string \<Rightarrow> (string \<times> string) res" where
  "chain_endpoints [] es = Inr es"
| "chain_endpoints (None # vs) es = Inl nil_deref"
| "chain_endpoints (Some v # vs) (ethEndpoint, aleoEndpoint) =
     chain_endpoints vs
       (if ch_Name v = ''ethereum'' then ch_NodeUrl v else ethEndpoint,
        if ch_Name v = ''aleo'' then ch_NodeUrl v else aleoEndpoint)"

fun run_flows :: "('w, 'k) e2e_world \<Rightarrow> string \<Rightarrow> e2e_chain option list \<Rightarrow> bool \<times> 'w \<Rightarrow> unit res \<times> bool \<times> 'w" where
  "run_flows W uri [] s = (Inr (), s)"
| "run_flows W uri (None # vs) s = (Inl nil_deref, s)"
| "run_flows W uri (Some v # vs) s =
     (case (if ch_Name v = ''ethereum'' then ExecuteETHFlow W v uri s
            else if ch_Name v = ''aleo'' then ExecuteALEOFlow W v uri s
            else (Inr (), s)) of
        (Inl e, s') \<Rightarrow> (Inl e, s')
      | (Inr u, s') \<Rightarrow> run_flows W uri vs s')"

fun test_cycles :: "('w, 'k) e2e_world \<Rightarrow> e2e_settings \<Rightarrow> nat \<Rightarrow> bool \<times> 'w \<Rightarrow> unit res \<times> bool \<times> 'w" where
  "test_cycles W cfg 0 s = (Inr (), s)"
| "test_cycles W cfg (Suc n) (failed, w) =
     (case RunRelayImage W ''../compose.yaml'' w of
        (Inl e, w1) \<Rightarrow> (Inl e, failed, w1)
      | (Inr u, w1) \<Rightarrow>
     (case run_flows W (es_CollectorServiceURI cfg) (es_Chains cfg) (failed, w1) of
        (Inl e, s2) \<Rightarrow> (Inl e, s2)
      | (Inr u, failed2, w2) \<Rightarrow>
     (case StopRelayImage W ''../compose.yaml'' w2 of
        (Inl e, w3) \<Rightarrow> (Inl e, failed2, w3)
      | (Inr u, w3) \<Rightarrow> test_cycles W cfg n (failed2, w3))))"

text \<open>
  The two services that a benchmark starts. An error that is no panic stands for \<open>log.Fatal\<close>, which
  exits without the deferred calls. The wait for the end of the context ends with a signal.
\<close>

definition run_benchmark :: "('w, 'k) e2e_world \<Rightarrow> 'w \<Rightarrow> unit res \<times> 'w" where
  "run_benchmark W w =
     (case ew_append W ''signingService.log'' w of
        (Inl e, w1) \<Rightarrow> (Inl e, w1)
      | (Inr u, w1) \<Rightarrow>
     (case ew_append W ''chainService.log'' w1 of
        (Inl e, w2) \<Rightarrow> (Inl e, w2)
      | (Inr u, w2) \<Rightarrow>
     (case ew_start W [''../signingService/signingService'', ''--kp'', ''../signingService/keys.yaml'', ''--config'',
              ''../signingService/config.yaml'', ''--address'', ''0.0.0.0'', ''--port'', ''8080''] w2 of
        (Inl e, w3) \<Rightarrow> (Inl e, w3)
      | (Inr u, w3) \<Rightarrow>
          ew_start W [''../chainService/chainService'', ''--config'', ''../chainService/config.yaml'', ''--clean'', ''true'']
            (ew_sleep W (second * 5) w3))))"

definition proxy_command :: "string \<Rightarrow> bool \<Rightarrow> string list" where
  "proxy_command remoteUrl benchMarkRelayer =
     [''../proxy/proxy'', ''--remoteUrl'', remoteUrl, ''--port'', ''3002'', ''--benchMark'',
      if benchMarkRelayer then ''true'' else ''false'', ''&!'']"

definition run_tests ::
    "('w, 'k) e2e_world \<Rightarrow> e2e_settings \<Rightarrow> string \<times> string \<Rightarrow> int \<Rightarrow> bool \<Rightarrow> 'w \<Rightarrow> unit res \<times> bool \<times> 'w" where
  "run_tests W cfg = (\<lambda>(ethEndpoint, aleoEndpoint) testCycle benchMarkRelayer w.
     (case WriteE2EConifg W (es_WriteConfigPath cfg) ethEndpoint aleoEndpoint 6694886634403 1 benchMarkRelayer w of
        (Inl e, w1) \<Rightarrow> (Inl e, False, w1)
      | (Inr u, w1) \<Rightarrow>
          if benchMarkRelayer then (case run_benchmark W w1 of (r, w2) \<Rightarrow> (r, False, w2))
          else test_cycles W cfg (nat testCycle) (False, w1)))"

definition e2e_main ::
    "('w, 'k) e2e_world \<Rightarrow> (bytes \<Rightarrow> e2e_settings res) \<Rightarrow> int \<Rightarrow> bool \<Rightarrow> 'w \<Rightarrow> unit res \<times> bool \<times> 'w" where
  "e2e_main W decode testCycle benchMarkRelayer w =
     (case e2e_InitConfig W decode ''config.yaml'' w of
        Inl e \<Rightarrow> (Inl (Panic (error_text e)), False, w)
      | Inr cfg \<Rightarrow>
     (case chain_endpoints (es_Chains cfg) ([], []) of
        Inl e \<Rightarrow> (Inl e, False, w)
      | Inr (ethEndpoint, aleoEndpoint) \<Rightarrow>
     (let cmdAleo = proxy_command (go_split (CHR ''|'') aleoEndpoint ! 0) benchMarkRelayer
      in case ew_append W ''server.log'' w of
        (Inl e, w1) \<Rightarrow> (Inl e, False, w1)
      | (Inr u, w1) \<Rightarrow>
     (case ew_start W cmdAleo w1 of
        (Inl e, w2) \<Rightarrow> (Inl (Panic (error_text e)), False, w2)
      | (Inr u, w2) \<Rightarrow>
     (case run_tests W cfg (ethEndpoint, aleoEndpoint) testCycle benchMarkRelayer (ew_sleep W (second * 5) w2) of
        (r, failed, w3) \<Rightarrow>
          (case r of
             Inl e \<Rightarrow> (Inl e, failed, if is_panic e then ew_kill W cmdAleo w3 else w3)
           | Inr u \<Rightarrow> (Inr (), failed, ew_kill W cmdAleo w3)))))))"

end
