(* ===== verification/EndToEndProps.thy ===== *)
theory EndToEndProps
  imports EndToEnd ConfigProps EthProps
begin

text \<open>
  What the end-to-end tests can tell: the configuration they write for the relay and what the relay
  makes of it, the polling for a receipt, and when a run of the suite ends without a complaint.
\<close>

section \<open>The written configuration, read by the relay\<close>

text \<open>
  The file carries the fields under the names of their \<open>yaml\<close> tags. The relay knows three more
  (health endpoint, block time, version), which stay at their zero values; \<open>output_dir\<close> is the tag
  of \<open>OutputPath\<close> in the test program and of \<open>OutputDir\<close> in the relay.
\<close>

definition relay_reads_chain :: "e2e_relay_chain \<Rightarrow> chain_config" where
  "relay_reads_chain c =
     \<lparr>cc_Name = rc_Name c, cc_ChainID = rc_ChainID c, cc_BridgeContract = rc_BridgeContract c,
      cc_NodeUrl = rc_NodeUrl c, cc_PacketValidityWaitDuration = rc_PacketValidityWaitDuration c,
      cc_FeedPacketWaitDuration = rc_FeedPacketWaitDuration c, cc_FinalityHeight = rc_FinalityHeight c,
      cc_WalletPath = rc_WalletPath c, cc_DestChains = rc_DestChains c, cc_WalletAddress = rc_WalletAddress c,
      cc_StartSeqNum = rc_StartSeqNum c, cc_StartHeight = rc_StartHeight c, cc_FilterTopic = rc_FilterTopic c,
      cc_RetryPacketWaitDur = rc_RetryPacketWaitDur c,
      cc_PruneBaseSeqNumberWaitDur = rc_PruneBaseSeqNumberWaitDur c, cc_AverageBlockGenDur = 0\<rparr>"

definition relay_reads :: "e2e_relay_config \<Rightarrow> config" where
  "relay_reads c =
     \<lparr>cf_Name = rf_Name c, cf_ChainConfigs = map (\<lambda>v. Some (relay_reads_chain v)) (rf_ChainConfigs c),
      cf_LogConfig = Some \<lparr>lc_Encoding = rl_Encoding (rf_LogConfig c), lc_OutputDir = rl_OutputPath (rf_LogConfig c),
        lc_OutputPath = []\<rparr>,
      cf_DBDir = rf_DBDir c, cf_DBPath = [], cf_ConsumePacketWorker = rf_ConsumePacketWorker c, cf_Mode = rf_Mode c,
      cf_SigningServiceConfig =
        (let s = rf_SigningServiceConfig c
         in \<lparr>sc_Host = rs_Host s, sc_Port = rs_Port s, sc_Endpoint = rs_Endpoint s, sc_Scheme = rs_Scheme s,
             sc_Username = rs_Username s, sc_Password = rs_Password s, sc_HealthEndpoint = []\<rparr>),
      cf_CollectorServiceConfig =
        (let s = rf_CollectorServiceConfig c
         in \<lparr>co_Uri = ro_Uri s, co_CollectorWaitDur = ro_CollectorWaitDur s, co_CaCertificate = ro_CaCertificate s,
             co_AttestorCertificate = ro_AttestorCertificate s, co_AttestorKey = ro_AttestorKey s\<rparr>),
      cf_CheckHealthServiceDur = rf_CheckHealthServiceDur c,
      cf_MetricConfig = \<lparr>mc_Host = rm_Host (rf_MetricConfig c), mc_JobName = rm_JobName (rf_MetricConfig c)\<rparr>,
      cf_Version = []\<rparr>"

text \<open>The chains as the relay has them after it has put identifiers for the names.\<close>

definition read_aleo :: "string \<Rightarrow> u64 \<Rightarrow> chain_config" where
  "read_aleo url n = (relay_reads_chain (e2e_relay_aleo url n))
     \<lparr>cc_DestChains := [bigint_str (Some 28556963657430695)],
      cc_StartSeqNum := [(bigint_str (Some 28556963657430695), n)]\<rparr>"

definition read_ethereum :: "string \<Rightarrow> u64 \<Rightarrow> chain_config" where
  "read_ethereum url h = (relay_reads_chain (e2e_relay_ethereum url h))\<lparr>cc_DestChains := [bigint_str (Some 6694886634403)]\<rparr>"

lemma written_chains_valid:
  "validateChainConfig (relay_reads (e2e_relay_config_of eth aleo h n bench)) =
     Inr ((relay_reads (e2e_relay_config_of eth aleo h n bench))
       \<lparr>cf_ChainConfigs := [Some (read_aleo (if bench then ''http://localhost:3002|testnet'' else aleo) n),
                            Some (read_ethereum eth h)]\<rparr>)"
  by (simp add: validateChainConfig_def relay_reads_def e2e_relay_config_of_def Let_def relay_reads_chain_def
      e2e_relay_aleo_def e2e_relay_ethereum_def read_aleo_def read_ethereum_def)

lemma InitConfig_chains:
  assumes "InitConfig F decode a f = (Inr cfg, f')" and "fs_read F f (fa_ConfigFile a) = Inr b" and "decode b = Inr c"
  shows "\<exists>c'. validateChainConfig c = Inr c' \<and> cf_ChainConfigs cfg = cf_ChainConfigs c'"
  using assms by (auto simp: InitConfig_def Let_def split: sum.splits prod.splits option.splits if_splits)

lemma read_ethereum_wait: "eth_waitHeight (default_dur (cc_PacketValidityWaitDuration (read_ethereum url h)) eth_defaultValidityWaitDur)
    (cc_FinalityHeight (read_ethereum url h)) = 1"
  by (simp add: read_ethereum_def relay_reads_chain_def e2e_relay_ethereum_def default_dur_def eth_waitHeight_def
      eth_avgBlockGenDur_def second_def signed_divide_int_def)

lemma feed_start_next: "feed_start B an cl d = Inr (cl', es) \<Longrightarrow>
    ec_nextBlockHeight cl \<le> ec_nextBlockHeight cl' \<and> ec_waitHeight cl' = ec_waitHeight cl \<and> ec_chainID cl' = ec_chainID cl"
  by (auto simp: feed_start_def split: sum.splits prod.splits if_splits)

lemma eth_NewClient_start: "eth_NewClient B L cfg nsp d = (Inr (cl, nsp'), d') \<Longrightarrow>
    ec_nextBlockHeight cl = cc_StartHeight cfg \<and>
    ec_waitHeight cl = eth_waitHeight (default_dur (cc_PacketValidityWaitDuration cfg) eth_defaultValidityWaitDur) (cc_FinalityHeight cfg)"
  by (auto simp: eth_NewClient_def split: sum.splits prod.splits)


text \<open>A client whose next block lies above every matured block only goes to sleep.\<close>

lemma feed_tick_waits:
  assumes "1 \<le> reading" and "reading \<le> ec_nextBlockHeight cl" and "ec_waitHeight cl = 1"
  shows "\<exists>es. feed_tick an ((Inr reading, N) # rest) cl [] = Some (cl, es, rest) \<and> fed es = []"
proof -
  have "reading - 1 < reading"
    using assms(1) by (simp add: word_le_nat_alt word_less_nat_alt unat_sub)
  then have "reading - 1 < ec_nextBlockHeight cl" using assms(2) by (rule less_le_trans)
  then show ?thesis using assms(3) by (simp add: eth_blockHeightPriorWaitDur_def Let_def)
qed



definition test_library :: eth_library where
  "test_library =
     \<lparr>el_Dial = (\<lambda>s. Inr ()), el_NewBridge = (\<lambda>a. Inr ()), el_HexToAddress = (\<lambda>s. replicate 20 0),
      el_HexToHash = (\<lambda>s. replicate 32 0)\<rparr>"

definition written :: e2e_relay_config where
  "written = e2e_relay_config_of ''eth'' ''aleo|testnet'' 6694886634403 1 False"

lemma fresh_start: "\<exists>x. GetStartingSeqNumAndHeight mem_bolt ns [(ns, [])] = Inr x"
  by (simp add: GetStartingSeqNumAndHeight_def getLastKeyValue_def mem_bolt_def mem_end_def mem_bucket_def next_of_def)

lemma written_client_starts:
  "\<exists>cl0 nsp' d' cl es0.
     eth_NewClient mem_bolt test_library (read_ethereum ''eth'' 6694886634403) \<lparr>nsp_base = [], nsp_retry = []\<rparr> [] = (Inr (cl0, nsp'), d') \<and>
     feed_start mem_bolt ''a'' cl0 [(eth_baseSeqNumNameSpacePrefix @ bigint_str (Some 6694886634403), [])] = Inr (cl, es0)"
proof -
  obtain d' where "CreateNamespaces mem_bolt (chain_namespaces eth_retryPacketNamespacePrefix eth_baseSeqNumNameSpacePrefix
      [bigint_str (Some 6694886634403)]) [] = (Inr (), d')"
    using CreateNamespaces_effect [OF mem.bbolt_reliable_axioms, of "chain_namespaces eth_retryPacketNamespacePrefix
      eth_baseSeqNumNameSpacePrefix [bigint_str (Some 6694886634403)]" "[]"]
    by (auto simp: chain_namespaces_def eth_retryPacketNamespacePrefix_def eth_baseSeqNumNameSpacePrefix_def)
  then obtain cl0 nsp' where 1: "eth_NewClient mem_bolt test_library (read_ethereum ''eth'' 6694886634403)
      \<lparr>nsp_base = [], nsp_retry = []\<rparr> [] = (Inr (cl0, nsp'), d')" "ec_destChainsIDMap cl0 = [bigint_str (Some 6694886634403)]"
    by (simp add: eth_NewClient_def NewEthClient_def test_library_def read_ethereum_def relay_reads_chain_def)
  obtain x where "GetStartingSeqNumAndHeight mem_bolt (eth_baseSeqNumNameSpacePrefix @ bigint_str (Some 6694886634403))
      [(eth_baseSeqNumNameSpacePrefix @ bigint_str (Some 6694886634403), [])] = Inr x"
    using fresh_start by blast
  then have "\<exists>y. feed_start mem_bolt ''a'' cl0 [(eth_baseSeqNumNameSpacePrefix @ bigint_str (Some 6694886634403), [])] = Inr y"
    using 1(2) by (cases x) (simp add: feed_start_def)
  then show ?thesis using 1(1) by (metis surj_pair)
qed

lemma written_accepted:
  "\<exists>cfg f'. InitConfig empty_files (\<lambda>b. Inr (relay_reads written)) no_flags () = (Inr cfg, f')"
proof -
  obtain c1 where v: "validateChainConfig (relay_reads written) = Inr c1"
    and c1: "cf_DBDir c1 = []" "cf_ConsumePacketWorker c1 = 10" "sc_Scheme (cf_SigningServiceConfig c1) = ''http''"
      "\<exists>l. cf_LogConfig c1 = Some l \<and> lc_OutputDir l = ''log''"
    unfolding written_def written_chains_valid by (simp add: relay_reads_def e2e_relay_config_of_def)
  have "\<not> str_contains ''log'' logFileName"
    by (simp add: str_contains_def logFileName_def sublist_Cons_right prefix_Cons)
  then show ?thesis
    using c1 by (auto simp: InitConfig_def v empty_files_def no_flags_def getPath_def validateDirectory_def clean_start_def)
qed



section \<open>The verdict of the test suite\<close>

text \<open>
  A world in which the suite can run: docker works, the clients can be built, and the collector
  answers every query with some packet. Nothing is asked of the chains and of the transactions.
\<close>

definition answering :: "('w, 'k) e2e_world \<Rightarrow> e2e_settings \<Rightarrow> bool" where
  "answering W cfg \<longleftrightarrow>
     (\<forall>args w. \<exists>out w'. ew_output W (''docker'' # args) w = (Inr out, w')) \<and>
     None \<notin> set (es_Chains cfg) \<and>
     (\<forall>v w. Some v \<in> set (es_Chains cfg) \<and> ch_Name v = ''ethereum'' \<longrightarrow> (\<exists>c. e2e_eth_NewClient W v w = Inr c)) \<and>
     (\<forall>v. Some v \<in> set (es_Chains cfg) \<and> ch_Name v = ''aleo'' \<longrightarrow> (\<exists>c. e2e_aleo_NewClient v = Inr c)) \<and>
     (\<forall>w q src dest. \<exists>p. GetPacketInfo (ew_http W w) (es_CollectorServiceURI cfg) q src dest = Inr p)"

text \<open>Neither chain answers: the bridge contract cannot be called, and \<open>snarkos\<close> fails.\<close>

definition unreachable :: "('w, 'k) e2e_world \<Rightarrow> bool" where
  "unreachable W \<longleftrightarrow> (\<forall>a w. isl (fst (ew_Sequence W a w))) \<and> (\<forall>args w. isl (fst (ew_output W (''snarkos'' # args) w)))"

definition passes :: "bool \<Rightarrow> bool \<Rightarrow> unit res \<times> bool \<times> 'w \<Rightarrow> bool" where
  "passes wrong failed r \<longleftrightarrow> fst r = Inr () \<and> (failed \<or> wrong \<longrightarrow> fst (snd r))"

lemma check_packet_passes:
  assumes "answering W cfg" and "failed \<or> wrong \<Longrightarrow> failed'"
  shows "passes wrong failed
    (fst (check_packet (ew_http W w) (es_CollectorServiceURI cfg) m src dest failed'),
     snd (check_packet (ew_http W w) (es_CollectorServiceURI cfg) m src dest failed'), w')"
proof -
  obtain p where "GetPacketInfo (ew_http W w) (es_CollectorServiceURI cfg) (next_number m) src dest = Inr p"
    using assms(1) unfolding answering_def by blast
  then show ?thesis using assms(2) by (auto simp: check_packet_def passes_def)
qed

lemma unreachable_sequence:
  assumes "unreachable W"
  shows "isl (fst (e2e_eth_GetLatestSequenceNumber W c w))"
proof -
  have "isl (fst (ew_Sequence W (ee_bridgeAddress c) w))" using assms unfolding unreachable_def by blast
  then show ?thesis by (auto simp: e2e_eth_GetLatestSequenceNumber_def split: prod.split sum.split)
qed

lemma unreachable_transfer:
  assumes "unreachable W"
  shows "isl (fst (e2e_aleo_TransferUSDC W c w))"
proof -
  have "isl (fst (ew_output W (''snarkos'' # args) w))" for args using assms unfolding unreachable_def by blast
  then show ?thesis unfolding e2e_aleo_TransferUSDC_def by (simp add: case_prod_beta split: sum.split) (metis sum.disc(2))
qed

lemma eth_flow_passes:
  assumes "answering W cfg" and "Some v \<in> set (es_Chains cfg)" and "ch_Name v = ''ethereum''"
  shows "passes (unreachable W) failed (ExecuteETHFlow W v (es_CollectorServiceURI cfg) (failed, w))"
proof -
  obtain c where "e2e_eth_NewClient W v w = Inr c" using assms unfolding answering_def by blast
  then show ?thesis
    by (simp add: ExecuteETHFlow_def Let_def case_prod_beta assert_NoError_def)
      (rule check_packet_passes [OF assms(1)], auto simp: unreachable_sequence)
qed

lemma aleo_flow_passes:
  assumes "answering W cfg" and "Some v \<in> set (es_Chains cfg)" and "ch_Name v = ''aleo''"
  shows "passes (unreachable W) failed (ExecuteALEOFlow W v (es_CollectorServiceURI cfg) (failed, w))"
proof -
  obtain c where "e2e_aleo_NewClient v = Inr c" using assms unfolding answering_def by blast
  then show ?thesis
    by (simp add: ExecuteALEOFlow_def Let_def case_prod_beta assert_NoError_def)
      (rule check_packet_passes [OF assms(1)], auto simp: unreachable_transfer)
qed

text \<open>The chains that a flow is run for.\<close>

definition tested :: "e2e_chain option list \<Rightarrow> bool" where
  "tested vs \<longleftrightarrow> (\<exists>v. Some v \<in> set vs \<and> ch_Name v \<in> {''ethereum'', ''aleo''})"

lemma run_flows_passes:
  assumes "answering W cfg" and "set vs \<subseteq> set (es_Chains cfg)"
  shows "passes (unreachable W \<and> tested vs) failed (run_flows W (es_CollectorServiceURI cfg) vs (failed, w))"
  using assms(2)
proof (induction vs arbitrary: failed w)
  case Nil
  then show ?case by (simp add: passes_def tested_def)
next
  case (Cons x vs)
  then obtain v where v: "x = Some v" "Some v \<in> set (es_Chains cfg)"
    using assms(1) by (cases x) (auto simp: answering_def)
  define r where "r = (if ch_Name v = ''ethereum'' then ExecuteETHFlow W v (es_CollectorServiceURI cfg) (failed, w)
      else if ch_Name v = ''aleo'' then ExecuteALEOFlow W v (es_CollectorServiceURI cfg) (failed, w)
      else (Inr (), failed, w))"
  have "passes (unreachable W \<and> ch_Name v \<in> {''ethereum'', ''aleo''}) failed r"
    using eth_flow_passes [OF assms(1) v(2)] aleo_flow_passes [OF assms(1) v(2)] by (auto simp: r_def passes_def)
  then obtain failed' w' where r: "r = (Inr (), failed', w')"
    "failed \<or> unreachable W \<and> ch_Name v \<in> {''ethereum'', ''aleo''} \<Longrightarrow> failed'"
    by (cases r) (auto simp: passes_def)
  have "run_flows W (es_CollectorServiceURI cfg) (x # vs) (failed, w) =
      run_flows W (es_CollectorServiceURI cfg) vs (failed', w')"
    unfolding v(1) run_flows.simps r_def [symmetric] r(1) by simp
  moreover have "tested (x # vs) \<longleftrightarrow> ch_Name v \<in> {''ethereum'', ''aleo''} \<or> tested vs"
    by (auto simp: tested_def v(1))
  ultimately show ?case
    using Cons.IH [of failed' w'] Cons.prems r(2) unfolding passes_def by (simp only: set_simps) blast
qed

lemma docker_runs:
  assumes "answering W cfg"
  shows "\<exists>w'. must_output W (''docker'' # args) w = (Inr (), w')"
proof -
  obtain out w' where "ew_output W (''docker'' # args) w = (Inr out, w')"
    using assms unfolding answering_def by blast
  then show ?thesis by (simp add: must_output_def)
qed

text \<open>
  C39. The end-to-end suite cannot fail through its assertions. As long as docker works, the clients
  can be built and the collector answers each query with some packet, every run of the test cycles
  returns normally, even when neither chain can be reached and no transaction is sent. The \<open>testing.T\<close>
  of the suite has then recorded a failure (second component), and no code reads it.
\<close>

theorem suite_hides_failures:
  assumes "answering W cfg"
  shows "fst (test_cycles W cfg n (failed, w)) = Inr () \<and>
    (failed \<or> 0 < n \<and> tested (es_Chains cfg) \<and> unreachable W \<longrightarrow> fst (snd (test_cycles W cfg n (failed, w))))"
proof (induction n arbitrary: failed w)
  case (Suc n)
  obtain w1 where run: "RunRelayImage W ''../compose.yaml'' w = (Inr (), w1)"
    unfolding RunRelayImage_def using docker_runs [OF assms] by blast
  obtain failed2 w2 where flows: "run_flows W (es_CollectorServiceURI cfg) (es_Chains cfg) (failed, w1) = (Inr (), failed2, w2)"
    "failed \<or> unreachable W \<and> tested (es_Chains cfg) \<Longrightarrow> failed2"
    using run_flows_passes [OF assms order_refl, of failed w1]
    by (cases "run_flows W (es_CollectorServiceURI cfg) (es_Chains cfg) (failed, w1)") (auto simp: passes_def)
  obtain w3 where stop: "StopRelayImage W ''../compose.yaml'' w2 = (Inr (), w3)"
    unfolding StopRelayImage_def using docker_runs [OF assms] by blast
  have "test_cycles W cfg (Suc n) (failed, w) = test_cycles W cfg n (failed2, w3)"
    by (simp add: run flows(1) stop)
  then show ?case using Suc.IH [of failed2 w3] flows(2) by auto
qed simp


text \<open>Neither a node nor \<open>snarkos\<close> is there; the collector has one packet, of number 7.\<close>

definition one_packet :: string where
  "one_packet = print_json (JObj [(''data'', JArr [JObj [(''sequence'', JNum (itoa 7))]])])"

lemma one_packet_decodes:
  "\<exists>m p ps. unmarshal decode_packet_infos one_packet \<lparr>pis_Data = [], pis_Message = []\<rparr> = Inr m \<and> pis_Data m = p # ps"
proof -
  have "parse_json one_packet = Some (JObj [(''data'', JArr [JObj [(''sequence'', JNum (itoa 7))]])])"
    unfolding one_packet_def by (rule parse_print) (simp_all add: max_depth_def)
  moreover have "decode_packet_info (JObj [(''sequence'', JNum (itoa 7))]) zero_packet_info =
      Inr (zero_packet_info\<lparr>pi_Sequence := 7\<rparr>)"
    by (simp add: decode_packet_info_def decode_struct_def find_field_def decode_uint_def digits_from_itoa)
  ultimately show ?thesis
    by (simp add: unmarshal_def decode_packet_infos_def decode_struct_def find_field_def decode_slice_def)
qed

definition dead_world :: "(unit, unit) e2e_world" where
  "dead_world =
     \<lparr>ew_create = (\<lambda>p w. (Inr (), w)), ew_encode = (\<lambda>p c w. (Inr (), w)), ew_read = (\<lambda>p w. Inr []),
      ew_append = (\<lambda>p w. (Inr (), w)),
      ew_output = (\<lambda>args w. (if hd args = ''docker'' then Inr [] else Inl (ErrLib ''exec''), w)),
      ew_start = (\<lambda>args w. (Inr (), w)), ew_kill = (\<lambda>args w. w), ew_sleep = (\<lambda>t w. w),
      ew_aleo = (\<lambda>w q. Inl (ErrLib ''connection refused'')),
      ew_http = (\<lambda>w. \<lparr>he_Parse = (\<lambda>s. Inr \<lparr>u_Scheme = [], u_User = None, u_Host = s, u_Path = [], u_RawQuery = []\<rparr>),
         he_Do = (\<lambda>r. Inr \<lparr>hp_Status = 200, hp_Body = bytes_of_string one_packet, hp_ReadErr = None\<rparr>)\<rparr>),
      ew_library = test_library, ew_NewTokenService = (\<lambda>a. Inr ()), ew_NewUSDC = (\<lambda>a. Inr ()),
      ew_DecryptKey = (\<lambda>b p. Inr ()),
      ew_NewKeyedTransactor = (\<lambda>k i. Inr \<lparr>to_ChainID = i, to_GasPrice = None, to_GasLimit = 0, to_Value = None\<rparr>),
      ew_SuggestGasPrice = (\<lambda>w. (Inl (ErrLib ''connection refused''), w)),
      ew_Transact = (\<lambda>a t c w. (Inl (ErrLib ''connection refused''), w)),
      ew_TransactionReceipt = (\<lambda>h w. (Inl (ErrLib ''connection refused''), w)),
      ew_Sequence = (\<lambda>a w. (Inl (ErrLib ''connection refused''), w))\<rparr>"

definition test_chain :: "string \<Rightarrow> string \<Rightarrow> e2e_chain" where
  "test_chain name url =
     \<lparr>ch_Name = name, ch_NodeUrl = url, ch_BridgeContractAddress = [], ch_TokenServiceContractAddress = [],
      ch_USDCContractAddress = [], ch_WalletPath = [], ch_WalletAddress = [], ch_ChainID = [], ch_DestChains = []\<rparr>"

definition test_settings :: e2e_settings where
  "test_settings =
     \<lparr>es_Chains = [Some (test_chain ''ethereum'' ''eth''), Some (test_chain ''aleo'' ''aleo|testnet'')],
      es_CollectorServiceURI = ''collector'', es_WriteConfigPath = ''config''\<rparr>"

lemma dead_world_answers: "answering dead_world test_settings"
  unfolding answering_def
proof (intro conjI allI impI)
  show "\<exists>p. GetPacketInfo (ew_http dead_world w) (es_CollectorServiceURI test_settings) q src dest = Inr p" for w q src dest
    using one_packet_decodes by (auto simp: GetPacketInfo_def dead_world_def)
  show "\<exists>c. e2e_eth_NewClient dead_world v w = Inr c" for v w
    by (simp add: e2e_eth_NewClient_def loadWallet_def dead_world_def test_library_def)
  show "\<exists>c. e2e_aleo_NewClient v = Inr c" if "Some v \<in> set (es_Chains test_settings) \<and> ch_Name v = ''aleo''" for v
    using that by (auto simp: test_settings_def test_chain_def e2e_aleo_NewClient_def Let_def)
qed (simp_all add: dead_world_def test_settings_def)

theorem suite_hides_failures_witness:
  "fst (test_cycles dead_world test_settings 2 (False, ())) = Inr () \<and>
   fst (snd (test_cycles dead_world test_settings 2 (False, ())))"
proof -
  have "unreachable dead_world" by (simp add: unreachable_def dead_world_def)
  moreover have "tested (es_Chains test_settings)"
    unfolding tested_def by (rule exI [of _ "test_chain ''aleo'' ''aleo|testnet''"]) (simp add: test_settings_def test_chain_def)
  ultimately show ?thesis
    using suite_hides_failures [OF dead_world_answers, of 2 False "()"] by simp
qed

section \<open>Polling for a receipt\<close>

text \<open>The world after one attempt that failed: the attempt and the pause behind it.\<close>

definition after_failure :: "('w, 'k) e2e_world \<Rightarrow> bytes \<Rightarrow> 'w \<Rightarrow> 'w" where
  "after_failure W h w = ew_sleep W (second * 5) (snd (ew_TransactionReceipt W h w))"

text \<open>
  \<open>getTxReceipt\<close> asks at most ten times and answers with the first receipt it gets; ten failures are
  an error, and the last of them is followed by a pause as well.
\<close>

lemma receipt_rounds_first:
  "receipt_rounds W h n w =
     (case find (\<lambda>k. \<not> isl (fst (ew_TransactionReceipt W h ((after_failure W h ^^ k) w)))) [0..<n] of
        Some k \<Rightarrow> ew_TransactionReceipt W h ((after_failure W h ^^ k) w)
      | None \<Rightarrow> (Inl (ErrMsg (''could not fetch the tx receipt of 0x'' @ hex_encode h)), (after_failure W h ^^ n) w))"
proof (induction n arbitrary: w)
  case (Suc n)
  define P where "P v k = (\<not> isl (fst (ew_TransactionReceipt W h ((after_failure W h ^^ k) v))))" for v k
  have shift: "find (P v) (map Suc ks) = map_option Suc (find (P (after_failure W h v)) ks)" for v ks
    by (induction ks) (simp_all add: P_def funpow_swap1)
  have "[0..<Suc n] = 0 # map Suc [0..<n]" by (simp add: map_Suc_upt upt_conv_Cons)
  then show ?case
    using Suc.IH [of "after_failure W h w"] unfolding P_def [symmetric]
    by (auto simp: shift P_def [of _ 0] after_failure_def funpow_swap1 split: prod.split sum.split option.split)
qed simp

theorem getTxReceipt_first:
  "getTxReceipt W h w =
     (case find (\<lambda>k. \<not> isl (fst (ew_TransactionReceipt W h ((after_failure W h ^^ k) w)))) [0..<10] of
        Some k \<Rightarrow> ew_TransactionReceipt W h ((after_failure W h ^^ k) w)
      | None \<Rightarrow> (Inl (ErrMsg (''could not fetch the tx receipt of 0x'' @ hex_encode h)), (after_failure W h ^^ 10) w))"
  unfolding getTxReceipt_def by (rule receipt_rounds_first)


section \<open>Looking up a deployment\<close>

text \<open>
  The identifier of a deployment is the body without the quotes around it; the lookup panics exactly
  for an empty body and for a lone quote.
\<close>

theorem FindTransactionIDByProgramID_answers:
  assumes "http (url @ ''/find/transactionID/deployment/'' @ p) = Inr t"
  shows "(t = CHR 0x22 # s @ [CHR 0x22] \<longrightarrow> FindTransactionIDByProgramID url http p = Inr s) \<and>
    ((\<exists>e. FindTransactionIDByProgramID url http p = Inl e \<and> is_panic e) \<longleftrightarrow> t = [] \<or> t = [CHR 0x22])"
proof -
  define q where "q = CHR 0x22"
  have r: "FindTransactionIDByProgramID url http p =
      (if t = [] then Inl index_range
       else if hd t = q \<and> last t = q then (if length t < 2 then Inl slice_range else Inr (butlast (tl t)))
       else Inr t)"
    using assms by (simp add: FindTransactionIDByProgramID_def q_def)
  have "is_panic slice_range" by (simp add: slice_range_def)
  then show ?thesis
    unfolding q_def [symmetric] r by (cases t; cases "tl t") (auto simp: butlast_append)
qed

end
