(* ===== verification/EthLoops.thy ===== *)
theory EthLoops
  imports EthProps
begin

text \<open>
  When the loops of the Ethereum client over block ranges end. They advance an unsigned 64-bit
  counter by 101 blocks until it exceeds the last height, so they end as long as that height leaves
  room for one more step, whatever the node answers; at the greatest height they never do.
\<close>

lemma feed_ranges_done: "\<not> s \<le> h \<Longrightarrow> feed_ranges N an h s cl es = Some (cl, es, True)"
  by (subst feed_ranges.simps) simp

lemma gap_ranges_done: "\<not> s \<le> h \<Longrightarrow> gap_ranges N cl c a b h s es = Some es"
  by (subst gap_ranges.simps) simp

lemma feed_ranges_returns:
  assumes "unat h + 102 \<le> 2 ^ 64"
  shows "feed_ranges N an h s cl es \<noteq> None"
proof (induction "unat h - unat s" arbitrary: s cl es rule: less_induct)
  case less
  show ?case
  proof (cases "s \<le> h")
    case True
    have "feed_ranges N an h (s + (heightDifference + 1)) cl' es' \<noteq> None" for cl' es'
    proof (cases "s + (heightDifference + 1) \<le> h")
      case True2: True
      show ?thesis by (rule less [OF range_inner(6) [OF True assms True2]])
    qed (simp add: feed_ranges_done)
    then show ?thesis
      using True
      by (cases "filterPacketLogs N cl s (if h < s + heightDifference then h else s + heightDifference)")
        (simp_all only: feed_ranges.simps [of N an h s cl es] Let_def if_True sum.case not_False_eq_True option.distinct)
  qed (simp add: feed_ranges_done)
qed

lemma gap_ranges_returns:
  assumes "unat h + 102 \<le> 2 ^ 64"
  shows "gap_ranges N cl c a b h s es \<noteq> None"
proof (induction "unat h - unat s" arbitrary: s es rule: less_induct)
  case less
  show ?case
  proof (cases "s \<le> h")
    case True
    have "gap_ranges N cl c a b h (s + (heightDifference + 1)) es' \<noteq> None" for es'
    proof (cases "s + (heightDifference + 1) \<le> h")
      case True2: True
      show ?thesis by (rule less [OF range_inner(6) [OF True assms True2]])
    qed (simp add: gap_ranges_done)
    then show ?thesis
      using True
      by (cases "filterPacketLogs N cl s (if h < s + heightDifference then h else s + heightDifference)")
        (simp_all only: gap_ranges.simps [of N cl c a b h s es] Let_def if_True sum.case case_prod_beta
          option.distinct not_False_eq_True simp_thms split: if_split)
  qed (simp add: gap_ranges_done)
qed

text \<open>Unfolding once leads to another call, as the greatest height exceeds no counter.\<close>

lemma feed_ranges_endless:
  assumes answers: "\<And>cl a b. \<exists>ps. filterPacketLogs N cl a b = Inr ps"
    and "feed_ranges N an (- 1) s cl es = Some r"
  shows False
proof -
  have "M = N \<and> h = - 1 \<longrightarrow> False" if "feed_ranges M an h s cl es = Some r" for M an h s cl es r
  proof (rule feed_ranges.raw_induct [OF _ that], intro impI, elim conjE)
    fix f M an h s cl es r
    assume IH: "\<And>M an h s cl es r. f M an h s cl es = Some r \<Longrightarrow> M = N \<and> h = - 1 \<longrightarrow> False"
      and "M = N" "h = - 1"
      and body: "(if s \<le> h then
        (let e = s + heightDifference; endHeight = (if h < e then h else e)
         in case filterPacketLogs M cl s endHeight of
              Inl err \<Rightarrow> Some (cl, es, False)
            | Inr pkts \<Rightarrow> f M an h (s + (heightDifference + 1))
                (cl\<lparr>ec_nextBlockHeight := endHeight + 1\<rparr>) (es @ feed_packets an cl pkts))
        else Some (cl, es, True)) = Some r"
    obtain ps where "filterPacketLogs N cl s (if - 1 < s + heightDifference then - 1 else s + heightDifference) = Inr ps"
      using answers by blast
    moreover have le: "s \<le> - 1" by simp
    ultimately have "f N an (- 1) (s + (heightDifference + 1))
        (cl\<lparr>ec_nextBlockHeight := (if - 1 < s + heightDifference then - 1 else s + heightDifference) + 1\<rparr>)
        (es @ feed_packets an cl ps) = Some r"
      using body \<open>M = N\<close> \<open>h = - 1\<close> le by (simp only: Let_def sum.case if_True)
    then show False using IH by blast
  qed
  then show False using assms(2) by blast
qed



end
