(* ===== verification/EthBounds.thy ===== *)
theory EthBounds
  imports EthLoops
begin

text \<open>
  How much the Ethereum client asks of a node at once. Providers refuse queries over too many
  blocks; the client never asks for more than 101 of them, also where its counters wrap around, so a
  node with that limit answers it like one without.
\<close>

definition range_limited :: "int \<Rightarrow> 'l eth_node \<Rightarrow> 'l eth_node" where
  "range_limited k N = N\<lparr>en_FilterLogs := (\<lambda>q. if fq_ToBlock q - fq_FromBlock q \<le> k then en_FilterLogs N q
     else Inl (ErrLib ''query exceeds the block range''))\<rparr>"

lemma range_limited_keeps [simp]:
  "en_ParsePacketDispatched (range_limited k N) = en_ParsePacketDispatched N"
  "commonPacket (range_limited k N) = commonPacket N"
  by (simp_all add: fun_eq_iff commonPacket_def range_limited_def)

lemma filterPacketLogs_limited:
  assumes "sint t - sint f \<le> k"
  shows "filterPacketLogs (range_limited k N) cl f t = filterPacketLogs N cl f t"
proof -
  have "eth_FilterLogs (range_limited k N) f t a p = eth_FilterLogs N f t a p" for a p
    using assms by (simp add: eth_FilterLogs_def range_limited_def)
  then show ?thesis by (simp add: filterPacketLogs_def cong: sum.case_cong)
qed

text \<open>A sum read as a signed number exceeds the first summand by no more than the second.\<close>

lemma sint_add_le:
  assumes "j \<le> 100"
  shows "sint (s + of_nat j :: u64) \<le> sint s + int j"
proof -
  have j: "sint (of_nat j :: u64) = int j"
    using assms by (simp add: sint_uint unsigned_of_nat take_bit_nat_eq_self take_bit_int_eq_self signed_take_bit_int_eq_self)
  have "sint (s + of_nat j) = signed_take_bit 63 (sint s + int j)"
    by (simp add: sint_word_add j)
  moreover have "- (2 ^ 63) \<le> sint s" using sint_ge [of s] by simp
  then have "signed_take_bit 63 (sint s + int j) \<le> sint s + int j"
    by (simp only: signed_take_bit_int_less_eq_self_iff)
  ultimately show ?thesis by simp
qed

text \<open>The last block of a range that starts at or before the last height of the loop.\<close>

lemma range_width:
  assumes "s \<le> h"
  shows "sint (if h < s + heightDifference then h else s + heightDifference) - sint s \<le> 100"
proof (cases "h < s + heightDifference")
  case True
  let ?j = "unat (h - s)"
  have "uint h < uint (s + 100)" and "uint s \<le> uint h"
    using True assms by (simp_all add: heightDifference_def word_less_def word_le_def)
  then have "uint h - uint s \<le> 100"
    using uint_add_le [of s 100] by simp
  moreover have "uint (h - s) = uint h - uint s"
    using assms by (rule uint_minus_simple_alt [THEN iffD1, OF _])
  ultimately have "?j \<le> 100" by (simp add: unat_eq_nat_uint)
  then have "sint h \<le> sint s + int ?j" using sint_add_le [of ?j s] by simp
  then show ?thesis using True \<open>?j \<le> 100\<close> by (simp only: if_True)
next
  case False
  then show ?thesis using sint_add_le [of 100 s] by (simp add: heightDifference_def)
qed

text \<open>Two nodes that agree on ranges of this width drive the loops alike.\<close>

definition agree :: "'l eth_node \<Rightarrow> 'l eth_node \<Rightarrow> bool" where
  "agree M N \<longleftrightarrow> (\<forall>cl f t. sint t - sint f \<le> 100 \<longrightarrow> filterPacketLogs M cl f t = filterPacketLogs N cl f t)"

lemma agree_limited: "agree (range_limited 100 N) N" "agree N (range_limited 100 N)"
  by (simp_all add: agree_def filterPacketLogs_limited)

lemma agree_range:
  assumes "agree M N" "s \<le> h"
  shows "filterPacketLogs N cl s (if h < s + heightDifference then h else s + heightDifference) =
    filterPacketLogs M cl s (if h < s + heightDifference then h else s + heightDifference)"
  using assms(1) range_width [OF assms(2)] unfolding agree_def by metis

lemmas feed_ranges_induct = feed_ranges.raw_induct [rotated, consumes 1, case_names step]
lemmas gap_ranges_induct = gap_ranges.raw_induct [rotated, consumes 1, case_names step]

lemma feed_ranges_agree:
  "feed_ranges M an h s cl es = Some r \<Longrightarrow> agree M N \<Longrightarrow> feed_ranges N an h s cl es = Some r"
proof (induction arbitrary: N rule: feed_ranges_induct)
  case (step f M an h s cl es r)
  show ?case
  proof (cases "s \<le> h")
    case True
    note eq = agree_range [OF step(3) True]
    show ?thesis
    proof (cases "filterPacketLogs M cl s (if h < s + heightDifference then h else s + heightDifference)")
      case (Inl e)
      then show ?thesis
        using step(2) True by (simp only: feed_ranges.simps [of N an h s cl es] Let_def eq if_True sum.case)
    next
      case (Inr ps)
      then have "f M an h (s + (heightDifference + 1))
          (cl\<lparr>ec_nextBlockHeight := (if h < s + heightDifference then h else s + heightDifference) + 1\<rparr>)
          (es @ feed_packets an cl ps) = Some r"
        using step(2) True by (simp only: Let_def if_True sum.case)
      from step(1) [OF this step(3)] show ?thesis
        using True Inr by (simp only: feed_ranges.simps [of N an h s cl es] Let_def eq if_True sum.case)
    qed
  next
    case False
    then show ?thesis using step(2) by (simp add: feed_ranges_done)
  qed
qed

lemma gap_ranges_agree:
  "gap_ranges M cl c a b h s es = Some r \<Longrightarrow> agree M N \<Longrightarrow> gap_ranges N cl c a b h s es = Some r"
proof (induction arbitrary: N rule: gap_ranges_induct)
  case (step f M cl c a b h s es r)
  show ?case
  proof (cases "s \<le> h")
    case True
    note eq = agree_range [OF step(3) True]
    note unfold = gap_ranges.simps [of N cl c a b h s es] Let_def eq if_True sum.case
    show ?thesis
    proof (cases "filterPacketLogs M cl s (if h < s + heightDifference then h else s + heightDifference)")
      case (Inl e)
      then show ?thesis
        using step(2) True by (simp only: unfold)
    next
      case (Inr ps)
      obtain qs on where gap: "gap_packets c a b ps = (qs, on)" by fastforce
      show ?thesis
      proof (cases on)
        case True2: True
        then have "f M cl c a b h (s + (heightDifference + 1)) (es @ map EFeed qs) = Some r"
          using step(2) True Inr gap by (simp only: Let_def if_True sum.case prod.case)
        from step(1) [OF this step(3)] show ?thesis
          using True Inr gap True2 by (simp only: unfold prod.case)
      next
        case False
        then show ?thesis
          using step(2) True Inr gap by (simp only: unfold prod.case if_False)
      qed
    qed
  next
    case False
    then show ?thesis using step(2) by (simp add: gap_ranges_done)
  qed
qed

text \<open>What either loop yields for one node it yields for the other, so both also fail to end alike.\<close>

lemma option_eqI: "(\<And>r. x = Some r \<Longrightarrow> y = Some r) \<Longrightarrow> (\<And>r. y = Some r \<Longrightarrow> x = Some r) \<Longrightarrow> x = y"
  by (cases x; cases y) auto

lemma feed_ranges_limited [simp]:
  "feed_ranges (range_limited 100 N) an h s cl es = feed_ranges N an h s cl es"
  by (rule option_eqI; erule feed_ranges_agree; rule agree_limited)

lemma gap_ranges_limited [simp]:
  "gap_ranges (range_limited 100 N) cl c a b h s es = gap_ranges N cl c a b h s es"
  by (rule option_eqI; erule gap_ranges_agree; rule agree_limited)

lemma feed_tick_limited:
  "feed_tick an (map (map_prod id (range_limited 100)) readings) cl es =
    map_option (\<lambda>(cl', es', rest). (cl', es', map (map_prod id (range_limited 100)) rest))
      (feed_tick an readings cl es)"
  by (induction an readings cl es rule: feed_tick.induct)
    (auto simp: Let_def split: prod.split sum.split option.split)

lemma eth_pruneBaseSeqNum_limited:
  "eth_pruneBaseSeqNum B (range_limited 100 N) an now cl nsp index d = eth_pruneBaseSeqNum B N an now cl nsp index d"
proof -
  have "gap_ranges (range_limited 100 N) = gap_ranges N" by (simp add: fun_eq_iff)
  then show ?thesis unfolding eth_pruneBaseSeqNum_def by (rule ssubst) (rule refl)
qed

text \<open>
  C26. The client asks a node for at most 101 blocks at once. A node that refuses every longer query
  is answered and used exactly as one without the limit: by the feed, over all readings of the block
  number, by the pruning of the base numbers, and by the request of one missed packet. This holds
  for all heights, also where the 64-bit counters wrap around or a height becomes negative on its way
  to the node, and also for loops that do not end.
\<close>

theorem eth_requests_bounded:
  "feed_tick an (map (map_prod id (range_limited 100)) readings) cl es =
      map_option (\<lambda>(cl', es', rest). (cl', es', map (map_prod id (range_limited 100)) rest))
        (feed_tick an readings cl es) \<and>
    eth_pruneBaseSeqNum B (range_limited 100 N) an now cl nsp index d = eth_pruneBaseSeqNum B N an now cl nsp index d \<and>
    eth_GetMissedPacket (range_limited 100 N) cl missedPkt = eth_GetMissedPacket N cl missedPkt"
  by (simp add: feed_tick_limited eth_pruneBaseSeqNum_limited eth_GetMissedPacket_def filterPacketLogs_limited)

end
