(* ===== verification/GapRepair.thy ===== *)
theory GapRepair
  imports ClientProps ProxyProps
begin

text \<open>
  What the pruning rounds of a client achieve in the long run. Each round removes the delivered run
  at the bottom of a base-sequence bucket and refetches the first gap above it; when the relay
  delivers what is refetched, repeated rounds close every gap.
\<close>

section \<open>Rounds that close gaps\<close>

text \<open>
  The contract of a round on the delivered numbers \<open>D\<close>: they are cut below some delivered \<open>b\<close>; either
  that was progress or nothing is left above \<open>b\<close>, or the numbers up to the next delivered one join.
\<close>

locale gap_repair =
  fixes round :: "'d \<Rightarrow> 'd" and D :: "'d \<Rightarrow> u64 set" and ok :: "'d \<Rightarrow> bool"
  assumes ok_round: "ok d \<Longrightarrow> ok (round d)"
    and some_number: "ok d \<Longrightarrow> D d \<noteq> {}"
    and round_law: "ok d \<Longrightarrow> \<exists>b \<in> D d.
      D (round d) = {s \<in> D d. b \<le> s} \<and> ({s \<in> D d. b < s} = {} \<or> Min (D d) < b) \<or>
      (\<exists>e \<in> D d. b + 1 < e \<and> b < b + 1 \<and> (\<forall>s \<in> D d. \<not> (b < s \<and> s < e)) \<and>
         D (round d) = {s \<in> D d. b \<le> s} \<union> {s. b \<le> s \<and> s < e})"

text \<open>How far a set of delivered numbers is from a single one, and the numbers missing in it.\<close>

definition missing :: "u64 set \<Rightarrow> u64 set" where
  "missing A = {s. Min A \<le> s \<and> s \<le> Max A \<and> s \<notin> A}"

definition span :: "u64 set \<Rightarrow> nat" where
  "span A = (unat (Max A) - unat (Min A)) + card (missing A)"

context gap_repair
begin

lemma cut_props:
  fixes A B :: "u64 set"
  assumes "b \<in> A" and "{s \<in> A. b \<le> s} \<subseteq> B" and "\<forall>s \<in> B. b \<le> s \<and> s \<le> Max A"
  shows "Max B = Max A" and "Min B = b"
proof -
  have "Max A \<in> A" and "b \<le> Max A" using assms(1) by (auto intro: Max_in)
  then have "Max A \<in> B" using assms(2) by auto
  then show "Max B = Max A" using assms(3) by (intro Max_eqI) auto
  have "b \<in> B" using assms(1,2) by auto
  then show "Min B = b" using assms(3) by (intro Min_eqI) auto
qed

lemma round_progress:
  assumes "ok d" and "D d \<noteq> {Max (D d)}"
  shows "Max (D (round d)) = Max (D d) \<and> span (D (round d)) < span (D d)"
proof -
  let ?A = "D d"
  note ne = some_number [OF assms(1)]
  have M: "Max ?A \<in> ?A" "Min ?A \<in> ?A" using ne by (auto intro: Max_in Min_in)
  have "Min ?A \<noteq> Max ?A"
  proof
    assume eq: "Min ?A = Max ?A"
    have "s = Max ?A" if "s \<in> ?A" for s
      using Min_le [OF _ that] Max_ge [OF _ that] eq by (intro order.antisym) auto
    then show False using assms(2) M(1) by blast
  qed
  then have "Min ?A < Max ?A" using M by (simp add: order.strict_iff_order)
  then have lt: "unat (Min ?A) < unat (Max ?A)" by (simp add: word_less_nat_alt)
  obtain b where b: "b \<in> ?A" and cases: "D (round d) = {s \<in> ?A. b \<le> s} \<and> ({s \<in> ?A. b < s} = {} \<or> Min ?A < b) \<or>
      (\<exists>e \<in> ?A. b + 1 < e \<and> b < b + 1 \<and> (\<forall>s \<in> ?A. \<not> (b < s \<and> s < e)) \<and>
         D (round d) = {s \<in> ?A. b \<le> s} \<union> {s. b \<le> s \<and> s < e})"
    by (rule bexE [OF round_law [OF assms(1)]])
  have bm: "Min ?A \<le> b" "b \<le> Max ?A" using b by auto
  from cases show ?thesis
  proof
    assume cut: "D (round d) = {s \<in> ?A. b \<le> s} \<and> ({s \<in> ?A. b < s} = {} \<or> Min ?A < b)"
    then have R: "D (round d) = {s \<in> ?A. b \<le> s}" by blast
    have new: "Max (D (round d)) = Max ?A" "Min (D (round d)) = b"
      by (rule cut_props [OF b], simp_all add: R)+
    have "Min ?A < b"
    proof (rule ccontr)
      assume "\<not> Min ?A < b"
      then have eq: "b = Min ?A" using bm by simp
      then have "{s \<in> ?A. b < s} = {}" using cut by simp
      then show False using M(1) \<open>Min ?A < Max ?A\<close> eq by blast
    qed
    then have "unat (Min ?A) < unat b" "unat b \<le> unat (Max ?A)" using bm by (simp_all add: word_less_nat_alt word_le_nat_alt)
    moreover have "missing (D (round d)) \<subseteq> missing ?A" unfolding missing_def new unfolding R using bm by auto
    then have "card (missing (D (round d))) \<le> card (missing ?A)" by (intro card_mono) simp_all
    ultimately show ?thesis unfolding span_def new by simp
  next
    assume "\<exists>e \<in> ?A. b + 1 < e \<and> b < b + 1 \<and> (\<forall>s \<in> ?A. \<not> (b < s \<and> s < e)) \<and>
         D (round d) = {s \<in> ?A. b \<le> s} \<union> {s. b \<le> s \<and> s < e}"
    then obtain e where e: "e \<in> ?A" "b + 1 < e" "b < b + 1" "\<forall>s \<in> ?A. \<not> (b < s \<and> s < e)"
      and R: "D (round d) = {s \<in> ?A. b \<le> s} \<union> {s. b \<le> s \<and> s < e}" by blast
    have "e \<le> Max ?A" using e(1) by simp
    then have "s \<le> Max ?A" if "s < e" for s using that by simp
    moreover have "s \<le> Max ?A" if "s \<in> ?A" for s using that by simp
    ultimately have "\<forall>s \<in> D (round d). b \<le> s \<and> s \<le> Max ?A" unfolding R by blast
    moreover have "{s \<in> ?A. b \<le> s} \<subseteq> D (round d)" unfolding R by simp
    ultimately have new: "Max (D (round d)) = Max ?A" "Min (D (round d)) = b"
      using cut_props [OF b] by blast+
    have "Min ?A \<le> b + 1" "b + 1 \<le> Max ?A" using e(2,3) bm(1) \<open>e \<le> Max ?A\<close> by simp_all
    then have "b + 1 \<in> missing ?A" unfolding missing_def using e(2-4) by blast
    moreover have "b + 1 \<notin> missing (D (round d))" unfolding missing_def unfolding R using e(2,3) by (simp add: less_imp_le)
    moreover have "missing (D (round d)) \<subseteq> missing ?A" unfolding missing_def new unfolding R using bm by auto
    ultimately have "card (missing (D (round d))) < card (missing ?A)" by (intro psubset_card_mono) auto
    moreover have "unat (Min ?A) \<le> unat b" using bm by (simp add: word_le_nat_alt)
    ultimately show ?thesis unfolding span_def new by simp
  qed
qed

lemma repair_completes: "ok d \<Longrightarrow> \<exists>k \<le> span (D d). ok ((round ^^ k) d) \<and> D ((round ^^ k) d) = {Max (D d)}"
proof (induction "span (D d)" arbitrary: d rule: less_induct)
  case less
  show ?case
  proof (cases "D d = {Max (D d)}")
    case True
    then show ?thesis using less.prems by (intro exI [of _ 0]) simp
  next
    case False
    note p = round_progress [OF less.prems False]
    from less.hyps [OF _ ok_round [OF less.prems]] p obtain k where
      "k \<le> span (D (round d))" "ok ((round ^^ k) (round d)) \<and> D ((round ^^ k) (round d)) = {Max (D d)}" by auto
    then show ?thesis using p by (intro exI [of _ "Suc k"]) (simp add: funpow_swap1)
  qed
qed

end


section \<open>What one run of pruning leaves\<close>

lemma window_below: "s \<in> dom (base_map m) \<Longrightarrow> t \<in> dom (prune_window m) \<Longrightarrow> s < t \<Longrightarrow> s \<in> dom (prune_window m)"
proof -
  assume s: "s \<in> dom (base_map m)" and t: "t \<in> dom (prune_window m)" and "s < t"
  have "card {u \<in> dom (base_map m). u < t} < 1000" using t by (auto simp: prune_window_def restrict_map_def split: if_splits)
  moreover have "card {u \<in> dom (base_map m). u < s} \<le> card {u \<in> dom (base_map m). u < t}"
    using \<open>s < t\<close> by (intro card_mono) auto
  ultimately show ?thesis using s by (auto simp: prune_window_def restrict_map_def)
qed

lemma prune_cases:
  assumes "bbolt_reliable B view" and "view d ns = Some m" and "base_ok m" and "dom (base_map m) \<noteq> {}"
  obtains b d' r where "PruneBaseSeqNum B ns d = (Inr r, d')" and "view d' = (view d)(ns \<mapsto> m |` {k. be64 b \<le> k})"
    and "b \<in> dom (base_map m)"
    and "\<not> snd r \<and> ({s \<in> dom (base_map m). b < s} = {} \<or> Min (dom (base_map m)) < b) \<or>
      snd r \<and> (\<exists>e \<in> dom (base_map m). fst (fst r) = (b, e) \<and> b + 1 < e \<and> b < b + 1 \<and>
        (\<forall>s \<in> dom (base_map m). \<not> (b < s \<and> s < e)))"
proof -
  let ?A = "dom (base_map m)" and ?W = "dom (prune_window m)"
  have "dom m \<noteq> {}" using assms(3,4) dom_base_map by fastforce
  from bbolt_reliable.prune_effect [OF assms(1-3) this] obtain b d' where b: "is_base ?W b"
    and run: "PruneBaseSeqNum B ns d = (Inr (case gap_after (prune_window m) b of
        None \<Rightarrow> (((0, 0), (0, 0)), False) | Some a \<Rightarrow> (a, True)), d')"
      "view d' = (view d)(ns \<mapsto> m |` {k. be64 b \<le> k})"
    by blast
  have bW: "b \<in> ?W" and bA: "b \<in> ?A" using b dom_prune_window by (auto simp: is_base_def)
  show thesis
  proof (cases "{s \<in> ?W. b < s} = {}")
    case True
    have "{s \<in> ?A. b < s} = {} \<or> Min ?A < b"
    proof (rule ccontr)
      assume no: "\<not> ({s \<in> ?A. b < s} = {} \<or> Min ?A < b)"
      define s where "s = Min {s \<in> ?A. b < s}"
      have s: "s \<in> {s \<in> ?A. b < s}" unfolding s_def using no by (intro Min_in) auto
      have "u = b" if "u \<in> ?A" and us: "u < s" for u
      proof -
        have "s \<le> u" if "b < u" unfolding s_def using that \<open>u \<in> ?A\<close> by (intro Min_le) simp_all
        then have "\<not> b < u" using us by (auto simp: not_less [symmetric])
        moreover have "Min ?A \<le> u" using \<open>u \<in> ?A\<close> by (intro Min_le) simp_all
        then have "b \<le> u" using no by (meson not_less order.trans)
        ultimately show ?thesis by simp
      qed
      then have "card {u \<in> ?A. u < s} \<le> card {b}" by (intro card_mono) auto
      then have "s \<in> ?W" using s by (auto simp: prune_window_def restrict_map_def)
      then show False using True s by blast
    qed
    moreover have "gap_after (prune_window m) b = None" unfolding gap_after_def Let_def by (rule if_P [OF True])
    ultimately show thesis using that [OF run(1) run(2) bA] by simp
  next
    case False
    define e where "e = Min {s \<in> ?W. b < s}"
    have e: "e \<in> ?W" "b < e" using False Min_in [of "{s \<in> ?W. b < s}"] by (auto simp: e_def)
    have between: "\<not> (b < s \<and> s < e)" if "s \<in> ?A" for s
    proof
      assume "b < s \<and> s < e"
      then have "s \<in> {s \<in> ?W. b < s}" using window_below [OF that e(1)] by simp
      then have "e \<le> s" unfolding e_def by (intro Min_le) auto
      then show False using \<open>b < s \<and> s < e\<close> by (blast dest: leD)
    qed
    have 1: "b + 1 < e" using b e by (simp add: is_base_def)
    have 2: "b < b + 1" using u64_Suc_no_wrap [OF e(2)] by (simp add: word_less_nat_alt)
    obtain h where g: "gap_after (prune_window m) b = Some ((b, e), h)"
      unfolding gap_after_def Let_def e_def [symmetric] using False by simp
    have eA: "e \<in> ?A" using e(1) dom_prune_window by blast
    show thesis
    proof (rule that [of "(((b, e), h), True)" d' b])
      show "PruneBaseSeqNum B ns d = (Inr (((b, e), h), True), d')" using run(1) by (simp add: g)
      show "\<not> snd (((b, e), h), True) \<and> ({s \<in> ?A. b < s} = {} \<or> Min ?A < b) \<or>
        snd (((b, e), h), True) \<and> (\<exists>f \<in> ?A. fst (fst (((b, e), h), True)) = (b, f) \<and> b + 1 < f \<and> b < b + 1 \<and>
          (\<forall>s \<in> ?A. \<not> (b < s \<and> s < f)))"
        by (intro disjI2 conjI bexI [of _ e] ballI eA 1 2 between) simp_all
    qed (rule run(2) bA)+
  qed
qed


section \<open>The rounds of the Aleo client\<close>

context outcome_recorder
begin

lemma completed_list:
  assumes "view d (base_ns @ c) = Some m" and "base_ok m" and "\<forall>p \<in> set ps. dest_of p = c"
  shows "\<exists>m'. view (fold (\<lambda>p. manage (Completed p)) ps d) (base_ns @ c) = Some m' \<and> base_ok m' \<and>
    dom (base_map m') = dom (base_map m) \<union> p_sequence ` set ps"
  using assms
proof (induction ps arbitrary: d m)
  case (Cons p ps)
  have c: "dest_of p = c" using Cons.prems(3) by simp
  obtain m' where m': "view (manage (Completed p) d) (base_ns @ c) = Some m'" "base_ok m'"
    "base_map m' = (base_map m)(p_sequence p \<mapsto> height_of p)"
    using completed [of d p m] Cons.prems(1,2) unfolding c by auto
  then show ?case using Cons.IH [OF m'(1,2)] Cons.prems(3) by auto
qed simp

end

text \<open>
  A round: the client prunes the namespace, and the relay delivers every packet that it feeds, whose
  outcome the client records.
\<close>

definition aleo_repair_round ::
    "'d bolt \<Rightarrow> eth_common \<Rightarrow> http_get \<Rightarrow> string \<Rightarrow> int \<Rightarrow> aleo_client \<Rightarrow> namespaces \<Rightarrow> nat \<Rightarrow> 'd \<Rightarrow> 'd" where
  "aleo_repair_round B E http an now cl nsp i d =
     (case aleo_pruneBaseSeqNum B E http an now cl nsp i d of
        (Inl e, d') \<Rightarrow> d'
      | (Inr (i', es), d') \<Rightarrow> fold (\<lambda>p d. fst (aleo_managePacket B an (Completed p) d)) (fed es) d')"

definition repair_ok :: "('d \<Rightarrow> string \<Rightarrow> (bytes \<rightharpoonup> bytes) option) \<Rightarrow> string \<Rightarrow> u64 \<Rightarrow> u64 \<Rightarrow> 'd \<Rightarrow> bool" where
  "repair_ok view ns lo hi d \<longleftrightarrow>
     (\<exists>m. view d ns = Some m \<and> base_ok m \<and> dom (base_map m) \<noteq> {} \<and> dom (base_map m) \<subseteq> {lo..hi})"

lemma replace_first_prefix: "w \<noteq> [] \<Longrightarrow> replace_first w [] (w @ s) = s"
  by (cases w) simp_all

text \<open>The ledger holds the packets of the numbers \<open>lo\<close> to \<open>hi\<close> to a destination.\<close>

definition ledger_holds ::
    "eth_common \<Rightarrow> aleo_client \<Rightarrow> http_get \<Rightarrow> string \<Rightarrow> u64 \<Rightarrow> u64 \<Rightarrow> (u64 \<Rightarrow> packet) \<Rightarrow> bool" where
  "ledger_holds E cl http c lo hi P \<longleftrightarrow> (\<forall>n. lo \<le> n \<and> n \<le> hi \<longrightarrow>
     getPktWithSeq E cl http c n = Inr (P n) \<and> p_sequence (P n) = n \<and> dest_of (P n) = c)"

lemma aleo_round:
  assumes B: "bbolt_reliable B view" and i: "i < length (nsp_base nsp)" "nsp_base nsp ! i = aleo_baseSeqNumNameSpacePrefix @ c"
    and P: "ledger_holds E cl http c lo hi P"
    and v: "view d (aleo_baseSeqNumNameSpacePrefix @ c) = Some m" and ok: "base_ok m"
    and A: "dom (base_map m) \<noteq> {}" "dom (base_map m) \<subseteq> {lo..hi}"
  shows "\<exists>m' b. view (aleo_repair_round B E http an now cl nsp i d) (aleo_baseSeqNumNameSpacePrefix @ c) = Some m' \<and>
    base_ok m' \<and> b \<in> dom (base_map m) \<and>
    (dom (base_map m') = {s \<in> dom (base_map m). b \<le> s} \<and>
       ({s \<in> dom (base_map m). b < s} = {} \<or> Min (dom (base_map m)) < b) \<or>
     (\<exists>e \<in> dom (base_map m). b + 1 < e \<and> b < b + 1 \<and> (\<forall>s \<in> dom (base_map m). \<not> (b < s \<and> s < e)) \<and>
       dom (base_map m') = {s \<in> dom (base_map m). b \<le> s} \<union> {s. b \<le> s \<and> s < e}))"
proof -
  let ?ns = "aleo_baseSeqNumNameSpacePrefix @ c"
  obtain b d' r where run: "PruneBaseSeqNum B ?ns d = (Inr r, d')" "view d' = (view d)(?ns \<mapsto> m |` {k. be64 b \<le> k})"
    and b: "b \<in> dom (base_map m)"
    and cases: "\<not> snd r \<and> ({s \<in> dom (base_map m). b < s} = {} \<or> Min (dom (base_map m)) < b) \<or>
      snd r \<and> (\<exists>e \<in> dom (base_map m). fst (fst r) = (b, e) \<and> b + 1 < e \<and> b < b + 1 \<and>
        (\<forall>s \<in> dom (base_map m). \<not> (b < s \<and> s < e)))"
    by (rule prune_cases [OF B v ok A(1)])
  define m1 where "m1 = m |` {k. be64 b \<le> k}"
  have v1: "view d' ?ns = Some m1" "base_ok m1" using run(2) base_ok_restrict [OF ok] by (simp_all add: m1_def)
  have D1: "dom (base_map m1) = {s \<in> dom (base_map m). b \<le> s}"
    unfolding m1_def base_map_restrict by (auto simp: restrict_map_def split: if_splits)
  have name: "replace_first aleo_baseSeqNumNameSpacePrefix [] ?ns = c"
    by (rule replace_first_prefix) (simp add: aleo_baseSeqNumNameSpacePrefix_def)
  have idx: "wrap_index i (nsp_base nsp) = i" using i(1) by (simp add: wrap_index_def)
  from cases show ?thesis
  proof
    assume no: "\<not> snd r \<and> ({s \<in> dom (base_map m). b < s} = {} \<or> Min (dom (base_map m)) < b)"
    have "aleo_repair_round B E http an now cl nsp i d = d'"
      using no i run(1) unfolding aleo_repair_round_def aleo_pruneBaseSeqNum_def idx Let_def
      by (cases r) simp
    then show ?thesis using v1 D1 no b by (intro exI [of _ m1] exI [of _ b]) blast
  next
    assume "snd r \<and> (\<exists>e \<in> dom (base_map m). fst (fst r) = (b, e) \<and> b + 1 < e \<and> b < b + 1 \<and>
        (\<forall>s \<in> dom (base_map m). \<not> (b < s \<and> s < e)))"
    then obtain e where e0: "e \<in> dom (base_map m)" "snd r" "fst (fst r) = (b, e)" "b + 1 < e" "b < b + 1"
      "\<forall>s \<in> dom (base_map m). \<not> (b < s \<and> s < e)" by blast
    define h where "h = snd (fst r)"
    have r: "r = (((b, e), h), True)" using e0(2,3) by (simp add: h_def prod_eq_iff)
    note e = e0(1) r e0(4-6)
    have "lo \<le> b" "e \<le> hi" using b e(1) A(2) by auto
    then have "lo \<le> n \<and> n \<le> hi" if "n \<in> set (gap_seqs b e)" for n
      using that by (simp add: gap_seqs_set) (meson order.trans less_imp_le)
    then have all: "\<forall>n \<in> set (gap_seqs b e). getPktWithSeq E cl http c n = Inr (P n) \<and> p_sequence (P n) = n \<and> dest_of (P n) = c"
      using P unfolding ledger_holds_def by blast
    then have "aleo_repair_round B E http an now cl nsp i d =
        fold (\<lambda>p d. fst (aleo_managePacket B an (Completed p) d)) (map P (gap_seqs b e)) d'"
      using i run(1) gap_feed_all [of "gap_seqs b e" E cl http c P]
      unfolding aleo_repair_round_def aleo_pruneBaseSeqNum_def idx Let_def by (simp add: e(2) name)
    moreover have ps: "\<forall>p \<in> set (map P (gap_seqs b e)). dest_of p = c" using all by simp
    have "p_sequence ` P ` set (gap_seqs b e) = set (gap_seqs b e)"
      unfolding image_image using all by (simp cong: image_cong)
    then have "p_sequence ` set (map P (gap_seqs b e)) = {s. b \<le> s \<and> s < e}" by (simp add: gap_seqs_set)
    moreover obtain m' where "view (fold (\<lambda>p d. fst (aleo_managePacket B an (Completed p) d)) (map P (gap_seqs b e)) d') ?ns = Some m'"
      "base_ok m'" "dom (base_map m') = dom (base_map m1) \<union> p_sequence ` set (map P (gap_seqs b e))"
      using outcome_recorder.completed_list [OF aleo_recorder [OF B, of an] v1 ps] by blast
    ultimately have "view (aleo_repair_round B E http an now cl nsp i d) ?ns = Some m'" "base_ok m'"
      "dom (base_map m') = {s \<in> dom (base_map m). b \<le> s} \<union> {s. b \<le> s \<and> s < e}"
      by (simp_all only: D1)
    then show ?thesis using b e by (intro exI [of _ m'] exI [of _ b]) blast
  qed
qed


lemma aleo_gap_repair:
  assumes "bbolt_reliable B view" and "i < length (nsp_base nsp)"
    and "nsp_base nsp ! i = aleo_baseSeqNumNameSpacePrefix @ c" and "ledger_holds E cl http c lo hi P"
  shows "gap_repair (aleo_repair_round B E http an now cl nsp i)
    (delivered view (aleo_baseSeqNumNameSpacePrefix @ c)) (repair_ok view (aleo_baseSeqNumNameSpacePrefix @ c) lo hi)"
proof
  let ?ns = "aleo_baseSeqNumNameSpacePrefix @ c"
  fix d
  assume "repair_ok view ?ns lo hi d"
  then obtain m where m: "view d ?ns = Some m" "base_ok m" "dom (base_map m) \<noteq> {}" "dom (base_map m) \<subseteq> {lo..hi}"
    by (auto simp: repair_ok_def)
  then have D: "delivered view ?ns d = dom (base_map m)" by (simp add: delivered_def)
  show "delivered view ?ns d \<noteq> {}" using m(3) by (simp only: D) simp
  obtain m' b where m': "view (aleo_repair_round B E http an now cl nsp i d) ?ns = Some m'" "base_ok m'"
    and b: "b \<in> dom (base_map m)" and cases: "dom (base_map m') = {s \<in> dom (base_map m). b \<le> s} \<and>
       ({s \<in> dom (base_map m). b < s} = {} \<or> Min (dom (base_map m)) < b) \<or>
     (\<exists>e \<in> dom (base_map m). b + 1 < e \<and> b < b + 1 \<and> (\<forall>s \<in> dom (base_map m). \<not> (b < s \<and> s < e)) \<and>
       dom (base_map m') = {s \<in> dom (base_map m). b \<le> s} \<union> {s. b \<le> s \<and> s < e})"
    using aleo_round [OF assms m, of an now] by blast
  have D': "delivered view ?ns (aleo_repair_round B E http an now cl nsp i d) = dom (base_map m')"
    by (simp add: delivered_def m'(1))
  show "\<exists>b \<in> delivered view ?ns d.
      delivered view ?ns (aleo_repair_round B E http an now cl nsp i d) = {s \<in> delivered view ?ns d. b \<le> s} \<and>
        ({s \<in> delivered view ?ns d. b < s} = {} \<or> Min (delivered view ?ns d) < b) \<or>
      (\<exists>e \<in> delivered view ?ns d. b + 1 < e \<and> b < b + 1 \<and> (\<forall>s \<in> delivered view ?ns d. \<not> (b < s \<and> s < e)) \<and>
        delivered view ?ns (aleo_repair_round B E http an now cl nsp i d) =
          {s \<in> delivered view ?ns d. b \<le> s} \<union> {s. b \<le> s \<and> s < e})"
    unfolding D D' using cases by (intro bexI [of _ b] b)
  have "b \<in> dom (base_map m')" "dom (base_map m') \<subseteq> {lo..hi}"
  proof -
    show "b \<in> dom (base_map m')" using cases b by (elim disjE conjE bexE) (simp_all only: Un_iff mem_Collect_eq order.refl simp_thms)
    have up: "s \<in> {lo..hi}" if "b \<le> s" "s < e" "e \<in> dom (base_map m)" for s e
      using that b m(4) by (meson atLeastAtMost_iff less_imp_le order.trans subsetD)
    have "dom (base_map m') = {s \<in> dom (base_map m). b \<le> s} \<or>
        (\<exists>e \<in> dom (base_map m). dom (base_map m') = {s \<in> dom (base_map m). b \<le> s} \<union> {s. b \<le> s \<and> s < e})"
      using cases by blast
    then show "dom (base_map m') \<subseteq> {lo..hi}"
    proof (elim disjE bexE)
      assume "dom (base_map m') = {s \<in> dom (base_map m). b \<le> s}"
      then show ?thesis using m(4) by blast
    next
      fix e
      assume "e \<in> dom (base_map m)" "dom (base_map m') = {s \<in> dom (base_map m). b \<le> s} \<union> {s. b \<le> s \<and> s < e}"
      then show ?thesis using m(4) up by blast
    qed
  qed
  then show "repair_ok view ?ns lo hi (aleo_repair_round B E http an now cl nsp i d)"
    unfolding repair_ok_def using m' by blast
qed

text \<open>
  C24. Repeated pruning closes every gap. On a reliable database, while the ledger holds the packets
  between the delivered numbers and the relay delivers what the client feeds, some number of rounds
  of the Aleo client leaves only the greatest delivered number in the namespace: all below it have
  been delivered and pruned. The number of rounds is bounded by the span of the numbers and the
  missing ones among them.
\<close>

theorem aleo_gaps_close:
  assumes "bbolt_reliable B view" and "i < length (nsp_base nsp)"
    and "nsp_base nsp ! i = aleo_baseSeqNumNameSpacePrefix @ c" and "ledger_holds E cl http c lo hi P"
    and "repair_ok view (aleo_baseSeqNumNameSpacePrefix @ c) lo hi d"
  shows "\<exists>k \<le> span (delivered view (aleo_baseSeqNumNameSpacePrefix @ c) d).
    delivered view (aleo_baseSeqNumNameSpacePrefix @ c) ((aleo_repair_round B E http an now cl nsp i ^^ k) d) =
      {Max (delivered view (aleo_baseSeqNumNameSpacePrefix @ c) d)}"
  using gap_repair.repair_completes [OF aleo_gap_repair [OF assms(1-4)] assms(5), of an now] by blast

text \<open>The client against the benchmark server, whose ledger holds every number below \<open>2 ^ 63\<close>.\<close>

definition bench_dest :: string where "bench_dest = bigint_str (Some 28556963657430695)"

lemma bench_ledger: "ledger_holds E bench_aleo (bench_http ''http://h'') bench_dest 1 1000 (bench_packet E)"
proof -
  have "getPktWithSeq E bench_aleo (bench_http ''http://h'') bench_dest n = Inr (bench_packet E n)" if "n \<le> 1000" for n
  proof (rule bench_packet_fetched [OF bench_aleo_client])
    show "list_all is_digit bench_dest" by (simp add: bench_dest_def bigint_str_def itoa_int_def itoa_all_digits)
    have "uint n \<le> uint (1000 :: u64)" using that by (simp only: word_le_def)
    then show "uint n < 2 ^ 63" by simp
  qed
  moreover have "dest_of (bench_packet E n) = bench_dest" "p_sequence (bench_packet E n) = n" for n
    by (simp_all add: dest_of_def bench_packet_def Let_def bench_dest_def)
  ultimately show ?thesis by (simp add: ledger_holds_def)
qed

definition bench_namespaces :: namespaces where
  "bench_namespaces = \<lparr>nsp_base = [aleo_baseSeqNumNameSpacePrefix @ bench_dest], nsp_retry = []\<rparr>"

interpretation bench_repair: gap_repair
  "aleo_repair_round mem_bolt E (bench_http ''http://h'') an now bench_aleo bench_namespaces 0"
  "delivered mem_view (aleo_baseSeqNumNameSpacePrefix @ bench_dest)"
  "repair_ok mem_view (aleo_baseSeqNumNameSpacePrefix @ bench_dest) 1 1000" for E an now
  by (rule aleo_gap_repair [OF mem.bbolt_reliable_axioms _ _ bench_ledger]) (simp_all add: bench_namespaces_def)

definition gap_db :: memdb where
  "gap_db = [(aleo_baseSeqNumNameSpacePrefix @ bench_dest, [(be64 2, []), (be64 3, []), (be64 7, []), (be64 9, [])])]"

lemma gap_db_delivered: "delivered mem_view (aleo_baseSeqNumNameSpacePrefix @ bench_dest) gap_db = {2, 3, 7, 9}"
  "repair_ok mem_view (aleo_baseSeqNumNameSpacePrefix @ bench_dest) 1 1000 gap_db"
proof -
  define m where "m = [be64 2 \<mapsto> [], be64 3 \<mapsto> [], be64 7 \<mapsto> [], be64 9 \<mapsto> ([] :: bytes)]"
  have v: "mem_view gap_db (aleo_baseSeqNumNameSpacePrefix @ bench_dest) = Some m"
    by (simp add: mem_view_def gap_db_def m_def fun_upd_twist)
  have "base_map Map.empty = Map.empty" by (simp add: fun_eq_iff base_map_def)
  then have "base_map m = [2 \<mapsto> 0, 3 \<mapsto> 0, 7 \<mapsto> 0, 9 \<mapsto> 0]"
    unfolding m_def base_map_upd by simp
  then have d: "dom (base_map m) = {2, 3, 7, 9}" by auto
  have "base_map m \<noteq> Map.empty" using d by auto
  moreover have "base_ok m" by (simp add: m_def base_ok_def)
  ultimately show "delivered mem_view (aleo_baseSeqNumNameSpacePrefix @ bench_dest) gap_db = {2, 3, 7, 9}"
    "repair_ok mem_view (aleo_baseSeqNumNameSpacePrefix @ bench_dest) 1 1000 gap_db"
    using v d by (simp_all add: delivered_def repair_ok_def)
qed

theorem aleo_gaps_close_witness:
  "\<exists>k. delivered mem_view (aleo_baseSeqNumNameSpacePrefix @ bench_dest)
     ((aleo_repair_round mem_bolt sample_eth (bench_http ''http://h'') ''a'' 0 bench_aleo bench_namespaces 0 ^^ k) gap_db) = {9}"
proof -
  have "Max {2, 3, 7, 9 :: u64} = 9" by simp
  then show ?thesis
    using aleo_gaps_close [OF mem.bbolt_reliable_axioms _ _ bench_ledger gap_db_delivered(2), of 0 bench_namespaces sample_eth "''a''" 0]
    by (auto simp: bench_namespaces_def gap_db_delivered(1))
qed

end
