(* ===== verification/Supervisor.thy ===== *)
theory Supervisor
  imports Relay "HOL-Library.Multiset"
begin

text \<open>
  The life of the feeding goroutines: the second loop of \<open>initPacketFeeder\<close> in
  \<open>chainService/relay/relays.go\<close>, which starts \<open>FeedPacket\<close> for every client it takes off a buffered
  channel and puts a client back whose \<open>FeedPacket\<close> panicked, and the goroutines that the two
  \<open>FeedPacket\<close> start. A step relation on the pool of goroutines; what they do to packets is in
  the theories of the clients.
\<close>

section \<open>The goroutines of a client\<close>

datatype routine = ManagePacket | PruneBaseSeq | RetryFeed | FeedDest string

definition aleo_FeedPacket_spawns :: "aleo_client \<Rightarrow> routine list" where
  "aleo_FeedPacket_spawns cl =
     [ManagePacket, PruneBaseSeq, RetryFeed] @ map (\<lambda>(chainID, nextSeqNum). FeedDest chainID) (ac_destChainsIDMap cl)"

text \<open>The feed of an Ethereum client runs in the frame of \<open>FeedPacket\<close> itself.\<close>

definition eth_FeedPacket_spawns :: "eth_client \<Rightarrow> routine list" where
  "eth_FeedPacket_spawns cl = [ManagePacket, PruneBaseSeq, RetryFeed]"

fun client_spawns :: "chain_client \<Rightarrow> routine list" where
  "client_spawns (AleoChain c) = aleo_FeedPacket_spawns c"
| "client_spawns (EthereumChain c) = eth_FeedPacket_spawns c"

text \<open>
  Whether a goroutine returns when its context is cancelled. The \<open>select\<close> of \<open>feedPacket\<close> of the Aleo
  client has an empty branch for that case.
\<close>

fun leaves :: "routine \<Rightarrow> bool" where
  "leaves ManagePacket = True"
| "leaves PruneBaseSeq = True"
| "leaves RetryFeed = True"
| "leaves (FeedDest chainID) = False"

section \<open>The pool\<close>

text \<open>
  \<open>po_queue\<close> is the channel \<open>ch\<close>. A call of \<open>FeedPacket\<close> carries the number of its own context; it is in
  \<open>po_calls\<close> while it runs and in \<open>po_failed\<close> while its deferred function waits to send the client
  back. \<open>po_open\<close> holds the contexts whose own \<open>cncl\<close> has not been called, \<open>po_done\<close> tells whether the
  context of the program is cancelled, \<open>po_crashed\<close> whether a panic has ended the process.
\<close>

record pool =
  po_queue :: "chain_client list"
  po_calls :: "(nat \<times> chain_client) list"
  po_failed :: "(nat \<times> chain_client) list"
  po_routines :: "(nat \<times> routine) list"
  po_open :: "nat set"
  po_next :: nat
  po_done :: bool
  po_crashed :: bool

text \<open>All clients are on the channel, whose buffer is as large as the configuration, before the loop starts.\<close>

definition pool_start :: "chain_client list \<Rightarrow> pool" where
  "pool_start cls =
     \<lparr>po_queue = cls, po_calls = [], po_failed = [], po_routines = [], po_open = {}, po_next = 0,
      po_done = False, po_crashed = False\<rparr>"

definition ctx_live :: "pool \<Rightarrow> nat \<Rightarrow> bool" where
  "ctx_live s n \<longleftrightarrow> n \<in> po_open s \<and> \<not> po_done s"

text \<open>One client is taken off the channel; its call gets a fresh context and starts its goroutines.\<close>

definition start_call :: "chain_client \<Rightarrow> chain_client list \<Rightarrow> pool \<Rightarrow> pool" where
  "start_call c q s =
     s\<lparr>po_queue := q, po_calls := (po_next s, c) # po_calls s,
       po_routines := map (Pair (po_next s)) (client_spawns c) @ po_routines s,
       po_open := insert (po_next s) (po_open s), po_next := Suc (po_next s)\<rparr>"

text \<open>A panic in the frame of \<open>FeedPacket\<close>: it is recovered and the context cancelled.\<close>

definition fail_call :: "nat \<times> chain_client \<Rightarrow> pool \<Rightarrow> pool" where
  "fail_call x s =
     s\<lparr>po_calls := remove1 x (po_calls s), po_failed := x # po_failed s, po_open := po_open s - {fst x}\<rparr>"

definition requeue_call :: "nat \<times> chain_client \<Rightarrow> pool \<Rightarrow> pool" where
  "requeue_call x s = s\<lparr>po_queue := po_queue s @ [snd x], po_failed := remove1 x (po_failed s)\<rparr>"

definition return_call :: "nat \<times> chain_client \<Rightarrow> pool \<Rightarrow> pool" where
  "return_call x s = s\<lparr>po_calls := remove1 x (po_calls s), po_open := po_open s - {fst x}\<rparr>"

text \<open>
  The steps, with the capacity of the channel. Only a panic in the frame of \<open>FeedPacket\<close> is
  recovered; in a goroutine it started, a panic ends the process. Any client may panic here, although
  the frame of the Aleo client only waits.
\<close>

inductive pool_step :: "nat \<Rightarrow> pool \<Rightarrow> pool \<Rightarrow> bool" for cap where
  start: "\<not> po_crashed s \<Longrightarrow> po_queue s = c # q \<Longrightarrow> pool_step cap s (start_call c q s)"
| panic: "\<not> po_crashed s \<Longrightarrow> x \<in> set (po_calls s) \<Longrightarrow> pool_step cap s (fail_call x s)"
| requeue: "\<not> po_crashed s \<Longrightarrow> x \<in> set (po_failed s) \<Longrightarrow> length (po_queue s) < cap \<Longrightarrow>
    pool_step cap s (requeue_call x s)"
| return: "\<not> po_crashed s \<Longrightarrow> x \<in> set (po_calls s) \<Longrightarrow> \<not> ctx_live s (fst x) \<Longrightarrow> pool_step cap s (return_call x s)"
| leave: "\<not> po_crashed s \<Longrightarrow> (n, r) \<in> set (po_routines s) \<Longrightarrow> \<not> ctx_live s n \<Longrightarrow> leaves r \<Longrightarrow>
    pool_step cap s (s\<lparr>po_routines := remove1 (n, r) (po_routines s)\<rparr>)"
| crash: "\<not> po_crashed s \<Longrightarrow> (n, r) \<in> set (po_routines s) \<Longrightarrow> pool_step cap s (s\<lparr>po_crashed := True\<rparr>)"
| shutdown: "\<not> po_crashed s \<Longrightarrow> pool_step cap s (s\<lparr>po_done := True\<rparr>)"

inductive_cases pool_stepE: "pool_step cap s s'"

inductive pool_reachable :: "chain_client list \<Rightarrow> pool \<Rightarrow> bool" for cls where
  init: "pool_reachable cls (pool_start cls)"
| step: "pool_reachable cls s \<Longrightarrow> pool_step (length cls) s s' \<Longrightarrow> pool_reachable cls s'"

section \<open>Invariant\<close>

definition clients_of :: "pool \<Rightarrow> chain_client multiset" where
  "clients_of s = mset (po_queue s) + mset (map snd (po_calls s)) + mset (map snd (po_failed s))"

text \<open>The goroutines that run under a context.\<close>

definition routines_of :: "pool \<Rightarrow> nat \<Rightarrow> routine list" where
  "routines_of s n = map snd (filter (\<lambda>x. fst x = n) (po_routines s))"

definition pool_inv :: "chain_client list \<Rightarrow> pool \<Rightarrow> bool" where
  "pool_inv cls s \<longleftrightarrow>
     clients_of s \<subseteq># mset cls \<and> (\<not> po_done s \<longrightarrow> clients_of s = mset cls) \<and>
     distinct (map fst (po_calls s)) \<and> po_open s = set (map fst (po_calls s)) \<and>
     (\<forall>n \<in> set (map fst (po_calls s)) \<union> set (map fst (po_routines s)). n < po_next s) \<and>
     (\<not> po_done s \<longrightarrow> (\<forall>(n, c) \<in> set (po_calls s). mset (routines_of s n) = mset (client_spawns c)))"


lemma routines_of_remove1:
  "fst x \<noteq> n \<Longrightarrow> map snd (filter (\<lambda>y. fst y = n) (remove1 x rs)) = map snd (filter (\<lambda>y. fst y = n) rs)"
  by (induction rs) auto

lemma map_fst_remove1: "distinct (map fst xs) \<Longrightarrow> x \<in> set xs \<Longrightarrow> map fst (remove1 x xs) = remove1 (fst x) (map fst xs)"
  by (induction xs) auto

lemma calls_remove1:
  assumes "distinct (map fst xs)" and "x \<in> set xs"
  shows "distinct (map fst (remove1 x xs))" and "set (map fst (remove1 x xs)) = set (map fst xs) - {fst x}"
  unfolding map_fst_remove1 [OF assms] using assms(1) by (simp_all add: distinct_remove1)

lemma mset_snd_remove1: "x \<in> set xs \<Longrightarrow> add_mset (snd x) (mset (map snd (remove1 x xs))) = mset (map snd xs)"
  by (induction xs) auto

text \<open>Clients only change places, but for a call that returns after the end of the program.\<close>

lemma clients_of_steps:
  "po_queue s = c # q \<Longrightarrow> clients_of (start_call c q s) = clients_of s"
  "x \<in> set (po_calls s) \<Longrightarrow> clients_of (fail_call x s) = clients_of s"
  "x \<in> set (po_failed s) \<Longrightarrow> clients_of (requeue_call x s) = clients_of s"
  "x \<in> set (po_calls s) \<Longrightarrow> add_mset (snd x) (clients_of (return_call x s)) = clients_of s"
  using mset_snd_remove1 [of x "po_calls s"] mset_snd_remove1 [of x "po_failed s"]
  by (auto simp: clients_of_def start_call_def fail_call_def requeue_call_def return_call_def)

lemma start_call_simps [simp]:
  "po_queue (start_call c q s) = q" "po_calls (start_call c q s) = (po_next s, c) # po_calls s"
  "po_failed (start_call c q s) = po_failed s" "po_open (start_call c q s) = insert (po_next s) (po_open s)"
  "po_next (start_call c q s) = Suc (po_next s)" "po_done (start_call c q s) = po_done s"
  "set (map fst (po_routines (start_call c q s))) \<subseteq> insert (po_next s) (set (map fst (po_routines s)))"
  "routines_of (start_call c q s) n = (if n = po_next s then client_spawns c else []) @ routines_of s n"
  by (auto simp: start_call_def routines_of_def filter_map o_def)

lemma call_simps [simp]:
  "po_calls (fail_call x s) = remove1 x (po_calls s)" "po_open (fail_call x s) = po_open s - {fst x}"
  "po_calls (return_call x s) = remove1 x (po_calls s)" "po_open (return_call x s) = po_open s - {fst x}"
  "po_calls (requeue_call x s) = po_calls s" "po_open (requeue_call x s) = po_open s"
  "po_done (fail_call x s) = po_done s" "po_done (return_call x s) = po_done s" "po_done (requeue_call x s) = po_done s"
  "po_next (fail_call x s) = po_next s" "po_next (return_call x s) = po_next s" "po_next (requeue_call x s) = po_next s"
  "po_routines (fail_call x s) = po_routines s" "po_routines (return_call x s) = po_routines s"
  "po_routines (requeue_call x s) = po_routines s"
  "routines_of (fail_call x s) n = routines_of s n" "routines_of (return_call x s) n = routines_of s n"
  "routines_of (requeue_call x s) n = routines_of s n"
  by (simp_all add: fail_call_def return_call_def requeue_call_def routines_of_def)

lemma fresh_routines: "\<forall>n \<in> set (map fst (po_routines s)). n < po_next s \<Longrightarrow> routines_of s (po_next s) = []"
  by (auto simp: routines_of_def filter_empty_conv)

lemma pool_inv_start:
  assumes "pool_inv cls s" and "po_queue s = c # q"
  shows "pool_inv cls (start_call c q s)"
proof -
  have new: "po_next s \<notin> set (map fst (po_calls s))" using assms(1) by (auto simp: pool_inv_def)
  have fresh: "routines_of s (po_next s) = []" using assms(1) by (intro fresh_routines) (auto simp: pool_inv_def)
  have "mset (routines_of (start_call c q s) n) = mset (client_spawns c')"
    if "(n, c') \<in> set (po_calls (start_call c q s))" "\<not> po_done s" for n c'
  proof (cases "n = po_next s")
    case True
    then have "c' = c" using that(1) new by (auto simp: image_iff)
    then show ?thesis using True fresh by simp
  next
    case False
    then show ?thesis using that assms(1) by (auto simp: pool_inv_def)
  qed
  moreover have "n < Suc (po_next s)" if "n \<in> set (map fst (po_routines (start_call c q s)))" for n
    using subsetD [OF start_call_simps(7) that] assms(1) by (auto simp: pool_inv_def less_Suc_eq)
  ultimately show ?thesis
    using assms new fresh clients_of_steps(1) [OF assms(2)] by (auto simp: pool_inv_def less_Suc_eq)
qed

lemma pool_inv_fail:
  assumes "pool_inv cls s" and "x \<in> set (po_calls s)"
  shows "pool_inv cls (fail_call x s)"
  using assms clients_of_steps(2) [OF assms(2)] calls_remove1 [OF _ assms(2)] set_remove1_subset [of x "po_calls s"]
  unfolding pool_inv_def by (auto dest: subsetD)

lemma pool_inv_requeue: "pool_inv cls s \<Longrightarrow> x \<in> set (po_failed s) \<Longrightarrow> pool_inv cls (requeue_call x s)"
  by (simp add: pool_inv_def clients_of_steps(3))

lemma pool_inv_return:
  assumes "pool_inv cls s" and "x \<in> set (po_calls s)" and "\<not> ctx_live s (fst x)"
  shows "pool_inv cls (return_call x s)"
proof -
  have "po_done s" using assms by (auto simp: ctx_live_def pool_inv_def)
  moreover have "clients_of (return_call x s) \<subseteq># clients_of s"
    using clients_of_steps(4) [OF assms(2)] by (metis add_mset_add_single mset_subset_eq_add_left)
  then have "clients_of (return_call x s) \<subseteq># mset cls"
    using assms(1) by (auto simp: pool_inv_def intro: subset_mset.order_trans)
  ultimately show ?thesis
    using assms(1) calls_remove1 [OF _ assms(2)] set_remove1_subset [of x "po_calls s"]
    unfolding pool_inv_def by (auto dest: subsetD)
qed

text \<open>A goroutine that leaves belongs to no running call, unless the program ends.\<close>

lemma pool_inv_leave:
  assumes "pool_inv cls s" and "\<not> ctx_live s n"
  shows "pool_inv cls (s\<lparr>po_routines := remove1 (n, r) (po_routines s)\<rparr>)"
proof -
  define s' where "s' = s\<lparr>po_routines := remove1 (n, r) (po_routines s)\<rparr>"
  have same: "clients_of s' = clients_of s" "po_calls s' = po_calls s" "po_open s' = po_open s"
    "po_next s' = po_next s" "po_done s' = po_done s" "po_routines s' = remove1 (n, r) (po_routines s)"
    by (simp_all add: s'_def clients_of_def)
  have rt: "routines_of s' k = routines_of s k" if "k \<noteq> n" for k
    using that unfolding routines_of_def same by (simp add: routines_of_remove1)
  have "\<not> po_done s \<longrightarrow> n \<notin> set (map fst (po_calls s))" using assms by (auto simp: ctx_live_def pool_inv_def)
  then have "fst x \<noteq> n" if "\<not> po_done s" "x \<in> set (po_calls s)" for x
    using that by auto
  then have "routines_of s' (fst x) = routines_of s (fst x)" if "\<not> po_done s" "x \<in> set (po_calls s)" for x
    using that rt by blast
  moreover have "mset (routines_of s (fst x)) = mset (client_spawns (snd x))" if "\<not> po_done s" "x \<in> set (po_calls s)" for x
    using assms(1) that unfolding pool_inv_def by (cases x) auto
  ultimately have "\<not> po_done s \<longrightarrow> (\<forall>(k, c) \<in> set (po_calls s). mset (routines_of s' k) = mset (client_spawns c))"
    by (simp add: case_prod_beta)
  moreover have "set (map fst (po_routines s')) \<subseteq> set (map fst (po_routines s))"
    unfolding same using image_mono [OF set_remove1_subset] by (simp only: set_map)
  ultimately show ?thesis
    using assms(1) unfolding pool_inv_def s'_def [symmetric] same by blast
qed

lemma pool_step_inv: "pool_step cap s s' \<Longrightarrow> pool_inv cls s \<Longrightarrow> pool_inv cls s'"
proof (induction rule: pool_step.induct)
  case (start s c q)
  then show ?case by (simp add: pool_inv_start)
next
  case (panic s x)
  then show ?case by (simp add: pool_inv_fail)
next
  case (requeue s x)
  then show ?case by (simp add: pool_inv_requeue)
next
  case (return s x)
  then show ?case by (simp add: pool_inv_return)
next
  case (leave s n r)
  then show ?case by (simp add: pool_inv_leave)
next
  case (crash s n r)
  then show ?case by (simp add: pool_inv_def clients_of_def routines_of_def)
next
  case (shutdown s)
  then show ?case by (simp add: pool_inv_def clients_of_def routines_of_def)
qed

lemma reachable_inv: "pool_reachable cls s \<Longrightarrow> pool_inv cls s"
proof (induction rule: pool_reachable.induct)
  case init
  then show ?case by (simp add: pool_inv_def pool_start_def clients_of_def)
next
  case step
  then show ?case using pool_step_inv by blast
qed


section \<open>Supervision\<close>

lemma pool_step_feeds: "pool_step cap s s' \<Longrightarrow> (n, FeedDest dest) \<in> set (po_routines s) \<Longrightarrow> (n, FeedDest dest) \<in> set (po_routines s')"
proof (induction rule: pool_step.induct)
  case (leave s k r)
  then have "(n, FeedDest dest) \<noteq> (k, r)" by auto
  then show ?case using leave by (simp add: in_set_remove1)
qed (auto simp: start_call_def)

text \<open>
  C25. The feeding of a chain survives panics of its \<open>FeedPacket\<close>. In every reachable state of the
  pool, until the program is cancelled, each configured client is exactly once on the channel, in a
  running call or about to be put back; a client to be put back finds room on the channel, so the
  deferred function never blocks; and each running call has exactly its goroutines under its
  context, none twice, while the contexts of the calls that failed are cancelled. A goroutine of
  \<open>feedPacket\<close>, however, outlives every step, also the cancellation of its context.
\<close>

theorem supervisor_keeps_clients:
  assumes "pool_reachable cls s"
  shows "(\<not> po_done s \<longrightarrow> clients_of s = mset cls) \<and>
    (\<forall>x \<in> set (po_failed s). length (po_queue s) < length cls) \<and>
    (\<not> po_done s \<longrightarrow> (\<forall>(n, c) \<in> set (po_calls s). ctx_live s n \<and> mset (routines_of s n) = mset (client_spawns c))) \<and>
    (\<forall>n. ctx_live s n \<longrightarrow> (\<exists>!c. (n, c) \<in> set (po_calls s))) \<and>
    (\<forall>s' n dest. pool_step (length cls) s s' \<and> (n, FeedDest dest) \<in> set (po_routines s) \<longrightarrow>
       (n, FeedDest dest) \<in> set (po_routines s'))"
proof (intro conjI)
  note inv = reachable_inv [OF assms, unfolded pool_inv_def]
  show "\<not> po_done s \<longrightarrow> clients_of s = mset cls" using inv by blast
  have "size (clients_of s) \<le> length cls" using inv by (metis size_mset size_mset_mono)
  then have "length (po_queue s) + length (po_failed s) \<le> length cls" by (simp add: clients_of_def)
  then show "\<forall>x \<in> set (po_failed s). length (po_queue s) < length cls" by (cases "po_failed s") auto
  show "\<not> po_done s \<longrightarrow> (\<forall>(n, c) \<in> set (po_calls s). ctx_live s n \<and> mset (routines_of s n) = mset (client_spawns c))"
  proof (intro impI ballI)
    fix x
    assume "\<not> po_done s" "x \<in> set (po_calls s)"
    moreover from this have "ctx_live s (fst x)" using inv by (simp add: ctx_live_def)
    ultimately show "case x of (n, c) \<Rightarrow> ctx_live s n \<and> mset (routines_of s n) = mset (client_spawns c)"
      using inv by (cases x) auto
  qed
  show "\<forall>n. ctx_live s n \<longrightarrow> (\<exists>!c. (n, c) \<in> set (po_calls s))"
  proof (intro allI impI)
    fix n
    assume "ctx_live s n"
    then have "n \<in> set (map fst (po_calls s))" using inv by (simp add: ctx_live_def)
    then obtain c where "(n, c) \<in> set (po_calls s)" by auto
    moreover have "distinct (map fst (po_calls s))" using inv by blast
    ultimately show "\<exists>!c. (n, c) \<in> set (po_calls s)" using eq_key_imp_eq_value by metis
  qed
qed (use pool_step_feeds in blast)


text \<open>A run: the client is started, its call fails, and before that it had one goroutine for its destination.\<close>

definition supervised :: chain_client where
  "supervised = AleoChain
     \<lparr>ac_url = [], ac_name = ''aleo'', ac_programID = [], ac_queryUrl = [], ac_network = [], ac_chainID = Some 1,
      ac_waitHeight = 1, ac_destChainsIDMap = [(''2'', 1)], ac_validityWaitDur = 1, ac_retryPacketWaitDur = 1,
      ac_pruneBaseSeqWaitDur = 1, ac_avgBlockGenDur = 1\<rparr>"

theorem supervisor_keeps_clients_witness:
  "\<exists>s. pool_reachable [supervised] s \<and> po_failed s = [(0, supervised)] \<and> (0, FeedDest ''2'') \<in> set (po_routines s) \<and>
     clients_of s = {#supervised#} \<and> length (po_queue s) < 1"
proof -
  let ?s1 = "start_call supervised [] (pool_start [supervised])"
  let ?s2 = "fail_call (0, supervised) ?s1"
  have "pool_reachable [supervised] ?s1"
    by (rule pool_reachable.step [OF pool_reachable.init], rule pool_step.start) (simp_all add: pool_start_def)
  then have r: "pool_reachable [supervised] ?s2"
    by (rule pool_reachable.step, intro pool_step.panic) (simp_all add: pool_start_def start_call_def)
  moreover have "po_failed ?s2 = [(0, supervised)]" "\<not> po_done ?s2" "(0, FeedDest ''2'') \<in> set (po_routines ?s2)"
    by (simp_all add: pool_start_def start_call_def fail_call_def supervised_def aleo_FeedPacket_spawns_def)
  ultimately show ?thesis
    using supervisor_keeps_clients [OF r] by (intro exI [of _ ?s2]) simp
qed

end
