(* ===== verification/BridgeContract.thy ===== *)
theory BridgeContract
  imports EthSign
begin

text \<open>
  The bridge contract on Ethereum, \<open>solidity/contracts/main/Bridge.sol\<close> with the contracts it
  inherits from under \<open>base/bridge/\<close> and \<open>common/Pausable.sol\<close>: attestors and quorum, token services,
  the packets it consumes for attestors' signatures and those it dispatches. The storage is a
  record, a transaction a function that yields the new storage or the reason of its revert, so that a
  reverted transaction changes nothing.
\<close>

section \<open>Environment\<close>

text \<open>
  Where contracts compare addresses they are 160-bit words; in packets an address is its 20 bytes,
  as \<open>abi.encodePacked\<close> writes it. \<open>keccak256\<close> and \<open>ecrecover\<close> are functions of the machine.
\<close>

type_synonym address = "160 word"
type_synonym 'a tx = "string + 'a"

record evm =
  ev_keccak :: "bytes \<Rightarrow> bytes"
  ev_ecrecover :: "bytes \<Rightarrow> u8 \<Rightarrow> bytes \<Rightarrow> bytes \<Rightarrow> address"

text \<open>
  The OpenZeppelin contracts \<open>Ownable\<close>, \<open>Pausable\<close> and \<open>Initializable\<close> with their storage \<open>'o\<close>. The
  modifier \<open>initializer\<close> acts before and after the body it is put on.
\<close>

record 'o openzeppelin =
  oz_onlyOwner :: "address \<Rightarrow> 'o \<Rightarrow> unit tx"
  oz_owner :: "'o \<Rightarrow> address"
  oz_transferOwnership :: "address \<Rightarrow> 'o \<Rightarrow> 'o"
  oz_whenNotPaused :: "'o \<Rightarrow> unit tx"
  oz_whenPaused :: "'o \<Rightarrow> unit tx"
  oz_pause :: "address \<Rightarrow> 'o \<Rightarrow> 'o"
  oz_unpause :: "address \<Rightarrow> 'o \<Rightarrow> 'o"
  oz_initializer :: "'o \<Rightarrow> 'o tx"
  oz_initialized :: "'o \<Rightarrow> 'o"
  oz_Ownable_init :: "address \<Rightarrow> 'o \<Rightarrow> 'o tx"
  oz_Pausable_init :: "'o \<Rightarrow> 'o tx"

section \<open>Packets and storage\<close>

record sol_out_message =
  so_senderAddress :: bytes
  so_destTokenAddress :: string
  so_amount :: uint256
  so_receiverAddress :: string

record sol_out_packet =
  sop_version :: uint256
  sop_sequence :: uint256
  sop_sourceTokenService :: sol_in_address
  sop_destTokenService :: sol_out_address
  sop_message :: sol_out_message
  sop_height :: uint256

definition sol_out_packed :: "sol_out_packet \<Rightarrow> bytes" where
  "sol_out_packed p = abi_uint256 (sop_version p) @ abi_uint256 (sop_sequence p) @
     abi_uint256 (si_chainId (sop_sourceTokenService p)) @ si_addr (sop_sourceTokenService p) @
     abi_uint256 (so_chainId (sop_destTokenService p)) @ bytes_of_string (so_addr (sop_destTokenService p)) @
     so_senderAddress (sop_message p) @ bytes_of_string (so_destTokenAddress (sop_message p)) @
     abi_uint256 (so_amount (sop_message p)) @ bytes_of_string (so_receiverAddress (sop_message p)) @
     abi_uint256 (sop_height p)"

definition sol_out_hash :: "(bytes \<Rightarrow> bytes) \<Rightarrow> sol_out_packet \<Rightarrow> bytes" where
  "sol_out_hash keccak p = keccak (sol_out_packed p)"

datatype bridge_event =
    AttestorAdded address
  | AttestorRemoved address
  | QuorumUpdated uint256 uint256
  | TokenServiceAdded address
  | TokenServiceRemoved address
  | ChainUpdated uint256 uint256
  | Consumed uint256 uint256 bytes vote
  | PacketDispatched sol_out_packet

text \<open>The storage, with the log of the events emitted so far. A \<open>bytes32\<close> is 32 bytes; mappings start at zero.\<close>

record 'o bridge =
  br_oz :: 'o
  br_attestors :: "address \<Rightarrow> bool"
  br_quorumRequired :: uint256
  br_tokenServices :: "address \<Rightarrow> bool"
  br_consumedPackets :: "uint256 \<Rightarrow> bytes"
  br_sequence :: uint256
  br_outgoingPackets :: "uint256 \<Rightarrow> bytes"
  br_destinationChainId :: uint256
  br_logs :: "bridge_event list"

definition zero32 :: bytes where "zero32 = replicate 32 0"

definition bridge_deployed :: "'o \<Rightarrow> 'o bridge" where
  "bridge_deployed oz =
     \<lparr>br_oz = oz, br_attestors = (\<lambda>a. False), br_quorumRequired = 0, br_tokenServices = (\<lambda>a. False),
      br_consumedPackets = (\<lambda>n. zero32), br_sequence = 0, br_outgoingPackets = (\<lambda>n. zero32),
      br_destinationChainId = 0, br_logs = []\<rparr>"

definition emit :: "bridge_event \<Rightarrow> 'o bridge \<Rightarrow> 'o bridge" where
  "emit e s = s\<lparr>br_logs := br_logs s @ [e]\<rparr>"

text \<open>\<open>require\<close> and the modifiers, each around what follows.\<close>

definition require :: "bool \<Rightarrow> string \<Rightarrow> 'a tx \<Rightarrow> 'a tx" where
  "require c reason body = (if c then body else Inl reason)"

definition onlyOwner :: "'o openzeppelin \<Rightarrow> address \<Rightarrow> 'o bridge \<Rightarrow> 'a tx \<Rightarrow> 'a tx" where
  "onlyOwner Z sender s body = (case oz_onlyOwner Z sender (br_oz s) of Inl e \<Rightarrow> Inl e | Inr u \<Rightarrow> body)"

definition whenNotPaused :: "'o openzeppelin \<Rightarrow> 'o bridge \<Rightarrow> 'a tx \<Rightarrow> 'a tx" where
  "whenNotPaused Z s body = (case oz_whenNotPaused Z (br_oz s) of Inl e \<Rightarrow> Inl e | Inr u \<Rightarrow> body)"

definition whenPaused :: "'o openzeppelin \<Rightarrow> 'o bridge \<Rightarrow> 'a tx \<Rightarrow> 'a tx" where
  "whenPaused Z s body = (case oz_whenPaused Z (br_oz s) of Inl e \<Rightarrow> Inl e | Inr u \<Rightarrow> body)"

section \<open>AttestorManager\<close>

definition isAttestor :: "address \<Rightarrow> 'o bridge \<Rightarrow> bool" where
  "isAttestor attestor s = br_attestors s attestor"

definition updateQuorum :: "'o openzeppelin \<Rightarrow> address \<Rightarrow> uint256 \<Rightarrow> 'o bridge \<Rightarrow> 'o bridge tx" where
  "updateQuorum Z sender newQuorumRequired s =
     onlyOwner Z sender s
       (require (0 < newQuorumRequired) ''AttestorManager: zero quorum''
         (Inr ((emit (QuorumUpdated (br_quorumRequired s) newQuorumRequired) s)
                \<lparr>br_quorumRequired := newQuorumRequired\<rparr>)))"

definition add_attestor :: "address \<Rightarrow> 'o bridge \<Rightarrow> 'o bridge tx" where
  "add_attestor attestor s =
     require (attestor \<noteq> 0) ''AttestorManager: zero address''
       (require (\<not> isAttestor attestor s) ''AttestorManager: attestor already exists''
         (Inr (emit (AttestorAdded attestor) (s\<lparr>br_attestors := (br_attestors s)(attestor := True)\<rparr>))))"

definition addAttestor :: "'o openzeppelin \<Rightarrow> address \<Rightarrow> address \<Rightarrow> uint256 \<Rightarrow> 'o bridge \<Rightarrow> 'o bridge tx" where
  "addAttestor Z sender attestor newQuorumRequired s =
     onlyOwner Z sender s
       (case add_attestor attestor s of Inl e \<Rightarrow> Inl e | Inr s1 \<Rightarrow> updateQuorum Z sender newQuorumRequired s1)"

definition removeAttestor :: "'o openzeppelin \<Rightarrow> address \<Rightarrow> address \<Rightarrow> uint256 \<Rightarrow> 'o bridge \<Rightarrow> 'o bridge tx" where
  "removeAttestor Z sender attestor newQuorumRequired s =
     onlyOwner Z sender s
       (require (br_attestors s attestor) ''AttestorManager: unknown attestor''
         (updateQuorum Z sender newQuorumRequired
           (emit (AttestorRemoved attestor) (s\<lparr>br_attestors := (br_attestors s)(attestor := False)\<rparr>))))"

fun add_attestors :: "address list \<Rightarrow> 'o bridge \<Rightarrow> 'o bridge tx" where
  "add_attestors [] s = Inr s"
| "add_attestors (a # as) s = (case add_attestor a s of Inl e \<Rightarrow> Inl e | Inr s1 \<Rightarrow> add_attestors as s1)"

definition addAttestors :: "'o openzeppelin \<Rightarrow> address \<Rightarrow> address list \<Rightarrow> uint256 \<Rightarrow> 'o bridge \<Rightarrow> 'o bridge tx" where
  "addAttestors Z sender attestors newQuorumRequired s =
     onlyOwner Z sender s
       (case add_attestors attestors s of Inl e \<Rightarrow> Inl e | Inr s1 \<Rightarrow> updateQuorum Z sender newQuorumRequired s1)"

section \<open>BridgeTokenServiceManager\<close>

definition isRegisteredTokenService :: "address \<Rightarrow> 'o bridge \<Rightarrow> bool" where
  "isRegisteredTokenService service s = br_tokenServices s service"

definition addTokenService :: "'o openzeppelin \<Rightarrow> address \<Rightarrow> address \<Rightarrow> 'o bridge \<Rightarrow> 'o bridge tx" where
  "addTokenService Z sender service s =
     onlyOwner Z sender s
       (require (service \<noteq> 0) ''BridgeTokenServiceManager: zero address''
         (require (\<not> isRegisteredTokenService service s) ''BridgeTokenServiceManager: token service already exists''
           (Inr (emit (TokenServiceAdded service) (s\<lparr>br_tokenServices := (br_tokenServices s)(service := True)\<rparr>)))))"

definition removeTokenService :: "'o openzeppelin \<Rightarrow> address \<Rightarrow> address \<Rightarrow> 'o bridge \<Rightarrow> 'o bridge tx" where
  "removeTokenService Z sender service s =
     onlyOwner Z sender s
       (require (isRegisteredTokenService service s) ''BridgeTokenServiceManager: unknown token service''
         (Inr (emit (TokenServiceRemoved service) (s\<lparr>br_tokenServices := (br_tokenServices s)(service := False)\<rparr>))))"

section \<open>ConsumedPacketManagerImpl\<close>

definition isPacketConsumed :: "uint256 \<Rightarrow> 'o bridge \<Rightarrow> bool" where
  "isPacketConsumed n s \<longleftrightarrow> br_consumedPackets s n \<noteq> zero32"

definition recover :: "evm \<Rightarrow> bytes \<Rightarrow> u8 \<times> bytes \<times> bytes \<Rightarrow> vote \<Rightarrow> address" where
  "recover EV packetHash = (\<lambda>(v, r, s) tryVote. ev_ecrecover EV (recover_digest (ev_keccak EV) packetHash tryVote) v r s)"

text \<open>The \<open>pos\<close>-th signature, 65 bytes; the last byte is the recovery id.\<close>

definition signatureSplit :: "bytes \<Rightarrow> nat \<Rightarrow> u8 \<times> bytes \<times> bytes" where
  "signatureSplit signatures pos =
     (let signaturePos = 65 * pos;
          r = take 32 (drop signaturePos signatures);
          s = take 32 (drop (signaturePos + 32) signatures);
          v = signatures ! (signaturePos + 64)
      in (if v < 27 then v + 27 else v, r, s))"

text \<open>The loop over the positions of the signatures, with the last attestor and the two counters.\<close>

fun count_votes :: "evm \<Rightarrow> 'o bridge \<Rightarrow> bytes \<Rightarrow> bytes \<Rightarrow> nat list \<Rightarrow> address \<Rightarrow> uint256 \<Rightarrow> uint256 \<Rightarrow>
    (uint256 \<times> uint256) tx" where
  "count_votes EV s packetHash signatures [] lastAttestor yeas nays = Inr (yeas, nays)"
| "count_votes EV s packetHash signatures (i # is) lastAttestor yeas nays =
     (let g = signatureSplit signatures i; a = recover EV packetHash g NAY in
      if isAttestor a s then
        require (lastAttestor < a) ''ConsumedPacketManagerImpl: Signers order mismatch''
          (count_votes EV s packetHash signatures is a yeas (nays + 1))
      else
        (let b = recover EV packetHash g YEA in
         require (isAttestor b s) ''ConsumedPacketManagerImpl: unknown signer''
           (require (lastAttestor < b) ''ConsumedPacketManagerImpl: Signers order mismatch''
             (count_votes EV s packetHash signatures is b (yeas + 1) nays))))"

definition checkSignatures :: "evm \<Rightarrow> 'o bridge \<Rightarrow> bytes \<Rightarrow> bytes \<Rightarrow> uint256 \<Rightarrow> vote tx" where
  "checkSignatures EV s packetHash signatures threshold =
     (let noOfSignatures = of_nat (length signatures) div 65 :: uint256 in
      require (threshold \<le> noOfSignatures) ''ConsumedPacketManagerImpl: inadequate signatures''
        (case count_votes EV s packetHash signatures [0..<unat noOfSignatures] 0 0 0 of
           Inl e \<Rightarrow> Inl e
         | Inr (yeas, nays) \<Rightarrow>
             Inr (if nays < yeas \<and> threshold \<le> yeas then YEA else if threshold \<le> nays then NAY else NULL)))"

definition consume_packet :: "evm \<Rightarrow> bytes \<Rightarrow> uint256 \<Rightarrow> uint256 \<Rightarrow> bytes \<Rightarrow> uint256 \<Rightarrow> 'o bridge \<Rightarrow>
    (vote \<times> 'o bridge) tx" where
  "consume_packet EV packetHash sourceChainId sequence signatures threshold s =
     require (\<not> isPacketConsumed sequence s) ''ConsumedPacketManagerImpl: packet already consumed''
       (let s1 = s\<lparr>br_consumedPackets := (br_consumedPackets s)(sequence := packetHash)\<rparr> in
        case checkSignatures EV s1 packetHash signatures threshold of
          Inl e \<Rightarrow> Inl e
        | Inr quorum \<Rightarrow> Inr (quorum, emit (Consumed sourceChainId sequence packetHash quorum) s1))"

section \<open>OutgoingPacketManagerImpl\<close>

text \<open>The increment is checked: it panics at the greatest number.\<close>

definition send_message :: "evm \<Rightarrow> sol_out_packet \<Rightarrow> 'o bridge \<Rightarrow> 'o bridge tx" where
  "send_message EV packet s =
     require (br_sequence s \<noteq> - 1) ''panic 0x11''
       (let packet = packet\<lparr>sop_version := 1, sop_sequence := br_sequence s + 1\<rparr> in
        Inr (emit (PacketDispatched packet)
          (s\<lparr>br_sequence := br_sequence s + 1,
             br_outgoingPackets := (br_outgoingPackets s)(sop_sequence packet := sol_out_hash (ev_keccak EV) packet)\<rparr>)))"

section \<open>Bridge and Pausable\<close>

definition Bridge_init :: "'o openzeppelin \<Rightarrow> address \<Rightarrow> uint256 \<Rightarrow> address \<Rightarrow> 'o bridge \<Rightarrow> 'o bridge tx" where
  "Bridge_init Z sender destChainId owner s =
     (case oz_initializer Z (br_oz s) of Inl e \<Rightarrow> Inl e | Inr o1 \<Rightarrow>
     (case oz_Ownable_init Z sender o1 of Inl e \<Rightarrow> Inl e | Inr o2 \<Rightarrow>
     (case oz_Pausable_init Z o2 of Inl e \<Rightarrow> Inl e | Inr o3 \<Rightarrow>
        Inr (s\<lparr>br_destinationChainId := destChainId,
               br_oz := oz_initialized Z (oz_transferOwnership Z owner o3)\<rparr>))))"

definition authorizeUpgrade :: "'o openzeppelin \<Rightarrow> address \<Rightarrow> 'o bridge \<Rightarrow> unit tx" where
  "authorizeUpgrade Z sender s = require (sender = oz_owner Z (br_oz s)) [] (Inr ())"

definition isSupportedChain :: "uint256 \<Rightarrow> 'o bridge \<Rightarrow> bool" where
  "isSupportedChain destChainId s \<longleftrightarrow> br_destinationChainId s = destChainId"

definition updateDestinationChainId :: "'o openzeppelin \<Rightarrow> address \<Rightarrow> uint256 \<Rightarrow> 'o bridge \<Rightarrow> 'o bridge tx" where
  "updateDestinationChainId Z sender newDestChainId s =
     onlyOwner Z sender s
       (require (\<not> isSupportedChain newDestChainId s) ''Bridge: destination chain already supported''
         (Inr ((emit (ChainUpdated (br_destinationChainId s) newDestChainId) s)
                \<lparr>br_destinationChainId := newDestChainId\<rparr>)))"

definition pause :: "'o openzeppelin \<Rightarrow> address \<Rightarrow> 'o bridge \<Rightarrow> 'o bridge tx" where
  "pause Z sender s = onlyOwner Z sender s (whenNotPaused Z s (Inr (s\<lparr>br_oz := oz_pause Z sender (br_oz s)\<rparr>)))"

definition unpause :: "'o openzeppelin \<Rightarrow> address \<Rightarrow> 'o bridge \<Rightarrow> 'o bridge tx" where
  "unpause Z sender s = onlyOwner Z sender s (whenPaused Z s (Inr (s\<lparr>br_oz := oz_unpause Z sender (br_oz s)\<rparr>)))"

definition consume :: "evm \<Rightarrow> 'o openzeppelin \<Rightarrow> address \<Rightarrow> sol_in_packet \<Rightarrow> bytes \<Rightarrow> 'o bridge \<Rightarrow>
    (vote \<times> 'o bridge) tx" where
  "consume EV Z sender packet signatures s =
     whenNotPaused Z s
       (require (isRegisteredTokenService sender s) ''Bridge: unknown token service''
         (consume_packet EV (sol_hash (ev_keccak EV) packet) (so_chainId (sip_sourceTokenService packet))
            (sip_sequence packet) signatures (br_quorumRequired s) s))"

definition sendMessage :: "evm \<Rightarrow> 'o openzeppelin \<Rightarrow> address \<Rightarrow> sol_out_packet \<Rightarrow> 'o bridge \<Rightarrow> 'o bridge tx" where
  "sendMessage EV Z sender packet s =
     whenNotPaused Z s
       (require (isSupportedChain (so_chainId (sop_destTokenService packet)) s) ''Bridge: unknown destination chain''
         (require (isRegisteredTokenService sender s) ''Bridge: unknown token service''
           (send_message EV packet s)))"

section \<open>Transactions\<close>

datatype bridge_call =
    CallInit uint256 address
  | CallPause
  | CallUnpause
  | CallAddAttestor address uint256
  | CallRemoveAttestor address uint256
  | CallAddAttestors "address list" uint256
  | CallUpdateQuorum uint256
  | CallAddTokenService address
  | CallRemoveTokenService address
  | CallUpdateDestinationChainId uint256
  | CallConsume sol_in_packet bytes
  | CallSendMessage sol_out_packet

fun bridge_exec :: "evm \<Rightarrow> 'o openzeppelin \<Rightarrow> address \<Rightarrow> bridge_call \<Rightarrow> 'o bridge \<Rightarrow> 'o bridge tx" where
  "bridge_exec EV Z sender (CallInit destChainId owner) s = Bridge_init Z sender destChainId owner s"
| "bridge_exec EV Z sender CallPause s = pause Z sender s"
| "bridge_exec EV Z sender CallUnpause s = unpause Z sender s"
| "bridge_exec EV Z sender (CallAddAttestor a q) s = addAttestor Z sender a q s"
| "bridge_exec EV Z sender (CallRemoveAttestor a q) s = removeAttestor Z sender a q s"
| "bridge_exec EV Z sender (CallAddAttestors as q) s = addAttestors Z sender as q s"
| "bridge_exec EV Z sender (CallUpdateQuorum q) s = updateQuorum Z sender q s"
| "bridge_exec EV Z sender (CallAddTokenService a) s = addTokenService Z sender a s"
| "bridge_exec EV Z sender (CallRemoveTokenService a) s = removeTokenService Z sender a s"
| "bridge_exec EV Z sender (CallUpdateDestinationChainId c) s = updateDestinationChainId Z sender c s"
| "bridge_exec EV Z sender (CallConsume p sigs) s =
     (case consume EV Z sender p sigs s of Inl e \<Rightarrow> Inl e | Inr (v, s') \<Rightarrow> Inr s')"
| "bridge_exec EV Z sender (CallSendMessage p) s = sendMessage EV Z sender p s"

text \<open>
  The histories of a deployed contract. The functions it inherits from the library, like
  \<open>transferOwnership\<close>, may change the library's storage in any way.
\<close>

inductive bridge_reachable :: "evm \<Rightarrow> 'o openzeppelin \<Rightarrow> 'o bridge \<Rightarrow> bool" for EV Z where
  deploy: "bridge_reachable EV Z (bridge_deployed oz)"
| transact: "bridge_reachable EV Z s \<Longrightarrow> bridge_exec EV Z sender c s = Inr s' \<Longrightarrow> bridge_reachable EV Z s'"
| inherited: "bridge_reachable EV Z s \<Longrightarrow> bridge_reachable EV Z (s\<lparr>br_oz := oz\<rparr>)"

end
