(* ===== verification/BridgeProps.thy ===== *)
theory BridgeProps
  imports BridgeContract EthSignProps
begin

text \<open>
  What the bridge contract guarantees in every history of transactions: a sequence number is
  consumed once, only for the signatures of a quorum, messages are dispatched under consecutive
  numbers, and only the owner changes who may take part.
\<close>

lemma unat_u256: "unat (w :: uint256) < 2 ^ 256"
  using unsigned_less [of w] by simp

lemma unat_small: "n < 2 ^ 256 \<Longrightarrow> unat (of_nat n :: uint256) = n"
  by (simp add: unat_of_nat)

section \<open>Events\<close>

definition consumed :: "bridge_event list \<Rightarrow> (uint256 \<times> bytes) list" where
  "consumed es = concat (map (\<lambda>e. case e of Consumed c n h v \<Rightarrow> [(n, h)] | _ \<Rightarrow> []) es)"

definition sent_messages :: "bridge_event list \<Rightarrow> sol_out_packet list" where
  "sent_messages es = concat (map (\<lambda>e. case e of PacketDispatched p \<Rightarrow> [p] | _ \<Rightarrow> []) es)"

lemma consumed_simps [simp]:
  "consumed [] = []" "consumed (es @ fs) = consumed es @ consumed fs"
  "consumed [Consumed c n h v] = [(n, h)]" "consumed [PacketDispatched p] = []"
  by (simp_all add: consumed_def)

lemma sent_messages_simps [simp]:
  "sent_messages [] = []" "sent_messages (es @ fs) = sent_messages es @ sent_messages fs"
  "sent_messages [Consumed c n h v] = []" "sent_messages [PacketDispatched p] = [p]"
  by (simp_all add: sent_messages_def)

text \<open>Transactions that leave the packets alone.\<close>

definition same_packets :: "'o bridge \<Rightarrow> 'o bridge \<Rightarrow> bool" where
  "same_packets s s' \<longleftrightarrow> br_consumedPackets s' = br_consumedPackets s \<and> br_sequence s' = br_sequence s \<and>
     br_outgoingPackets s' = br_outgoingPackets s \<and> consumed (br_logs s') = consumed (br_logs s) \<and>
     sent_messages (br_logs s') = sent_messages (br_logs s)"

lemma same_packets_refl [simp]: "same_packets s s"
  by (simp add: same_packets_def)

lemma same_packets_trans: "same_packets s t \<Longrightarrow> same_packets t u \<Longrightarrow> same_packets s u"
  by (simp add: same_packets_def)

lemmas tx_defs = require_def onlyOwner_def whenNotPaused_def whenPaused_def emit_def

lemma updateQuorum_packets: "updateQuorum Z sender q s = Inr s' \<Longrightarrow> same_packets s s' \<and> br_attestors s' = br_attestors s"
  by (auto simp: updateQuorum_def tx_defs same_packets_def consumed_def sent_messages_def split: sum.splits if_splits)

lemma add_attestor_packets: "add_attestor a s = Inr s' \<Longrightarrow> same_packets s s' \<and> a \<noteq> 0 \<and> br_attestors s' = (br_attestors s)(a := True)"
  by (auto simp: add_attestor_def tx_defs same_packets_def consumed_def sent_messages_def split: if_splits)

lemma add_attestors_packets:
  "add_attestors as s = Inr s' \<Longrightarrow> same_packets s s' \<and> (\<not> br_attestors s 0 \<longrightarrow> \<not> br_attestors s' 0)"
proof (induction "as" arbitrary: s)
  case (Cons a "as")
  then obtain s1 where s1: "add_attestor a s = Inr s1" "add_attestors as s1 = Inr s'" by (auto split: sum.splits)
  then show ?case using Cons.IH [OF s1(2)] add_attestor_packets [OF s1(1)] same_packets_trans by auto
qed simp

text \<open>The kinds of successful transactions.\<close>

lemma bridge_exec_cases:
  assumes "bridge_exec EV Z sender c s = Inr s'"
  obtains (packets) p sigs v where "c = CallConsume p sigs" "consume EV Z sender p sigs s = Inr (v, s')"
  | (message) p where "c = CallSendMessage p" "sendMessage EV Z sender p s = Inr s'"
  | (admin) "same_packets s s'" "\<not> br_attestors s 0 \<longrightarrow> \<not> br_attestors s' 0"
proof (cases c)
  case (CallConsume p sigs)
  then show ?thesis using assms packets by (auto split: sum.splits)
next
  case (CallSendMessage p)
  then show ?thesis using assms message by auto
next
  case (CallInit d a)
  then show ?thesis using assms admin by (auto simp: Bridge_init_def same_packets_def split: sum.splits)
next
  case CallPause
  then show ?thesis using assms admin by (auto simp: pause_def tx_defs same_packets_def split: sum.splits)
next
  case CallUnpause
  then show ?thesis using assms admin by (auto simp: unpause_def tx_defs same_packets_def split: sum.splits)
next
  case (CallAddAttestor a q)
  then obtain s1 where "add_attestor a s = Inr s1" "updateQuorum Z sender q s1 = Inr s'"
    using assms by (auto simp: addAttestor_def onlyOwner_def split: sum.splits)
  then show ?thesis using admin add_attestor_packets [of a s s1] updateQuorum_packets [of Z sender q s1 s'] same_packets_trans
    by auto
next
  case (CallRemoveAttestor a q)
  define s1 where "s1 = emit (AttestorRemoved a) (s\<lparr>br_attestors := (br_attestors s)(a := False)\<rparr>)"
  have "updateQuorum Z sender q s1 = Inr s'"
    using assms CallRemoveAttestor by (auto simp: removeAttestor_def onlyOwner_def require_def s1_def split: sum.splits if_splits)
  moreover have "same_packets s s1" "\<not> br_attestors s 0 \<longrightarrow> \<not> br_attestors s1 0"
    by (auto simp: s1_def same_packets_def emit_def consumed_def sent_messages_def)
  ultimately show ?thesis using admin updateQuorum_packets [of Z sender q s1 s'] same_packets_trans by auto
next
  case (CallAddAttestors as' q)
  then obtain s1 where "add_attestors as' s = Inr s1" "updateQuorum Z sender q s1 = Inr s'"
    using assms by (auto simp: addAttestors_def onlyOwner_def split: sum.splits)
  then show ?thesis using admin add_attestors_packets [of as' s s1] updateQuorum_packets [of Z sender q s1 s'] same_packets_trans
    by auto
next
  case (CallUpdateQuorum q)
  then show ?thesis using assms admin updateQuorum_packets [of Z sender q s s'] by auto
next
  case (CallAddTokenService a)
  then show ?thesis using assms admin
    by (auto simp: addTokenService_def tx_defs same_packets_def consumed_def sent_messages_def split: sum.splits if_splits)
next
  case (CallRemoveTokenService a)
  then show ?thesis using assms admin
    by (auto simp: removeTokenService_def tx_defs same_packets_def consumed_def sent_messages_def split: sum.splits if_splits)
next
  case (CallUpdateDestinationChainId d)
  then show ?thesis using assms admin
    by (auto simp: updateDestinationChainId_def tx_defs same_packets_def consumed_def sent_messages_def split: sum.splits if_splits)
qed

lemma consume_cases:
  assumes "consume EV Z sender p sigs s = Inr (v, s')"
  defines "n \<equiv> sip_sequence p" and "h \<equiv> sol_hash (ev_keccak EV) p"
  defines "s1 \<equiv> s\<lparr>br_consumedPackets := (br_consumedPackets s)(n := h)\<rparr>"
  shows "isRegisteredTokenService sender s" "\<not> isPacketConsumed n s"
    "checkSignatures EV s1 h sigs (br_quorumRequired s) = Inr v"
    "s' = emit (Consumed (so_chainId (sip_sourceTokenService p)) n h v) s1"
  using assms(1) unfolding consume_def consume_packet_def whenNotPaused_def require_def Let_def n_def h_def s1_def
  by (auto split: sum.splits if_splits)

lemma sendMessage_cases:
  assumes "sendMessage EV Z sender p s = Inr s'"
  defines "q \<equiv> p\<lparr>sop_version := 1, sop_sequence := br_sequence s + 1\<rparr>"
  shows "isRegisteredTokenService sender s" "isSupportedChain (so_chainId (sop_destTokenService p)) s"
    "br_sequence s \<noteq> - 1"
    "s' = emit (PacketDispatched q) (s\<lparr>br_sequence := br_sequence s + 1,
       br_outgoingPackets := (br_outgoingPackets s)(br_sequence s + 1 := sol_out_hash (ev_keccak EV) q)\<rparr>)"
  using assms(1) unfolding sendMessage_def send_message_def whenNotPaused_def require_def Let_def q_def
  by (auto split: sum.splits if_splits)

section \<open>Consumed once\<close>

definition consumed_inv :: "'o bridge \<Rightarrow> bool" where
  "consumed_inv s \<longleftrightarrow>
     sorted_wrt (\<lambda>x y. fst x = fst y \<longrightarrow> snd x = zero32) (consumed (br_logs s)) \<and>
     (\<forall>(n, h) \<in> set (consumed (br_logs s)). h \<noteq> zero32 \<longrightarrow> br_consumedPackets s n = h) \<and>
     (\<forall>n. isPacketConsumed n s \<longrightarrow> (n, br_consumedPackets s n) \<in> set (consumed (br_logs s)))"

lemma consumed_inv_same: "same_packets s s' \<Longrightarrow> consumed_inv s \<Longrightarrow> consumed_inv s'"
  by (simp add: consumed_inv_def same_packets_def isPacketConsumed_def)

lemma consumed_inv_consume:
  assumes "consumed_inv s" and "consume EV Z sender p sigs s = Inr (v, s')"
  shows "consumed_inv s'"
proof -
  note c = consume_cases [OF assms(2)]
  let ?n = "sip_sequence p" and ?h = "sol_hash (ev_keccak EV) p"
  have logs: "consumed (br_logs s') = consumed (br_logs s) @ [(?n, ?h)]"
    "br_consumedPackets s' = (br_consumedPackets s)(?n := ?h)"
    by (simp_all add: c(4) emit_def)
  have z: "snd x = zero32" if "x \<in> set (consumed (br_logs s))" "fst x = ?n" for x
    using assms(1) c(2) that by (auto simp: consumed_inv_def isPacketConsumed_def)
  show ?thesis
    using assms(1) z unfolding consumed_inv_def logs
    by (auto simp: sorted_wrt_append isPacketConsumed_def logs)
qed

lemma consumed_inv_reachable: "bridge_reachable EV Z s \<Longrightarrow> consumed_inv s"
proof (induction rule: bridge_reachable.induct)
  case (deploy oz)
  then show ?case by (simp add: consumed_inv_def bridge_deployed_def isPacketConsumed_def)
next
  case (transact s sender c s')
  show ?case using transact(2)
  proof (cases rule: bridge_exec_cases)
    case (packets p sigs v)
    then show ?thesis using consumed_inv_consume [OF transact.IH] by blast
  next
    case (message p)
    have "br_consumedPackets s' = br_consumedPackets s" "consumed (br_logs s') = consumed (br_logs s)"
      by (simp_all add: sendMessage_cases(4) [OF message(2)] emit_def)
    then show ?thesis using transact.IH by (simp add: consumed_inv_def isPacketConsumed_def)
  next
    case admin
    then show ?thesis using consumed_inv_same transact.IH by blast
  qed
next
  case (inherited s oz)
  then show ?case by (simp add: consumed_inv_def isPacketConsumed_def)
qed

section \<open>Dispatched in order\<close>

definition dispatch_inv :: "(bytes \<Rightarrow> bytes) \<Rightarrow> 'o bridge \<Rightarrow> bool" where
  "dispatch_inv keccak s \<longleftrightarrow>
     map sop_sequence (sent_messages (br_logs s)) = map (\<lambda>k. of_nat (Suc k)) [0..<unat (br_sequence s)] \<and>
     (\<forall>p \<in> set (sent_messages (br_logs s)). sop_version p = 1 \<and> br_outgoingPackets s (sop_sequence p) = sol_out_hash keccak p)"

lemma dispatch_inv_send:
  assumes "dispatch_inv (ev_keccak EV) s" and "sendMessage EV Z sender p s = Inr s'"
  shows "dispatch_inv (ev_keccak EV) s'"
proof -
  note c = sendMessage_cases [OF assms(2)]
  let ?n = "br_sequence s + 1"
  let ?q = "p\<lparr>sop_version := 1, sop_sequence := ?n\<rparr>"
  have new: "br_sequence s' = ?n" "sent_messages (br_logs s') = sent_messages (br_logs s) @ [?q]"
    "br_outgoingPackets s' = (br_outgoingPackets s)(?n := sol_out_hash (ev_keccak EV) ?q)"
    by (simp_all add: c(4) emit_def)
  have n: "unat ?n = Suc (unat (br_sequence s))"
    using c(3) unatSuc [of "br_sequence s"] by (simp add: add.commute eq_neg_iff_add_eq_0)
  have fresh: "sop_sequence x \<noteq> ?n" if "x \<in> set (sent_messages (br_logs s))" for x
  proof
    assume eq: "sop_sequence x = ?n"
    have "sop_sequence x \<in> set (map sop_sequence (sent_messages (br_logs s)))" using that by simp
    then obtain k where "k < unat (br_sequence s)" "sop_sequence x = of_nat (Suc k)"
      using assms(1) unfolding dispatch_inv_def by (auto simp del: of_nat_Suc)
    moreover have "unat (of_nat (Suc k) :: uint256) = Suc k" if "k < unat (br_sequence s)" for k
      using that unat_u256 [of "br_sequence s"] by (intro unat_small) simp
    ultimately show False using eq n by (metis Suc_inject less_irrefl)
  qed
  have "of_nat (Suc (unat (br_sequence s))) = ?n" by simp
  then show ?thesis
    using assms(1) fresh unfolding dispatch_inv_def new n by (auto simp del: of_nat_Suc)
qed

lemma dispatch_inv_reachable: "bridge_reachable EV Z s \<Longrightarrow> dispatch_inv (ev_keccak EV) s"
proof (induction rule: bridge_reachable.induct)
  case (deploy oz)
  then show ?case by (simp add: dispatch_inv_def bridge_deployed_def)
next
  case (transact s sender c s')
  show ?case using transact(2)
  proof (cases rule: bridge_exec_cases)
    case (packets p sigs v)
    have "br_sequence s' = br_sequence s" "sent_messages (br_logs s') = sent_messages (br_logs s)"
      "br_outgoingPackets s' = br_outgoingPackets s"
      by (simp_all add: consume_cases(4) [OF packets(2)] emit_def)
    then show ?thesis using transact.IH by (simp add: dispatch_inv_def)
  next
    case (message p)
    then show ?thesis using dispatch_inv_send [OF transact.IH] by blast
  next
    case admin
    then show ?thesis using transact.IH by (simp add: dispatch_inv_def same_packets_def)
  qed
next
  case (inherited s oz)
  then show ?case by (simp add: dispatch_inv_def)
qed

section \<open>Quorum\<close>

text \<open>
  The signatures at the positions \<open>is\<close> count for distinct attestors above \<open>lastAttestor\<close>, those of \<open>Y\<close> for a
  positive and those of \<open>N\<close> for a negative vote.
\<close>

definition tally :: "evm \<Rightarrow> 'o bridge \<Rightarrow> bytes \<Rightarrow> bytes \<Rightarrow> nat list \<Rightarrow> address \<Rightarrow> address set \<Rightarrow> address set \<Rightarrow> bool" where
  "tally EV s h sigs is lastAttestor Y N \<longleftrightarrow>
     finite Y \<and> finite N \<and> Y \<inter> N = {} \<and> card Y + card N = length is \<and>
     (\<forall>a \<in> Y \<union> N. lastAttestor < a \<and> isAttestor a s) \<and>
     (\<forall>a \<in> Y. \<exists>i \<in> set is. recover EV h (signatureSplit sigs i) YEA = a) \<and>
     (\<forall>a \<in> N. \<exists>i \<in> set is. recover EV h (signatureSplit sigs i) NAY = a)"

lemma tally_nay:
  assumes "tally EV s h sigs is a Y N" and "isAttestor a s" and "lastAttestor < a"
    and "a = recover EV h (signatureSplit sigs i) NAY"
  shows "tally EV s h sigs (i # is) lastAttestor Y (insert a N) \<and> card (insert a N) = Suc (card N)"
proof -
  have "a \<notin> Y" "a \<notin> N" "\<forall>x \<in> Y \<union> N. lastAttestor < x"
    using assms(1,3) by (auto simp: tally_def intro: order.strict_trans)
  then show ?thesis using assms unfolding tally_def by auto
qed

lemma tally_yea:
  assumes "tally EV s h sigs is a Y N" and "isAttestor a s" and "lastAttestor < a"
    and "a = recover EV h (signatureSplit sigs i) YEA"
  shows "tally EV s h sigs (i # is) lastAttestor (insert a Y) N \<and> card (insert a Y) = Suc (card Y)"
proof -
  have "a \<notin> Y" "a \<notin> N" "\<forall>x \<in> Y \<union> N. lastAttestor < x"
    using assms(1,3) by (auto simp: tally_def intro: order.strict_trans)
  then show ?thesis using assms unfolding tally_def by auto
qed

lemma count_votes_sound:
  "count_votes EV s h sigs is lastAttestor y n = Inr (y', n') \<Longrightarrow>
    \<exists>Y N. tally EV s h sigs is lastAttestor Y N \<and> y' = y + of_nat (card Y) \<and> n' = n + of_nat (card N)"
proof (induction "is" arbitrary: lastAttestor y n)
  case Nil
  then show ?case by (auto simp: tally_def intro!: exI [of _ "{}"])
next
  case (Cons i "is")
  let ?a = "recover EV h (signatureSplit sigs i) NAY" and ?b = "recover EV h (signatureSplit sigs i) YEA"
  show ?case
  proof (cases "isAttestor ?a s")
    case True
    then have lt: "lastAttestor < ?a" and rest: "count_votes EV s h sigs is ?a y (n + 1) = Inr (y', n')"
      using Cons.prems by (auto simp: Let_def require_def split: if_splits)
    obtain Y N where IH: "tally EV s h sigs is ?a Y N" "y' = y + of_nat (card Y)" "n' = n + 1 + of_nat (card N)"
      using Cons.IH [OF rest] by blast
    note new = tally_nay [OF IH(1) True lt refl]
    have "n' = n + of_nat (card (insert ?a N))" unfolding conjunct2 [OF new] by (simp add: IH(3))
    then show ?thesis using new IH(2) by blast
  next
    case False
    then have lt: "lastAttestor < ?b" "isAttestor ?b s" and rest: "count_votes EV s h sigs is ?b (y + 1) n = Inr (y', n')"
      using Cons.prems by (auto simp: Let_def require_def split: if_splits)
    obtain Y N where IH: "tally EV s h sigs is ?b Y N" "y' = y + 1 + of_nat (card Y)" "n' = n + of_nat (card N)"
      using Cons.IH [OF rest] by blast
    note new = tally_yea [OF IH(1) lt(2,1) refl]
    have "y' = y + of_nat (card (insert ?b Y))" unfolding conjunct2 [OF new] by (simp add: IH(2))
    then show ?thesis using new IH(3) by blast
  qed
qed

lemma signature_count: "unat (of_nat (length sigs) div 65 :: uint256) \<le> length sigs div 65"
proof -
  have "unat (of_nat (length sigs) div 65 :: uint256) = unat (of_nat (length sigs) :: uint256) div 65"
    by (simp add: unat_div)
  also have "\<dots> \<le> length sigs div 65" by (intro div_le_mono) (simp add: unat_of_nat)
  finally show ?thesis .
qed

text \<open>The votes behind a consumed packet.\<close>

lemma consume_votes:
  assumes "consume EV Z sender p sigs s = Inr (v, s')"
  shows "\<exists>Y N. Y \<inter> N = {} \<and> (\<forall>a \<in> Y \<union> N. isAttestor a s) \<and>
    (\<forall>a \<in> Y. \<exists>i < length sigs div 65. recover EV (sol_hash (ev_keccak EV) p) (signatureSplit sigs i) YEA = a) \<and>
    (\<forall>a \<in> N. \<exists>i < length sigs div 65. recover EV (sol_hash (ev_keccak EV) p) (signatureSplit sigs i) NAY = a) \<and>
    (v = YEA \<longleftrightarrow> card N < card Y \<and> unat (br_quorumRequired s) \<le> card Y) \<and>
    (v = NAY \<longleftrightarrow> v \<noteq> YEA \<and> unat (br_quorumRequired s) \<le> card N)"
proof -
  let ?h = "sol_hash (ev_keccak EV) p" and ?k = "of_nat (length sigs) div 65 :: uint256"
  define s1 where "s1 = s\<lparr>br_consumedPackets := (br_consumedPackets s)(sip_sequence p := ?h)\<rparr>"
  note check = consume_cases(3) [OF assms, folded s1_def]
  obtain y n where votes: "count_votes EV s1 ?h sigs [0..<unat ?k] 0 0 0 = Inr (y, n)"
    and v: "v = (if n < y \<and> br_quorumRequired s \<le> y then YEA else if br_quorumRequired s \<le> n then NAY else NULL)"
    using check by (auto simp: checkSignatures_def Let_def require_def split: if_splits sum.splits prod.splits)
  obtain Y N where YN: "tally EV s1 ?h sigs [0..<unat ?k] 0 Y N" "y = of_nat (card Y)" "n = of_nat (card N)"
    using count_votes_sound [OF votes] by auto
  have "card Y + card N = unat ?k" using YN(1) by (simp add: tally_def)
  then have "card Y < 2 ^ 256" "card N < 2 ^ 256" using unat_u256 [of ?k] by linarith+
  then have cards: "unat y = card Y" "unat n = card N" unfolding YN(2,3) by (simp_all only: unat_small)
  have "isAttestor a s" if "a \<in> Y \<union> N" for a
    using YN(1) that by (auto simp: tally_def s1_def isAttestor_def)
  moreover have "i < length sigs div 65" if "i \<in> set [0..<unat ?k]" for i
    using that signature_count [of sigs] by simp
  ultimately have sound: "Y \<inter> N = {} \<and> (\<forall>a \<in> Y \<union> N. isAttestor a s) \<and>
      (\<forall>a \<in> Y. \<exists>i < length sigs div 65. recover EV ?h (signatureSplit sigs i) YEA = a) \<and>
      (\<forall>a \<in> N. \<exists>i < length sigs div 65. recover EV ?h (signatureSplit sigs i) NAY = a)"
    using YN(1) unfolding tally_def by meson
  have result: "(v = YEA \<longleftrightarrow> card N < card Y \<and> unat (br_quorumRequired s) \<le> card Y) \<and>
      (v = NAY \<longleftrightarrow> v \<noteq> YEA \<and> unat (br_quorumRequired s) \<le> card N)"
    unfolding v word_less_nat_alt word_le_nat_alt cards by simp
  note parts = sound [THEN conjunct1] sound [THEN conjunct2, THEN conjunct1]
    sound [THEN conjunct2, THEN conjunct2, THEN conjunct1] sound [THEN conjunct2, THEN conjunct2, THEN conjunct2]
  show ?thesis
    by (rule exI [of _ Y], rule exI [of _ N], intro conjI [OF parts(1)] conjI [OF parts(2)] conjI [OF parts(3)]
        conjI [OF parts(4)]) (rule result)
qed


section \<open>Signatures one after the other\<close>

text \<open>The parts of one signature, as the contract reads them.\<close>

definition signature_parts :: "bytes \<Rightarrow> u8 \<times> bytes \<times> bytes" where
  "signature_parts g = (if g ! 64 < 27 then g ! 64 + 27 else g ! 64, take 32 g, take 32 (drop 32 g))"

lemma drop_concat: "\<forall>g \<in> set gs. length g = n \<Longrightarrow> i < length gs \<Longrightarrow> drop (n * i) (concat gs) = gs ! i @ concat (drop (Suc i) gs)"
proof (induction gs arbitrary: i)
  case (Cons g gs)
  then show ?case by (cases i) simp_all
qed simp

lemma length_concat_same: "\<forall>g \<in> set gs. length g = n \<Longrightarrow> length (concat gs) = n * length gs"
  by (induction gs) auto

lemma signatureSplit_concat:
  assumes "\<forall>g \<in> set gs. length g = 65" and "i < length gs"
  shows "signatureSplit (concat gs) i = signature_parts (gs ! i)"
proof -
  let ?rest = "gs ! i @ concat (drop (Suc i) gs)"
  have len: "length (gs ! i) = 65" using assms by simp
  have d: "drop (65 * i) (concat gs) = ?rest" by (rule drop_concat [OF assms])
  have "drop (65 * i + 32) (concat gs) = drop 32 ?rest" unfolding d [symmetric] by (simp add: add.commute)
  moreover have "concat gs ! (65 * i + 64) = ?rest ! 64"
    unfolding d [symmetric] using length_concat_same [OF assms(1)] assms(2) by (subst nth_drop) simp_all
  ultimately show ?thesis
    unfolding signatureSplit_def signature_parts_def Let_def d using len by (simp add: nth_append)
qed

lemma count_votes_yea:
  assumes "\<forall>i \<in> set is. \<not> isAttestor (recover EV h (signatureSplit sigs i) NAY) s \<and>
      isAttestor (recover EV h (signatureSplit sigs i) YEA) s"
    and "sorted_wrt (<) (lastAttestor # map (\<lambda>i. recover EV h (signatureSplit sigs i) YEA) is)"
  shows "count_votes EV s h sigs is lastAttestor y n = Inr (y + of_nat (length is), n)"
  using assms
proof (induction "is" arbitrary: lastAttestor y)
  case (Cons i "is")
  then show ?case using Cons.IH [of "recover EV h (signatureSplit sigs i) YEA" "y + 1"]
    by (simp add: Let_def require_def algebra_simps)
qed simp

text \<open>Enough positive votes of distinct attestors in ascending order: the packet is consumed.\<close>

lemma consume_yea:
  fixes gs :: "bytes list"
  assumes open_: "oz_whenNotPaused Z (br_oz s) = Inr ()" "isRegisteredTokenService sender s"
      "\<not> isPacketConsumed (sip_sequence p) s"
    and sigs: "\<forall>g \<in> set gs. length g = 65" "gs \<noteq> []" "65 * length gs < 2 ^ 256"
      "unat (br_quorumRequired s) \<le> length gs"
    and votes: "\<forall>g \<in> set gs. \<not> isAttestor (recover EV (sol_hash (ev_keccak EV) p) (signature_parts g) NAY) s \<and>
        isAttestor (recover EV (sol_hash (ev_keccak EV) p) (signature_parts g) YEA) s"
      "sorted_wrt (<) (0 # map (\<lambda>g. recover EV (sol_hash (ev_keccak EV) p) (signature_parts g) YEA) gs)"
  shows "consume EV Z sender p (concat gs) s =
    Inr (YEA, emit (Consumed (so_chainId (sip_sourceTokenService p)) (sip_sequence p) (sol_hash (ev_keccak EV) p) YEA)
      (s\<lparr>br_consumedPackets := (br_consumedPackets s)(sip_sequence p := sol_hash (ev_keccak EV) p)\<rparr>))"
proof -
  let ?h = "sol_hash (ev_keccak EV) p"
  define s1 where "s1 = s\<lparr>br_consumedPackets := (br_consumedPackets s)(sip_sequence p := ?h)\<rparr>"
  have att: "isAttestor a s1 = isAttestor a s" for a by (simp add: isAttestor_def s1_def)
  have n: "unat (of_nat (length (concat gs)) div 65 :: uint256) = length gs"
    using sigs(3) unfolding length_concat_same [OF sigs(1)] unat_div by (subst unat_small) simp_all
  have map_i: "map (\<lambda>i. f (signatureSplit (concat gs) i)) [0..<length gs] = map (\<lambda>g. f (signature_parts g)) gs"
    for f :: "u8 \<times> bytes \<times> bytes \<Rightarrow> address"
    by (rule nth_equalityI) (simp_all add: signatureSplit_concat [OF sigs(1)])
  have "count_votes EV s1 ?h (concat gs) [0..<length gs] 0 0 0 = Inr (0 + of_nat (length [0..<length gs]), 0)"
  proof (rule count_votes_yea)
    show "\<forall>i \<in> set [0..<length gs]. \<not> isAttestor (recover EV ?h (signatureSplit (concat gs) i) NAY) s1 \<and>
        isAttestor (recover EV ?h (signatureSplit (concat gs) i) YEA) s1"
      using votes(1) by (simp add: att signatureSplit_concat [OF sigs(1)])
    show "sorted_wrt (<) (0 # map (\<lambda>i. recover EV ?h (signatureSplit (concat gs) i) YEA) [0..<length gs])"
      using votes(2) unfolding map_i [of "\<lambda>x. recover EV ?h x YEA"] .
  qed
  then have "count_votes EV s1 ?h (concat gs) [0..<length gs] 0 0 0 = Inr (of_nat (length gs), 0)" by simp
  moreover have k: "unat (of_nat (length gs) :: uint256) = length gs" using sigs(3) by (intro unat_small) simp
  moreover have "(0 :: uint256) < of_nat (length gs)" "br_quorumRequired s \<le> of_nat (length gs)"
    using sigs(2,4) unfolding word_less_nat_alt word_le_nat_alt k by simp_all
  moreover have "br_quorumRequired s \<le> of_nat (length (concat gs)) div 65"
    using sigs(4) unfolding word_le_nat_alt n .
  ultimately have "checkSignatures EV s1 ?h (concat gs) (br_quorumRequired s) = Inr YEA"
    unfolding checkSignatures_def Let_def n require_def by simp
  then show ?thesis
    using open_ by (simp add: consume_def consume_packet_def whenNotPaused_def require_def Let_def s1_def)
qed

section \<open>A concrete contract\<close>

text \<open>
  A machine for examples: its hash keeps the last 32 bytes, and a signature is the digest it is for,
  with the signer's number as the last byte of its second half. Its library lets everything pass.
\<close>

definition demo_evm :: evm where
  "demo_evm = \<lparr>ev_keccak = fit_bytes 32, ev_ecrecover = (\<lambda>d v r s. if v = 27 \<and> r = d then ucast (last s) else 0)\<rparr>"

definition demo_oz :: "unit openzeppelin" where
  "demo_oz = \<lparr>oz_onlyOwner = (\<lambda>a z. Inr ()), oz_owner = (\<lambda>z. 0), oz_transferOwnership = (\<lambda>a z. z),
     oz_whenNotPaused = (\<lambda>z. Inr ()), oz_whenPaused = (\<lambda>z. Inr ()), oz_pause = (\<lambda>a z. z), oz_unpause = (\<lambda>a z. z),
     oz_initializer = Inr, oz_initialized = (\<lambda>z. z), oz_Ownable_init = (\<lambda>a z. Inr z), oz_Pausable_init = Inr\<rparr>"

definition demo_signature :: "bytes \<Rightarrow> u8 \<Rightarrow> bytes" where
  "demo_signature d k = d @ replicate 31 0 @ [k, 0]"

text \<open>Three attestors, two of whom must agree, one token service, and chain 9.\<close>

definition demo_bridge :: "unit bridge" where
  "demo_bridge = (bridge_deployed ())
     \<lparr>br_attestors := (\<lambda>a. False)(1 := True, 2 := True, 3 := True), br_quorumRequired := 2,
      br_tokenServices := (\<lambda>a. False)(7 := True), br_destinationChainId := 9,
      br_logs := [AttestorAdded 1, AttestorAdded 2, AttestorAdded 3, QuorumUpdated 0 2, TokenServiceAdded 7, ChainUpdated 0 9]\<rparr>"

lemma demo_reachable: "bridge_reachable demo_evm demo_oz demo_bridge"
proof -
  let ?r = "bridge_reachable demo_evm demo_oz"
  note run = bridge_reachable.transact [where sender = 0]
  note defs = addAttestors_def add_attestor_def updateQuorum_def addTokenService_def updateDestinationChainId_def
    isAttestor_def isRegisteredTokenService_def isSupportedChain_def tx_defs demo_oz_def
  define s1 where "s1 = (bridge_deployed ())\<lparr>br_attestors := (\<lambda>a. False)(1 := True, 2 := True, 3 := True),
    br_quorumRequired := 2, br_logs := [AttestorAdded 1, AttestorAdded 2, AttestorAdded 3, QuorumUpdated 0 2]\<rparr>"
  define s2 where "s2 = s1\<lparr>br_tokenServices := (\<lambda>a. False)(7 := True), br_logs := br_logs s1 @ [TokenServiceAdded 7]\<rparr>"
  have "?r (bridge_deployed ())" by (rule bridge_reachable.deploy)
  then have "?r s1"
    by (rule run [where c = "CallAddAttestors [1, 2, 3] 2"]) (simp add: defs bridge_deployed_def s1_def)
  then have "?r s2"
    by (rule run [where c = "CallAddTokenService 7"]) (simp add: defs bridge_deployed_def s1_def s2_def)
  then show ?thesis
    by (rule run [where c = "CallUpdateDestinationChainId 9"])
      (simp add: defs bridge_deployed_def s1_def s2_def demo_bridge_def)
qed

definition demo_packet :: sol_in_packet where
  "demo_packet =
     \<lparr>sip_version = 1, sip_sequence = 5, sip_sourceTokenService = \<lparr>so_chainId = 9, so_addr = ''s''\<rparr>,
      sip_destTokenService = \<lparr>si_chainId = 1, si_addr = replicate 20 7\<rparr>,
      sip_message = \<lparr>sm_senderAddress = ''u'', sm_destTokenAddress = replicate 20 2, sm_amount = 10,
                     sm_receiverAddress = replicate 20 3\<rparr>,
      sip_height = 100\<rparr>"

lemma be_bytes_Suc_0 [simp]: "length (abi_uint256 n) = 32"
  by (simp add: abi_uint256_def)

lemma demo_hash: "sol_hash (ev_keccak demo_evm) p = abi_uint256 (sip_height p)"
  by (simp add: sol_hash_def demo_evm_def sol_packed_def fit_bytes_def)

lemma abi_uint256_zero: "abi_uint256 n = zero32 \<longleftrightarrow> n = 0"
proof -
  have "be_bytes k 0 = replicate k 0" for k by (induction k) (simp_all add: replicate_append_same)
  then have z: "zero32 = be_bytes 32 0" by (simp add: zero32_def)
  show ?thesis
    unfolding abi_uint256_def z using be_bytes_inj [of 32 "unat n" 0] unat_u256 [of n] by (auto simp: unat_eq_0)
qed

text \<open>Under the example's hash the digest is the packet's hash with the vote shifted in.\<close>

lemma demo_digest: "length h = 32 \<Longrightarrow> recover_digest (ev_keccak demo_evm) h w = drop 1 h @ abi_vote w"
  by (cases w) (simp_all add: recover_digest_def demo_evm_def fit_bytes_def)

definition demo_yea :: bytes where "demo_yea = drop 1 (abi_uint256 100) @ [1]"

definition demo_signatures :: "bytes list" where
  "demo_signatures = map (demo_signature demo_yea) [1, 3]"

definition demo_consumed :: "unit bridge" where
  "demo_consumed = emit (Consumed 9 5 (abi_uint256 100) YEA)
     (demo_bridge\<lparr>br_consumedPackets := (\<lambda>n. zero32)(5 := abi_uint256 100)\<rparr>)"

lemma demo_consume_at:
  assumes "sip_sequence p = 5" and "so_chainId (sip_sourceTokenService p) = 9" and "sip_height p = 100"
  shows "consume demo_evm demo_oz 7 p (concat demo_signatures) demo_bridge = Inr (YEA, demo_consumed)"
proof -
  have r: "recover demo_evm (abi_uint256 100) (signature_parts (demo_signature demo_yea k)) w =
      (if w = YEA then ucast k else 0)" for k w
    unfolding recover_def demo_digest [OF be_bytes_Suc_0]
    by (cases w) (simp_all add: signature_parts_def demo_signature_def demo_yea_def demo_evm_def nth_append)
  have "consume demo_evm demo_oz 7 p (concat demo_signatures) demo_bridge =
    Inr (YEA, emit (Consumed (so_chainId (sip_sourceTokenService p)) (sip_sequence p)
        (sol_hash (ev_keccak demo_evm) p) YEA)
      (demo_bridge\<lparr>br_consumedPackets := (br_consumedPackets demo_bridge)(sip_sequence p :=
         sol_hash (ev_keccak demo_evm) p)\<rparr>))"
  proof (rule consume_yea)
    show "oz_whenNotPaused demo_oz (br_oz demo_bridge) = Inr ()" by (simp add: demo_oz_def)
    show "isRegisteredTokenService 7 demo_bridge" by (simp add: isRegisteredTokenService_def demo_bridge_def)
    show "\<not> isPacketConsumed (sip_sequence p) demo_bridge"
      by (simp add: isPacketConsumed_def demo_bridge_def bridge_deployed_def)
    show "\<forall>g \<in> set demo_signatures. length g = 65" by (simp add: demo_signatures_def demo_signature_def demo_yea_def)
    show "demo_signatures \<noteq> []" "65 * length demo_signatures < 2 ^ 256"
      "unat (br_quorumRequired demo_bridge) \<le> length demo_signatures"
      by (simp_all add: demo_signatures_def demo_bridge_def)
    show "\<forall>g \<in> set demo_signatures.
        \<not> isAttestor (recover demo_evm (sol_hash (ev_keccak demo_evm) p) (signature_parts g) NAY) demo_bridge \<and>
        isAttestor (recover demo_evm (sol_hash (ev_keccak demo_evm) p) (signature_parts g) YEA) demo_bridge"
      by (simp add: demo_hash assms(3) r demo_signatures_def isAttestor_def demo_bridge_def)
    show "sorted_wrt (<) (0 # map (\<lambda>g. recover demo_evm (sol_hash (ev_keccak demo_evm) p) (signature_parts g) YEA)
        demo_signatures)"
      by (simp add: demo_hash assms(3) r demo_signatures_def)
  qed
  then show ?thesis unfolding assms demo_hash by (simp add: demo_consumed_def demo_bridge_def bridge_deployed_def)
qed

lemma demo_consume: "consume demo_evm demo_oz 7 demo_packet (concat demo_signatures) demo_bridge = Inr (YEA, demo_consumed)"
  by (rule demo_consume_at) (simp_all add: demo_packet_def)

lemma demo_consumed_reachable: "bridge_reachable demo_evm demo_oz demo_consumed"
  by (rule bridge_reachable.transact [OF demo_reachable, of 7 "CallConsume demo_packet (concat demo_signatures)"])
    (simp add: demo_consume)


section \<open>Histories\<close>

text \<open>
  C4. A packet is consumed once. In every history of the bridge, of two consumptions under the same
  sequence number the earlier one was of a packet whose hash is zero; the numbers the storage
  reports as consumed are those of the events, with the hash stored there; and consuming such a
  number again reverts, whoever asks and whatever the packet and the signatures are.
\<close>

theorem bridge_consumes_once:
  assumes "bridge_reachable EV Z s"
  shows "sorted_wrt (\<lambda>x y. fst x = fst y \<longrightarrow> snd x = zero32) (consumed (br_logs s)) \<and>
    (\<forall>n. isPacketConsumed n s \<longleftrightarrow> (\<exists>h. h \<noteq> zero32 \<and> (n, h) \<in> set (consumed (br_logs s)) \<and> br_consumedPackets s n = h)) \<and>
    (\<forall>sender p sigs. isPacketConsumed (sip_sequence p) s \<longrightarrow> (\<exists>e. consume EV Z sender p sigs s = Inl e))"
proof (intro conjI allI impI)
  note inv = consumed_inv_reachable [OF assms, unfolded consumed_inv_def]
  show "sorted_wrt (\<lambda>x y. fst x = fst y \<longrightarrow> snd x = zero32) (consumed (br_logs s))" using inv by blast
  show "isPacketConsumed n s \<longleftrightarrow> (\<exists>h. h \<noteq> zero32 \<and> (n, h) \<in> set (consumed (br_logs s)) \<and> br_consumedPackets s n = h)" for n
    using inv by (auto simp: isPacketConsumed_def)
  show "\<exists>e. consume EV Z sender p sigs s = Inl e" if "isPacketConsumed (sip_sequence p) s" for sender p sigs
  proof (cases "consume EV Z sender p sigs s")
    case (Inr r)
    then show ?thesis using consume_cases(2) [of EV Z sender p sigs s "fst r" "snd r"] that by simp
  qed simp
qed

theorem bridge_consumes_once_witness:
  "isPacketConsumed 5 demo_consumed \<and> (\<exists>e. consume demo_evm demo_oz 7 demo_packet [] demo_consumed = Inl e)"
proof -
  have "(5, abi_uint256 100) \<in> set (consumed (br_logs demo_consumed))"
    by (simp add: demo_consumed_def emit_def)
  moreover have "br_consumedPackets demo_consumed 5 = abi_uint256 100" by (simp add: demo_consumed_def emit_def)
  moreover have "abi_uint256 100 \<noteq> zero32" using abi_uint256_zero [of 100] by simp
  moreover have "sip_sequence demo_packet = 5" by (simp add: demo_packet_def)
  ultimately show ?thesis using bridge_consumes_once [OF demo_consumed_reachable] by metis
qed

text \<open>
  C19. Messages are dispatched under consecutive numbers. In every history of the bridge the events
  carry the numbers 1, 2, and so on up to the stored one, in this order and with version 1, and the
  storage keeps the hash of each message under its number. The next accepted message gets the next
  number; at the greatest number every message reverts, so no number is used again.
\<close>

theorem bridge_dispatches_in_order:
  assumes "bridge_reachable EV Z s"
  shows "map sop_sequence (sent_messages (br_logs s)) = map (\<lambda>k. of_nat (Suc k)) [0..<unat (br_sequence s)] \<and>
    (\<forall>p \<in> set (sent_messages (br_logs s)).
       sop_version p = 1 \<and> br_outgoingPackets s (sop_sequence p) = sol_out_hash (ev_keccak EV) p) \<and>
    (\<forall>sender p s'. sendMessage EV Z sender p s = Inr s' \<longrightarrow>
       unat (br_sequence s') = Suc (unat (br_sequence s)) \<and>
       sent_messages (br_logs s') = sent_messages (br_logs s) @ [p\<lparr>sop_version := 1, sop_sequence := br_sequence s'\<rparr>])"
proof (intro conjI allI impI)
  note inv = dispatch_inv_reachable [OF assms, unfolded dispatch_inv_def]
  show "map sop_sequence (sent_messages (br_logs s)) = map (\<lambda>k. of_nat (Suc k)) [0..<unat (br_sequence s)]"
    and "\<forall>p \<in> set (sent_messages (br_logs s)).
       sop_version p = 1 \<and> br_outgoingPackets s (sop_sequence p) = sol_out_hash (ev_keccak EV) p"
    using inv by blast+
  fix sender p s'
  assume send: "sendMessage EV Z sender p s = Inr s'"
  note c = sendMessage_cases [OF send]
  show "unat (br_sequence s') = Suc (unat (br_sequence s))"
    using c(3) unatSuc [of "br_sequence s"] by (simp add: c(4) emit_def add.commute eq_neg_iff_add_eq_0)
  show "sent_messages (br_logs s') = sent_messages (br_logs s) @ [p\<lparr>sop_version := 1, sop_sequence := br_sequence s'\<rparr>]"
    by (simp add: c(4) emit_def)
qed

definition demo_message :: sol_out_packet where
  "demo_message =
     \<lparr>sop_version = 0, sop_sequence = 0, sop_sourceTokenService = \<lparr>si_chainId = 1, si_addr = replicate 20 7\<rparr>,
      sop_destTokenService = \<lparr>so_chainId = 9, so_addr = ''s''\<rparr>,
      sop_message = \<lparr>so_senderAddress = replicate 20 3, so_destTokenAddress = ''t'', so_amount = 10, so_receiverAddress = ''u''\<rparr>,
      sop_height = 50\<rparr>"

lemma demo_send: "\<exists>s'. sendMessage demo_evm demo_oz 7 demo_message demo_bridge = Inr s'"
  by (simp add: sendMessage_def send_message_def tx_defs isSupportedChain_def isRegisteredTokenService_def Let_def
      demo_oz_def demo_message_def demo_bridge_def bridge_deployed_def)

theorem bridge_dispatches_in_order_witness:
  "\<exists>s'. sendMessage demo_evm demo_oz 7 demo_message demo_bridge = Inr s' \<and> map sop_sequence (sent_messages (br_logs s')) = [1]"
proof -
  obtain s' where s': "sendMessage demo_evm demo_oz 7 demo_message demo_bridge = Inr s'" using demo_send by blast
  have r: "bridge_reachable demo_evm demo_oz s'"
    by (rule bridge_reachable.transact [OF demo_reachable, of 7 "CallSendMessage demo_message"]) (simp add: s')
  have "br_sequence s' = 1"
    using sendMessage_cases(4) [OF s'] by (simp add: emit_def demo_bridge_def bridge_deployed_def)
  then show ?thesis using s' bridge_dispatches_in_order [OF r] by simp
qed

section \<open>Who may do what\<close>

lemma not_owner: "oz_onlyOwner Z sender (br_oz s) = Inl e \<Longrightarrow> onlyOwner Z sender s body = Inl e"
  by (simp add: onlyOwner_def)

text \<open>
  C20. Only the owner decides who takes part. A successful transaction of anybody the library does not
  take for the owner leaves the attestors, the quorum and the token services as they are, and the
  destination chain unless it is the initialisation; one of a sender that is no token service, or
  while the library reports the contract paused, leaves the packets as they are.
\<close>

theorem bridge_access:
  assumes "bridge_exec EV Z sender c s = Inr s'"
  shows "(oz_onlyOwner Z sender (br_oz s) = Inl e \<longrightarrow>
      br_attestors s' = br_attestors s \<and> br_quorumRequired s' = br_quorumRequired s \<and>
      br_tokenServices s' = br_tokenServices s \<and>
      (br_destinationChainId s' = br_destinationChainId s \<or> (\<exists>d a. c = CallInit d a))) \<and>
    (\<not> isRegisteredTokenService sender s \<or> isl (oz_whenNotPaused Z (br_oz s)) \<longrightarrow>
      br_consumedPackets s' = br_consumedPackets s \<and> br_sequence s' = br_sequence s \<and>
      br_outgoingPackets s' = br_outgoingPackets s \<and>
      consumed (br_logs s') = consumed (br_logs s) \<and> sent_messages (br_logs s') = sent_messages (br_logs s))"
proof (intro conjI impI)
  assume e: "oz_onlyOwner Z sender (br_oz s) = Inl e"
  have *: "br_attestors s' = br_attestors s \<and> br_quorumRequired s' = br_quorumRequired s \<and>
      br_tokenServices s' = br_tokenServices s \<and>
      (br_destinationChainId s' = br_destinationChainId s \<or> (\<exists>d a. c = CallInit d a))"
  proof (cases c)
    case (CallInit d a)
    then show ?thesis using assms by (auto simp: Bridge_init_def split: sum.splits)
  next
    case (CallConsume p sigs)
    then obtain v where "consume EV Z sender p sigs s = Inr (v, s')" using assms by (auto split: sum.splits)
    from consume_cases(4) [OF this] show ?thesis by (simp add: emit_def)
  next
    case (CallSendMessage p)
    then have "sendMessage EV Z sender p s = Inr s'" using assms by simp
    from sendMessage_cases(4) [OF this] show ?thesis by (simp add: emit_def)
  qed (use assms in \<open>simp_all add: pause_def unpause_def addAttestor_def removeAttestor_def addAttestors_def updateQuorum_def
      addTokenService_def removeTokenService_def updateDestinationChainId_def not_owner [OF e]\<close>)
  show "br_attestors s' = br_attestors s" "br_quorumRequired s' = br_quorumRequired s"
    "br_tokenServices s' = br_tokenServices s"
    "br_destinationChainId s' = br_destinationChainId s \<or> (\<exists>d a. c = CallInit d a)"
    using * by blast+
next
  assume closed: "\<not> isRegisteredTokenService sender s \<or> isl (oz_whenNotPaused Z (br_oz s))"
  have "same_packets s s'"
    using assms
  proof (cases rule: bridge_exec_cases)
    case (packets p sigs v)
    then have "isRegisteredTokenService sender s" "\<not> isl (oz_whenNotPaused Z (br_oz s))"
      using consume_cases(1) [OF packets(2)] by (auto simp: consume_def whenNotPaused_def split: sum.splits)
    then show ?thesis using closed by blast
  next
    case (message p)
    then have "isRegisteredTokenService sender s" "\<not> isl (oz_whenNotPaused Z (br_oz s))"
      using sendMessage_cases(1) [OF message(2)] by (auto simp: sendMessage_def whenNotPaused_def split: sum.splits)
    then show ?thesis using closed by blast
  qed
  then show "br_consumedPackets s' = br_consumedPackets s" "br_sequence s' = br_sequence s"
    "br_outgoingPackets s' = br_outgoingPackets s" "consumed (br_logs s') = consumed (br_logs s)"
    "sent_messages (br_logs s') = sent_messages (br_logs s)"
    by (simp_all add: same_packets_def)
qed

text \<open>A library whose owner is the account 4.\<close>

definition owned_oz :: "unit openzeppelin" where
  "owned_oz = demo_oz\<lparr>oz_onlyOwner := (\<lambda>a z. if a = 4 then Inr () else Inl ''Ownable: caller is not the owner'')\<rparr>"

theorem bridge_access_witness:
  "\<exists>s'. bridge_exec demo_evm owned_oz 7 (CallSendMessage demo_message) demo_bridge = Inr s' \<and>
     br_attestors s' = br_attestors demo_bridge"
proof -
  have "sendMessage demo_evm owned_oz 7 demo_message demo_bridge = sendMessage demo_evm demo_oz 7 demo_message demo_bridge"
    by (simp add: sendMessage_def whenNotPaused_def owned_oz_def)
  then obtain s' where s': "bridge_exec demo_evm owned_oz 7 (CallSendMessage demo_message) demo_bridge = Inr s'"
    using demo_send by auto
  then show ?thesis
    using bridge_access [OF s', of "''Ownable: caller is not the owner''"] by (auto simp: owned_oz_def)
qed

end
