(* ===== verification/BridgeVotes.thy ===== *)
theory BridgeVotes
  imports BridgeProps
begin

text \<open>
  The signing services of the attestors and the bridge contract together: the approvals of a quorum
  make the contract consume the packet, and a single signed rejection keeps it from doing so.
\<close>

section \<open>Signatures\<close>

text \<open>
  Documented behaviour of \<open>crypto.Sign\<close> and of the precompiled contract \<open>ecrecover\<close>: a signature
  has 65 bytes, the last being 0 or 1, and with 27 added to it yields the signer's address.
\<close>

locale ecdsa =
  fixes EV :: evm and C :: "'k eth_crypto" and addr :: "'k \<Rightarrow> address"
  assumes same_keccak: "ev_keccak EV = kec C"
    and sign_length: "length d = 32 \<Longrightarrow> crypto_Sign C d (Some k) = Inr b \<Longrightarrow> length b = 65 \<and> b ! 64 < 27"
    and sign_recovers: "length d = 32 \<Longrightarrow> crypto_Sign C d (Some k) = Inr b \<Longrightarrow>
      ev_ecrecover EV d (b ! 64 + 27) (take 32 b) (take 32 (drop 32 b)) = addr k"
begin

lemma signed_parts:
  "length d = 32 \<Longrightarrow> crypto_Sign C d (Some k) = Inr b \<Longrightarrow>
    (case signature_parts b of (v, r, s) \<Rightarrow> ev_ecrecover EV d v r s) = addr k"
  using sign_length [of d k b] sign_recovers [of d k b] by (simp add: signature_parts_def)

end

text \<open>What the service of one attestor signs, as the contract reads it.\<close>

lemma service_signature:
  assumes "ecdsa EV C addr" and "eth_hashing C E" and "uint256_packet p"
    and "eth_HashAndSign C E (Some k) \<lparr>spp_packet = Some p, spp_is_white = w\<rparr> = Inr (hsh, g)"
  defines "d \<equiv> recover_digest (ev_keccak EV) (sol_hash (ev_keccak EV) (to_contract E p)) (vote_of w)"
  shows "crypto_Sign C d (Some k) = Inr (from_hex g)" and "length (from_hex g) = 65"
    and "recover EV (sol_hash (ev_keccak EV) (to_contract E p)) (signature_parts (from_hex g)) (vote_of w) = addr k"
proof -
  note kec = ecdsa.same_keccak [OF assms(1)]
  have "eth_hash C E \<lparr>spp_packet = Some p, spp_is_white = w\<rparr> = Inr (Hash_Hex C d)"
    using eth_hashing.eth_hash_digest [OF assms(2,3), of w] by (simp add: d_def kec)
  moreover have "HexToHash C (Hash_Hex C d) = d" and len: "length d = 32"
    using eth_hashing.HexToHash_kec [OF assms(2)] eth_hashing.length_kec [OF assms(2)]
    by (simp_all add: d_def kec recover_digest_def)
  ultimately obtain b where b: "crypto_Sign C d (Some k) = Inr b" "g = ''0x'' @ hex_encode b"
    using assms(4) by (auto simp: eth_HashAndSign_def eth_sign_def split: sum.splits)
  have g: "from_hex g = b" by (simp add: b(2))
  show "crypto_Sign C d (Some k) = Inr (from_hex g)" unfolding g by (rule b(1))
  show "length (from_hex g) = 65" unfolding g using ecdsa.sign_length [OF assms(1) len b(1)] by blast
  show "recover EV (sol_hash (ev_keccak EV) (to_contract E p)) (signature_parts (from_hex g)) (vote_of w) = addr k"
    unfolding g using ecdsa.signed_parts [OF assms(1) len b(1)] by (simp add: recover_def d_def case_prod_beta)
qed

lemma zero_attestor: "bridge_reachable EV Z s \<Longrightarrow> \<not> isAttestor 0 s"
  unfolding isAttestor_def
proof (induction rule: bridge_reachable.induct)
  case (transact s sender c s')
  show ?case using transact(2)
  proof (cases rule: bridge_exec_cases)
    case (packets p sigs v)
    then show ?thesis using transact.IH by (simp add: consume_cases(4) [OF packets(2)] emit_def)
  next
    case (message p)
    then show ?thesis using transact.IH by (simp add: sendMessage_cases(4) [OF message(2)] emit_def)
  qed (use transact.IH in blast)
qed (simp_all add: bridge_deployed_def)

text \<open>
  C9. The approvals of a quorum make the contract consume the packet. In every history of the bridge,
  for a packet with 256-bit numbers that was not consumed yet: when the signing services of enough
  attestors approve it, and their signatures are concatenated in the order of the attestors'
  addresses, then a registered token service that presents them while the bridge is not paused gets
  a positive vote, and the number is consumed with the packet's hash. What could prevent it is an
  approval from which the contract, which tries the negative vote first, also recovers an attestor.
\<close>

theorem approved_packet_consumed:
  assumes "ecdsa EV C addr" and "eth_hashing C E" and "uint256_packet p" and "bridge_reachable EV Z s"
    and services: "list_all2 (\<lambda>k g. \<exists>hsh. eth_HashAndSign C E (Some k) \<lparr>spp_packet = Some p, spp_is_white = True\<rparr> = Inr (hsh, g)) ks gs"
    and attestors: "\<forall>k \<in> set ks. isAttestor (addr k) s" "sorted_wrt (<) (map addr ks)"
    and quorum: "ks \<noteq> []" "unat (br_quorumRequired s) \<le> length ks" "65 * length ks < 2 ^ 256"
    and no_accident: "\<forall>g \<in> set gs. \<not> isAttestor
        (recover EV (sol_hash (ev_keccak EV) (to_contract E p)) (signature_parts (from_hex g)) NAY) s"
    and presented: "oz_whenNotPaused Z (br_oz s) = Inr ()" "isRegisteredTokenService sender s"
        "\<not> isPacketConsumed (sip_sequence (to_contract E p)) s"
  shows "\<exists>s'. consume EV Z sender (to_contract E p) (concat (map from_hex gs)) s = Inr (YEA, s') \<and>
    br_consumedPackets s' = (br_consumedPackets s)
      (sip_sequence (to_contract E p) := sol_hash (ev_keccak EV) (to_contract E p))"
proof -
  let ?h = "sol_hash (ev_keccak EV) (to_contract E p)"
  have len: "length gs = length ks" using services by (rule list_all2_lengthD [symmetric])
  have sig: "length (from_hex (gs ! i)) = 65"
    "recover EV ?h (signature_parts (from_hex (gs ! i))) YEA = addr (ks ! i)" if i: "i < length ks" for i
  proof -
    obtain hsh where "eth_HashAndSign C E (Some (ks ! i)) \<lparr>spp_packet = Some p, spp_is_white = True\<rparr> = Inr (hsh, gs ! i)"
      using list_all2_nthD [OF services i] by blast
    from service_signature [OF assms(1,2,3) this]
    show "length (from_hex (gs ! i)) = 65"
      "recover EV ?h (signature_parts (from_hex (gs ! i))) YEA = addr (ks ! i)" by (simp_all add: vote_of_def)
  qed
  have rec: "map (\<lambda>g. recover EV ?h (signature_parts g) YEA) (map from_hex gs) = map addr ks"
    by (rule nth_equalityI) (simp_all add: len sig)
  have pos: "0 < addr k" if "k \<in> set ks" for k
    using attestors(1) that zero_attestor [OF assms(4)] by (metis word_gt_0)
  note run = consume_yea [where gs = "map from_hex gs" and p = "to_contract E p" and EV = EV, OF presented]
  have "consume EV Z sender (to_contract E p) (concat (map from_hex gs)) s =
    Inr (YEA, emit (Consumed (so_chainId (sip_sourceTokenService (to_contract E p))) (sip_sequence (to_contract E p)) ?h YEA)
      (s\<lparr>br_consumedPackets := (br_consumedPackets s)(sip_sequence (to_contract E p) := ?h)\<rparr>))"
  proof (rule run)
    show "\<forall>g \<in> set (map from_hex gs). length g = 65" using sig(1) len by (auto simp: in_set_conv_nth)
    show "map from_hex gs \<noteq> []" "65 * length (map from_hex gs) < 2 ^ 256"
      "unat (br_quorumRequired s) \<le> length (map from_hex gs)"
      using quorum len by auto
    have "isAttestor (recover EV ?h (signature_parts (from_hex g)) YEA) s" if "g \<in> set gs" for g
    proof -
      obtain i where "i < length ks" "g = gs ! i" using \<open>g \<in> set gs\<close> len by (metis in_set_conv_nth)
      then show ?thesis using sig(2) attestors(1) by simp
    qed
    then show "\<forall>g \<in> set (map from_hex gs). \<not> isAttestor (recover EV ?h (signature_parts g) NAY) s \<and>
        isAttestor (recover EV ?h (signature_parts g) YEA) s"
      using no_accident by simp
    show "sorted_wrt (<) (0 # map (\<lambda>g. recover EV ?h (signature_parts g) YEA) (map from_hex gs))"
      unfolding rec using attestors(2) pos by simp
  qed
  then show ?thesis by (simp add: emit_def)
qed

section \<open>Rejections\<close>

lemma count_votes_all:
  "count_votes EV s h sigs is lastAttestor y n = Inr r \<Longrightarrow> i \<in> set is \<Longrightarrow>
    isAttestor (recover EV h (signatureSplit sigs i) NAY) s \<or> isAttestor (recover EV h (signatureSplit sigs i) YEA) s"
proof (induction "is" arbitrary: lastAttestor y n)
  case (Cons j "is")
  then show ?case by (auto simp: Let_def require_def split: if_splits)
qed simp

lemma consumed_signature:
  assumes "consume EV Z sender p (concat gs) s = Inr (v, s')" and "\<forall>g \<in> set gs. length g = 65"
    and "65 * length gs < 2 ^ 256" and "g \<in> set gs"
  shows "\<exists>w \<in> {YEA, NAY}. isAttestor (recover EV (sol_hash (ev_keccak EV) p) (signature_parts g) w) s"
proof -
  let ?h = "sol_hash (ev_keccak EV) p"
  define s1 where "s1 = s\<lparr>br_consumedPackets := (br_consumedPackets s)(sip_sequence p := ?h)\<rparr>"
  have n: "unat (of_nat (length (concat gs)) div 65 :: uint256) = length gs"
    using assms(3) unfolding length_concat_same [OF assms(2)] unat_div by (subst unat_small) simp_all
  obtain r where votes: "count_votes EV s1 ?h (concat gs) [0..<length gs] 0 0 0 = Inr r"
    using consume_cases(3) [OF assms(1), folded s1_def] unfolding checkSignatures_def Let_def n require_def
    by (auto split: if_splits sum.splits)
  obtain i where i: "i < length gs" "g = gs ! i" using assms(4) by (auto simp: in_set_conv_nth)
  have "isAttestor a s1 = isAttestor a s" for a by (simp add: isAttestor_def s1_def)
  then show ?thesis
    using count_votes_all [OF votes, of i] i signatureSplit_concat [OF assms(2) i(1)] by auto
qed


section \<open>Instances\<close>

text \<open>The signatures of the example machine satisfy the contract, under Keccak-256 and under its own hash.\<close>

definition demo_sign :: "bytes \<Rightarrow> u8 option \<Rightarrow> bytes res" where
  "demo_sign d k = (case k of None \<Rightarrow> Inl nil_deref | Some k \<Rightarrow> Inr (demo_signature d k))"

definition keccak_crypto :: "u8 eth_crypto" where
  "keccak_crypto = go_crypto demo_sign (\<lambda>s. Inr 0) (\<lambda>k. replicate 20 k) (\<lambda>a. ''0x'' @ hex_encode a)"

definition demo_crypto :: "u8 eth_crypto" where
  "demo_crypto = keccak_crypto\<lparr>Keccak256Hash := (\<lambda>bs. fit_bytes 32 (concat bs))\<rparr>"

lemma demo_sign_parts:
  assumes "length d = 32" and "demo_sign d (Some k) = Inr b"
  shows "length b = 65 \<and> b ! 64 < 27 \<and> ev_ecrecover demo_evm d (b ! 64 + 27) (take 32 b) (take 32 (drop 32 b)) = ucast k"
proof -
  have "b = demo_signature d k" using assms(2) by (simp add: demo_sign_def)
  then show ?thesis using assms(1) by (simp add: demo_signature_def demo_evm_def nth_append)
qed

interpretation keccak_ecdsa: ecdsa "demo_evm\<lparr>ev_keccak := keccak256\<rparr>" keccak_crypto ucast
  by unfold_locales (use demo_sign_parts in \<open>auto simp: fun_eq_iff kec_def keccak_crypto_def go_crypto_def\<close>)

interpretation demo_ecdsa: ecdsa demo_evm demo_crypto ucast
  by unfold_locales
    (use demo_sign_parts in \<open>auto simp: fun_eq_iff kec_def demo_crypto_def keccak_crypto_def go_crypto_def demo_evm_def\<close>)

lemma demo_hashing: "eth_hashing demo_crypto sample_common"
  by unfold_locales
    (auto simp: demo_crypto_def keccak_crypto_def go_crypto_def sample_common_def go_common_def fit_bytes_def in_range_def)

lemma attested_hash: "sol_hash (ev_keccak demo_evm) (to_contract sample_common attested_packet) = abi_uint256 100"
  by (simp add: demo_hash to_contract_def attested_packet_def)

definition demo_text :: "vote \<Rightarrow> u8 \<Rightarrow> string" where
  "demo_text v k = ''0x'' @ hex_encode (demo_signature (drop 1 (abi_uint256 100) @ abi_vote v) k)"

lemma length_abi_vote [simp]: "length (abi_vote v) = 1"
  by (cases v) simp_all

lemma demo_text_signature [simp]: "from_hex (demo_text v k) = demo_signature (drop 1 (abi_uint256 100) @ abi_vote v) k"
  by (simp add: demo_text_def)

lemma demo_service:
  "\<exists>hsh. eth_HashAndSign demo_crypto sample_common (Some k) \<lparr>spp_packet = Some attested_packet, spp_is_white = w\<rparr> =
     Inr (hsh, demo_text (vote_of w) k)"
proof -
  let ?d = "recover_digest (kec demo_crypto) (sol_hash (kec demo_crypto) (to_contract sample_common attested_packet)) (vote_of w)"
  have d: "?d = drop 1 (abi_uint256 100) @ abi_vote (vote_of w)"
    unfolding demo_ecdsa.same_keccak [symmetric] attested_hash by (rule demo_digest) simp
  have "eth_hash demo_crypto sample_common \<lparr>spp_packet = Some attested_packet, spp_is_white = w\<rparr> = Inr (Hash_Hex demo_crypto ?d)"
    by (rule eth_hashing.eth_hash_digest [OF demo_hashing attested_uint256])
  moreover have "HexToHash demo_crypto (Hash_Hex demo_crypto ?d) = ?d"
    unfolding recover_digest_def by (rule eth_hashing.HexToHash_kec [OF demo_hashing])
  moreover have "crypto_Sign demo_crypto x (Some k) = Inr (demo_signature x k)" for x
    by (simp add: demo_crypto_def keccak_crypto_def go_crypto_def demo_sign_def)
  ultimately have "eth_HashAndSign demo_crypto sample_common (Some k) \<lparr>spp_packet = Some attested_packet, spp_is_white = w\<rparr> =
      Inr (Hash_Hex demo_crypto ?d, ''0x'' @ hex_encode (demo_signature ?d k))"
    by (simp add: eth_HashAndSign_def eth_sign_def)
  then show ?thesis unfolding d demo_text_def by blast
qed

lemma demo_recover: "recover demo_evm (abi_uint256 100) (signature_parts (demo_signature (drop 1 (abi_uint256 100) @ abi_vote v) k)) w =
    (if w = v then ucast k else 0)"
  unfolding recover_def demo_digest [OF be_bytes_Suc_0]
  by (cases v; cases w) (simp_all add: signature_parts_def demo_signature_def demo_evm_def nth_append)

lemma demo_open: "oz_whenNotPaused demo_oz (br_oz demo_bridge) = Inr ()" "isRegisteredTokenService 7 demo_bridge"
  "\<not> isPacketConsumed n demo_bridge"
  by (simp_all add: demo_oz_def isRegisteredTokenService_def isPacketConsumed_def demo_bridge_def bridge_deployed_def)

theorem approved_packet_consumed_witness:
  "\<exists>s'. consume demo_evm demo_oz 7 (to_contract sample_common attested_packet)
     (concat (map from_hex [demo_text YEA 1, demo_text YEA 3])) demo_bridge = Inr (YEA, s')"
proof -
  have services: "list_all2 (\<lambda>k g. \<exists>hsh. eth_HashAndSign demo_crypto sample_common (Some k)
      \<lparr>spp_packet = Some attested_packet, spp_is_white = True\<rparr> = Inr (hsh, g)) [1, 3] [demo_text YEA 1, demo_text YEA 3]"
    using demo_service [of 1 True] demo_service [of 3 True] by (simp add: vote_of_def)
  have attestors: "\<forall>k \<in> set [1, 3 :: u8]. isAttestor (ucast k) demo_bridge" "sorted_wrt (<) (map ucast [1, 3 :: u8] :: address list)"
    by (simp_all add: isAttestor_def demo_bridge_def)
  have quorum: "[1, 3 :: u8] \<noteq> []" "unat (br_quorumRequired demo_bridge) \<le> length [1, 3 :: u8]" "65 * length [1, 3 :: u8] < 2 ^ 256"
    by (simp_all add: demo_bridge_def)
  have accident: "\<forall>g \<in> set [demo_text YEA 1, demo_text YEA 3]. \<not> isAttestor (recover demo_evm
      (sol_hash (ev_keccak demo_evm) (to_contract sample_common attested_packet)) (signature_parts (from_hex g)) NAY) demo_bridge"
    using demo_recover [of YEA _ NAY] by (simp add: attested_hash isAttestor_def demo_bridge_def)
  show ?thesis
    using approved_packet_consumed [OF demo_ecdsa.ecdsa_axioms demo_hashing attested_uint256 demo_reachable services
        attestors quorum accident demo_open] by blast
qed


end
