(* ===== verification/BridgeFeed.thy ===== *)
theory BridgeFeed
  imports BridgeProps EthProps
begin

text \<open>
  From the contract to the relay: the messages that the bridge contract dispatches, read by the
  Ethereum client off a node that serves the contract's log.
\<close>

section \<open>The log of the chain\<close>

text \<open>
  The transactions to the contract, each with the height of its block. One that reverts changes
  nothing; of the others each new message is in the log with the height of the block.
\<close>

fun run_chain :: "evm \<Rightarrow> 'o openzeppelin \<Rightarrow> (u64 \<times> address \<times> bridge_call) list \<Rightarrow>
    'o bridge \<times> (u64 \<times> sol_out_packet) list \<Rightarrow> 'o bridge \<times> (u64 \<times> sol_out_packet) list" where
  "run_chain EV Z [] x = x"
| "run_chain EV Z ((h, sender, c) # txs) (s, logs) =
     (case bridge_exec EV Z sender c s of
        Inl e \<Rightarrow> run_chain EV Z txs (s, logs)
      | Inr s' \<Rightarrow> run_chain EV Z txs
          (s', logs @ map (Pair h) (drop (length (sent_messages (br_logs s))) (sent_messages (br_logs s')))))"

lemma exec_messages:
  assumes "bridge_exec EV Z sender c s = Inr s'"
  shows "\<exists>ps. sent_messages (br_logs s') = sent_messages (br_logs s) @ ps"
  using assms
proof (cases rule: bridge_exec_cases)
  case (packets p sigs v)
  then show ?thesis by (simp add: consume_cases(4) [OF packets(2)] emit_def)
next
  case (message p)
  then show ?thesis by (simp add: sendMessage_cases(4) [OF message(2)] emit_def)
next
  case admin
  then show ?thesis by (simp add: same_packets_def)
qed

definition chain_inv :: "evm \<Rightarrow> 'o openzeppelin \<Rightarrow> 'o bridge \<times> (u64 \<times> sol_out_packet) list \<Rightarrow> bool" where
  "chain_inv EV Z x \<longleftrightarrow> bridge_reachable EV Z (fst x) \<and> map snd (snd x) = sent_messages (br_logs (fst x)) \<and> sorted (map fst (snd x))"

lemma run_chain_inv:
  "chain_inv EV Z x \<Longrightarrow> sorted (map fst txs) \<Longrightarrow> \<forall>l \<in> set (snd x). \<forall>t \<in> set txs. fst l \<le> fst t \<Longrightarrow>
    chain_inv EV Z (run_chain EV Z txs x) \<and> fst ` set (snd (run_chain EV Z txs x)) \<subseteq> fst ` set (snd x) \<union> fst ` set txs"
proof (induction EV Z txs x rule: run_chain.induct)
  case (2 EV Z h sender c txs s logs)
  show ?case
  proof (cases "bridge_exec EV Z sender c s")
    case (Inl e)
    then show ?thesis using 2 by auto
  next
    case (Inr s')
    obtain ps where ps: "sent_messages (br_logs s') = sent_messages (br_logs s) @ ps" using exec_messages [OF Inr] by blast
    let ?x = "(s', logs @ map (Pair h) ps)"
    have "chain_inv EV Z ?x"
      using 2(3,5) bridge_reachable.transact [OF _ Inr] by (auto simp: chain_inv_def ps o_def sorted_append map_replicate_const)
    moreover have "sorted (map fst txs)" "\<forall>l \<in> set (snd ?x). \<forall>t \<in> set txs. fst l \<le> fst t"
      using 2(4,5) by auto
    ultimately have "chain_inv EV Z (run_chain EV Z txs ?x) \<and>
        fst ` set (snd (run_chain EV Z txs ?x)) \<subseteq> fst ` set (snd ?x) \<union> fst ` set txs"
      using 2(2) [OF Inr] by (simp add: ps)
    moreover have "run_chain EV Z ((h, sender, c) # txs) (s, logs) = run_chain EV Z txs ?x" by (simp add: Inr ps)
    ultimately show ?thesis by auto
  qed
qed auto

section \<open>The client\<close>

text \<open>The event as the generated decoder yields it, with numbers as big integers.\<close>

definition decoded :: "sol_out_packet \<Rightarrow> out_packet" where
  "decoded p =
     \<lparr>op_Version = uint (sop_version p), op_Sequence = uint (sop_sequence p),
      op_SourceTokenService = \<lparr>ia_ChainId = uint (si_chainId (sop_sourceTokenService p)),
                               ia_Addr = si_addr (sop_sourceTokenService p)\<rparr>,
      op_DestTokenService = \<lparr>oa_ChainId = uint (so_chainId (sop_destTokenService p)),
                             oa_Addr = so_addr (sop_destTokenService p)\<rparr>,
      op_Message = \<lparr>om_SenderAddress = so_senderAddress (sop_message p), om_DestTokenAddress = so_destTokenAddress (sop_message p),
                    om_Amount = uint (so_amount (sop_message p)), om_ReceiverAddress = so_receiverAddress (sop_message p)\<rparr>,
      op_Height = uint (sop_height p)\<rparr>"

lemma sequence_decoded:
  assumes "k < 2 ^ 256"
  shows "sop_sequence p = of_nat k \<Longrightarrow> p_sequence (commonPacket N (decoded p)) = of_nat k"
  using unat_small [OF assms] by (simp add: commonPacket_def decoded_def big_uint64_def nat_uint_eq)

lemma filter_prefix: "sorted (map f xs) \<Longrightarrow> filter (\<lambda>x. f x \<le> b) xs = take (length (filter (\<lambda>x. f x \<le> b) xs)) xs"
  for f :: "'a \<Rightarrow> u64"
proof (induction xs)
  case (Cons x xs)
  show ?case
  proof (cases "f x \<le> b")
    case False
    then have "\<forall>y \<in> set xs. \<not> f y \<le> b" using Cons.prems by auto
    then show ?thesis using False by (simp add: filter_empty_conv)
  qed (use Cons in simp)
qed simp

text \<open>
  C10. What the contract dispatches the relay reads, complete and in order. For every history of
  transactions in blocks of ascending height, when a node serves the contract's log and its chain
  identifiers are all configured at the client: a tick of the feed that starts at the first block
  ends, and puts on the channel the messages of the matured blocks, numbered 1, 2, and so on without
  gap or repetition, each with the content of its event.
\<close>

theorem dispatched_messages_fed:
  assumes run: "run_chain EV Z txs (bridge_deployed oz, []) = (s, logs)" "sorted (map fst txs)"
    and node: "eth_logs N (ec_address cl) (ec_filterTopic cl) logs fst"
      "\<forall>l \<in> set logs. en_ParsePacketDispatched N l = Inr (decoded (snd l))"
    and chains: "\<forall>l \<in> set logs. bigint_str (Some (uint (so_chainId (sop_destTokenService (snd l))))) \<in> set (ec_destChainsIDMap cl)"
    and client: "ec_nextBlockHeight cl = 0"
    and readings: "sorted hs" "hs \<noteq> []" "\<forall>h \<in> set hs. unat h < 2 ^ 63" "ec_waitHeight cl \<le> hd hs"
  shows "\<exists>h es rest cl'. h \<in> set hs \<and> feed_tick an (map (\<lambda>h. (Inr h, N)) hs) cl [] = Some (cl', es, rest) \<and>
    (let m = length (filter (\<lambda>l. fst l \<le> h - ec_waitHeight cl) logs) in
     fed es = map (commonPacket N \<circ> decoded) (take m (sent_messages (br_logs s))) \<and>
     map p_sequence (fed es) = map (\<lambda>k. of_nat (Suc k)) [0..<m])"
proof -
  have inv: "chain_inv EV Z (s, logs)"
    using run_chain_inv [of EV Z "(bridge_deployed oz, [])" txs] run bridge_reachable.deploy [of EV Z oz]
    by (simp add: chain_inv_def bridge_deployed_def)
  have snd_logs: "map snd logs = sent_messages (br_logs s)" and sorted: "sorted (map fst logs)"
    and numbers: "map sop_sequence (sent_messages (br_logs s)) = map (\<lambda>k. of_nat (Suc k)) [0..<unat (br_sequence s)]"
    using inv dispatch_inv_reachable [of EV Z s] unfolding chain_inv_def dispatch_inv_def fst_conv snd_conv by blast+
  obtain h es rest cl' where h: "h \<in> set hs" "feed_tick an (map (\<lambda>h. (Inr h, N)) hs) cl [] = Some (cl', es, rest)"
    and es: "fed es = filter (supported cl) (packets_between N logs fst 0 (h - ec_waitHeight cl))"
    using eth_logs.feed_tick_readings [OF node(1) refl refl readings(1-4), of an "[]"] client by auto
  let ?P = "\<lambda>l. fst l \<le> h - ec_waitHeight cl"
  let ?m = "length (filter ?P logs)"
  have pre: "filter ?P logs = take ?m logs" by (rule filter_prefix [OF sorted])
  have "packets_between N logs fst 0 (h - ec_waitHeight cl) = map (\<lambda>l. commonPacket N (decoded (snd l))) (filter ?P logs)"
    unfolding packets_between_def using node(2) by simp
  moreover have "supported cl (commonPacket N (decoded (snd l)))" if "l \<in> set logs" for l
    using chains that by (simp add: supported_def commonPacket_def decoded_def)
  ultimately have "fed es = map (\<lambda>l. commonPacket N (decoded (snd l))) (filter ?P logs)"
    unfolding es by (simp add: filter_map o_def cong: filter_cong)
  then have fed: "fed es = map (commonPacket N \<circ> decoded) (take ?m (sent_messages (br_logs s)))"
    unfolding snd_logs [symmetric] by (subst (asm) pre) (simp add: take_map)
  have m: "?m \<le> unat (br_sequence s)"
    using arg_cong [OF snd_logs, of length] arg_cong [OF numbers, of length] length_filter_le [of ?P logs] by simp
  have "map p_sequence (fed es) = map (\<lambda>k. of_nat (Suc k)) [0..<?m]"
  proof (rule nth_equalityI)
    show "length (map p_sequence (fed es)) = length (map (\<lambda>k. of_nat (Suc k)) [0..<?m])"
      using m arg_cong [OF numbers, of length] by (simp add: fed)
    fix i
    assume "i < length (map p_sequence (fed es))"
    then have i: "i < ?m" "i < length (sent_messages (br_logs s))" by (simp_all add: fed)
    then have number: "sop_sequence (sent_messages (br_logs s) ! i) = of_nat (Suc i)"
      using arg_cong [OF numbers, of "\<lambda>xs. xs ! i"] m by (simp del: of_nat_Suc)
    have "Suc i < 2 ^ 256" using i(1) m unat_u256 [of "br_sequence s"] by linarith
    from sequence_decoded [OF this number] show "map p_sequence (fed es) ! i = map (\<lambda>k. of_nat (Suc k)) [0..<?m] ! i"
      using i by (simp add: fed del: of_nat_Suc)
  qed
  then show ?thesis using h fed unfolding Let_def by blast
qed

text \<open>Two messages in different blocks, of which the first has matured.\<close>

definition demo_txs :: "(u64 \<times> address \<times> bridge_call) list" where
  "demo_txs = [(5, 0, CallAddTokenService 7), (5, 0, CallUpdateDestinationChainId 2),
     (10, 7, CallSendMessage (demo_message\<lparr>sop_destTokenService := \<lparr>so_chainId = 2, so_addr = ''s''\<rparr>\<rparr>)),
     (11, 8, CallSendMessage demo_message),
     (140, 7, CallSendMessage (demo_message\<lparr>sop_destTokenService := \<lparr>so_chainId = 2, so_addr = ''s''\<rparr>\<rparr>))]"

definition demo_logs :: "(u64 \<times> sol_out_packet) list" where
  "demo_logs = map (\<lambda>(h, n). (h, demo_message\<lparr>sop_destTokenService := \<lparr>so_chainId = 2, so_addr = ''s''\<rparr>,
     sop_version := 1, sop_sequence := n\<rparr>)) [(10, 1), (140, 2)]"

lemma demo_run: "\<exists>s. run_chain demo_evm demo_oz demo_txs (bridge_deployed (), []) = (s, demo_logs)"
  by (simp add: demo_txs_def demo_logs_def addTokenService_def updateDestinationChainId_def sendMessage_def send_message_def
      tx_defs isRegisteredTokenService_def isSupportedChain_def Let_def demo_oz_def bridge_deployed_def sent_messages_def
      demo_message_def)

definition demo_node :: "(u64 \<times> sol_out_packet) eth_node" where
  "demo_node =
     \<lparr>en_FilterLogs = (\<lambda>q. Inr (filter (\<lambda>l. fq_FromBlock q \<le> uint (fst l) \<and> uint (fst l) \<le> fq_ToBlock q) demo_logs)),
      en_ParsePacketDispatched = (\<lambda>l. Inr (decoded (snd l))),
      en_Hex = (\<lambda>b. ''0x'' @ hex_encode b)\<rparr>"

interpretation demo_served: eth_logs demo_node "[]" "[]" demo_logs fst
  by unfold_locales (simp_all add: demo_node_def demo_logs_def)

definition demo_reader :: eth_client where "demo_reader = sample_client\<lparr>ec_nextBlockHeight := 0\<rparr>"

lemma demo_reader_simps [simp]:
  "ec_address demo_reader = []" "ec_filterTopic demo_reader = []" "ec_destChainsIDMap demo_reader = [''2'']"
  "ec_nextBlockHeight demo_reader = 0" "ec_waitHeight demo_reader = 20"
  by (simp_all add: demo_reader_def sample_client_def)

theorem dispatched_messages_fed_witness:
  "\<exists>es rest cl'. feed_tick ''a'' [(Inr 150, demo_node)] demo_reader [] = Some (cl', es, rest) \<and> map p_sequence (fed es) = [1]"
proof -
  obtain s where s: "run_chain demo_evm demo_oz demo_txs (bridge_deployed (), []) = (s, demo_logs)" using demo_run by blast
  have txs: "sorted (map fst demo_txs)" by (simp add: demo_txs_def)
  have node: "eth_logs demo_node (ec_address demo_reader) (ec_filterTopic demo_reader) demo_logs fst"
    "\<forall>l \<in> set demo_logs. en_ParsePacketDispatched demo_node l = Inr (decoded (snd l))"
    using demo_served.eth_logs_axioms by simp (simp add: demo_node_def)
  have chains: "\<forall>l \<in> set demo_logs. bigint_str (Some (uint (so_chainId (sop_destTokenService (snd l)))))
      \<in> set (ec_destChainsIDMap demo_reader)"
    by (simp add: demo_logs_def bigint_str_def itoa_int_def itoa.simps digit_char_def char_of_eq_iff take_bit_eq_mod)
  have m: "length (filter (\<lambda>l. fst l \<le> 150 - ec_waitHeight demo_reader) demo_logs) = 1" by (simp add: demo_logs_def)
  obtain h es rest cl' where "h \<in> set [150]" "feed_tick ''a'' (map (\<lambda>h. (Inr h, demo_node)) [150]) demo_reader [] = Some (cl', es, rest)"
      "map p_sequence (fed es) = map (\<lambda>k. of_nat (Suc k)) [0..<length (filter (\<lambda>l. fst l \<le> h - ec_waitHeight demo_reader) demo_logs)]"
    using dispatched_messages_fed [OF s txs node chains, of "[150]" "''a''"] unfolding Let_def by auto
  then show ?thesis using m by auto
qed

end
