(* ===== verification/AleoAddress.thy ===== *)
theory AleoAddress
  imports BridgeContract
begin

text \<open>
  \<open>solidity/contracts/common/libraries/AleoAddressLibrary.sol\<close>: the check of an Aleo address before
  tokens are sent to it. The last 58 of its 63 characters are digits of base 32 with a checksum.
\<close>

unbundle bit_operations_syntax

section \<open>The library\<close>

definition ALPHABET_INDEX_STR :: string where "ALPHABET_INDEX_STR = ''qpzry9x8gf2tvdw0s3jn54khce6mua7l''"

text \<open>The loop over the alphabet from position \<open>i\<close> on.\<close>

fun alphabet_index :: "string \<Rightarrow> char \<Rightarrow> u8 \<Rightarrow> u8 tx" where
  "alphabet_index [] character i = Inl ''Character not found in alphabet''"
| "alphabet_index (c # cs) character i = (if c = character then Inr i else alphabet_index cs character (i + 1))"

definition getAlphabetIndex :: "char \<Rightarrow> u8 tx" where
  "getAlphabetIndex character = alphabet_index ALPHABET_INDEX_STR character 0"

definition polymodStep :: "uint256 \<Rightarrow> uint256" where
  "polymodStep pre =
     (let b = drop_bit 25 pre in
      push_bit 5 (pre AND 0x1ffffff) XOR
      (if drop_bit 0 b AND 1 = 0 then 0 else 0x3b6a57b2) XOR
      (if drop_bit 1 b AND 1 = 0 then 0 else 0x26508e6d) XOR
      (if drop_bit 2 b AND 1 = 0 then 0 else 0x1ea119fa) XOR
      (if drop_bit 3 b AND 1 = 0 then 0 else 0x3d4233dd) XOR
      (if drop_bit 4 b AND 1 = 0 then 0 else 0x2a1462b3))"

fun checksum :: "string \<Rightarrow> uint256 \<Rightarrow> uint256 tx" where
  "checksum [] chk = Inr chk"
| "checksum (c # cs) chk =
     (case getAlphabetIndex c of
        Inl e \<Rightarrow> Inl e
      | Inr v \<Rightarrow> checksum cs (polymodStep chk XOR ucast v))"

definition validateAleoAddr :: "string \<Rightarrow> bool tx" where
  "validateAleoAddr addr =
     require (length addr = 63) ''Invalid Aleo address length''
       (let addrBytes = map (\<lambda>i. addr ! (i + 5)) [0..<58] in
        case checksum addrBytes 393502710 of
          Inl e \<Rightarrow> Inl e
        | Inr chk \<Rightarrow> require (chk = 0x2bc830a3) ''Invalid checksum'' (Inr True))"

text \<open>\<open>validateAleoAddress\<close> of the bridge.\<close>

definition validateAleoAddress :: "string \<Rightarrow> bool tx" where
  "validateAleoAddress addr = validateAleoAddr addr"

section \<open>One step of the checksum\<close>

text \<open>What the upper five bits contribute.\<close>

definition feedback :: "uint256 \<Rightarrow> uint256" where
  "feedback b =
     (if \<not> bit b 0 then 0 else 0x3b6a57b2) XOR (if \<not> bit b 1 then 0 else 0x26508e6d) XOR
     (if \<not> bit b 2 then 0 else 0x1ea119fa) XOR (if \<not> bit b 3 then 0 else 0x3d4233dd) XOR
     (if \<not> bit b 4 then 0 else 0x2a1462b3)"

lemma polymodStep_eq: "polymodStep w = push_bit 5 (take_bit 25 w) XOR feedback (drop_bit 25 w)"
proof -
  have 1: "w AND 0x1ffffff = take_bit 25 w" by (simp add: take_bit_eq_mask mask_eq_exp_minus_1)
  have 2: "drop_bit n b AND 1 = 0 \<longleftrightarrow> \<not> bit b n" for n and b :: uint256
    by (simp add: and_one_eq bit_iff_odd_drop_bit mod_2_eq_odd)
  show ?thesis unfolding polymodStep_def feedback_def Let_def 1 2 by (simp only: xor.assoc)
qed

lemma polymodStep_small: "take_bit 30 (polymodStep w) = polymodStep w"
proof -
  have "take_bit 30 (feedback b) = feedback b" for b by (simp add: feedback_def take_bit_xor)
  then show ?thesis unfolding polymodStep_eq by (simp add: take_bit_xor take_bit_push_bit)
qed

text \<open>The five bits can be read off the last five of what they contribute.\<close>

lemma feedback_bits:
  fixes b :: uint256
  shows "bit b 4 \<longleftrightarrow> (bit (feedback b) 0 \<noteq> bit (feedback b) 2)"
    and "bit b 2 \<longleftrightarrow> (bit (feedback b) 2 \<noteq> bit (feedback b) 3)"
    and "bit b 3 \<longleftrightarrow> (bit (feedback b) 4 \<noteq> bit (feedback b) 1)"
    and "bit b 1 \<longleftrightarrow> (bit b 3 \<noteq> bit (feedback b) 2)"
    and "bit b 0 \<longleftrightarrow> ((bit b 2 \<noteq> bit b 4) \<noteq> bit (feedback b) 1)"
  unfolding feedback_def by (simp_all add: bit_xor_iff)

lemma feedback_inj:
  assumes "take_bit 5 (feedback b) = take_bit 5 (feedback b')" and "n < 5"
  shows "bit b n \<longleftrightarrow> bit b' n"
proof -
  have f: "bit (feedback b) k \<longleftrightarrow> bit (feedback b') k" if "k < 5" for k
    using arg_cong [OF assms(1), of "\<lambda>w. bit w k"] that by (simp add: bit_take_bit_iff)
  have fs: "bit (feedback b) 0 = bit (feedback b') 0" "bit (feedback b) 1 = bit (feedback b') 1"
    "bit (feedback b) 2 = bit (feedback b') 2" "bit (feedback b) 3 = bit (feedback b') 3"
    "bit (feedback b) 4 = bit (feedback b') 4"
    by (rule f, simp)+
  have 4: "bit b 4 \<longleftrightarrow> bit b' 4" by (simp only: feedback_bits(1) [of b] feedback_bits(1) [of b'] fs)
  have 2: "bit b 2 \<longleftrightarrow> bit b' 2" by (simp only: feedback_bits(2) [of b] feedback_bits(2) [of b'] fs)
  have 3: "bit b 3 \<longleftrightarrow> bit b' 3" by (simp only: feedback_bits(3) [of b] feedback_bits(3) [of b'] fs)
  have 1: "bit b 1 \<longleftrightarrow> bit b' 1" by (simp only: feedback_bits(4) [of b] feedback_bits(4) [of b'] fs 3)
  have 0: "bit b 0 \<longleftrightarrow> bit b' 0" by (simp only: feedback_bits(5) [of b] feedback_bits(5) [of b'] fs 2 4)
  have "n = 0 \<or> n = 1 \<or> n = 2 \<or> n = 3 \<or> n = 4" using assms(2) by arith
  then show ?thesis by (elim disjE) (simp_all only: 0 1 2 3 4)
qed

lemma xor_cancel:
  fixes a b c :: uint256
  assumes "a XOR c = b XOR c"
  shows "a = b"
proof -
  have "(a XOR c) XOR c = (b XOR c) XOR c" by (simp only: assms)
  then show ?thesis by (simp add: xor.assoc)
qed

lemma polymodStep_inj:
  assumes "polymodStep w = polymodStep w'" and "take_bit 30 w = w" and "take_bit 30 w' = w'"
  shows "w = w'"
proof (rule bit_word_eqI)
  fix n
  have low: "take_bit 5 (polymodStep v) = take_bit 5 (feedback (drop_bit 25 v))" for v
    unfolding polymodStep_eq by (simp add: take_bit_xor take_bit_push_bit)
  have up: "bit w (25 + k) \<longleftrightarrow> bit w' (25 + k)" if "k < 5" for k
    using feedback_inj [of "drop_bit 25 w" "drop_bit 25 w'" k] low [of w] low [of w'] assms(1) that
    by (simp add: bit_drop_bit_eq)
  have "feedback (drop_bit 25 w) = feedback (drop_bit 25 w')"
    using up [of 0] up [of 1] up [of 2] up [of 3] up [of 4] by (simp add: feedback_def bit_drop_bit_eq)
  then have "push_bit 5 (take_bit 25 w) = push_bit 5 (take_bit 25 w')"
    using assms(1) xor_cancel unfolding polymodStep_eq by simp
  then have shifted: "bit (push_bit 5 (take_bit 25 w)) (k + 5) = bit (push_bit 5 (take_bit 25 w')) (k + 5)" for k by simp
  have down: "bit w k \<longleftrightarrow> bit w' k" if "k < 25" for k
    using shifted [of k] that by (simp add: bit_push_bit_iff bit_take_bit_iff)
  show "bit w n \<longleftrightarrow> bit w' n"
  proof (cases "n < 25")
    case False
    show ?thesis
    proof (cases "n < 30")
      case True
      then show ?thesis using up [of "n - 25"] False by simp
    next
      case False
      then show ?thesis using assms(2,3) bit_take_bit_iff [of 30 w n] bit_take_bit_iff [of 30 w' n] by simp
    qed
  qed (rule down)
qed

section \<open>The checksum\<close>

lemma alphabet_index_range: "alphabet_index cs c i = Inr v \<Longrightarrow> unat i + length cs < 256 \<Longrightarrow> \<exists>k < length cs. v = i + of_nat k \<and> cs ! k = c"
proof (induction cs arbitrary: i)
  case (Cons d cs)
  show ?case
  proof (cases "d = c")
    case False
    then have rest: "alphabet_index cs c (i + 1) = Inr v" using Cons.prems by simp
    have "unat (i + 1) + length cs < 256" using Cons.prems(2) by (simp add: unat_word_ariths)
    from Cons.IH [OF rest this] obtain k where "k < length cs" "v = i + 1 + of_nat k" "cs ! k = c" by blast
    then show ?thesis by (intro exI [of _ "Suc k"]) simp
  qed (use Cons.prems in \<open>intro exI [of _ 0], simp\<close>)
qed simp

lemma getAlphabetIndex_inj:
  assumes "getAlphabetIndex c = Inr v" and "getAlphabetIndex d = Inr v"
  shows "c = d"
proof -
  have len: "length ALPHABET_INDEX_STR = 32" by (simp add: ALPHABET_INDEX_STR_def)
  obtain k where k: "k < 32" "v = of_nat k" "ALPHABET_INDEX_STR ! k = c"
    using alphabet_index_range [of ALPHABET_INDEX_STR c 0 v] assms(1) by (auto simp: getAlphabetIndex_def len)
  obtain j where j: "j < 32" "v = of_nat j" "ALPHABET_INDEX_STR ! j = d"
    using alphabet_index_range [of ALPHABET_INDEX_STR d 0 v] assms(2) by (auto simp: getAlphabetIndex_def len)
  have "unat (of_nat n :: u8) = n" if "n < 32" for n :: nat using that by (simp add: unat_of_nat)
  then have "k = j" using k(1,2) j(1,2) by metis
  then show ?thesis using k j by simp
qed

lemma ucast_small: "take_bit 30 (ucast (v :: u8) :: uint256) = ucast v"
proof (rule bit_word_eqI)
  fix n
  have "bit v n \<Longrightarrow> n < 8" using bit_imp_le_length [of v n] by simp
  then show "bit (take_bit 30 (ucast v :: uint256)) n = bit (ucast v :: uint256) n"
    by (auto simp: bit_take_bit_iff bit_ucast_iff)
qed

lemma checksum_small: "checksum cs chk = Inr r \<Longrightarrow> take_bit 30 chk = chk \<Longrightarrow> take_bit 30 r = r"
proof (induction cs arbitrary: chk)
  case (Cons c cs)
  then obtain v :: u8 where "checksum cs (polymodStep chk XOR ucast v) = Inr r" by (cases "getAlphabetIndex c") auto
  then show ?case using Cons.IH polymodStep_small ucast_small by (metis take_bit_xor)
qed simp

lemma checksum_append:
  "checksum (cs @ ds) chk = (case checksum cs chk of Inl e \<Rightarrow> Inl e | Inr r \<Rightarrow> checksum ds r)"
  by (induction cs arbitrary: chk) (auto split: sum.split)

lemma checksum_inj:
  "checksum cs x = Inr r \<Longrightarrow> checksum cs y = Inr r \<Longrightarrow> take_bit 30 x = x \<Longrightarrow> take_bit 30 y = y \<Longrightarrow> x = y"
proof (induction cs arbitrary: x y)
  case (Cons c cs)
  then obtain v where v: "getAlphabetIndex c = Inr v" by (auto split: sum.splits)
  have small: "take_bit 30 (polymodStep w XOR ucast v) = polymodStep w XOR ucast v" for w
    by (simp add: take_bit_xor polymodStep_small ucast_small)
  have "polymodStep x XOR ucast v = polymodStep y XOR ucast v"
    using Cons.IH [OF _ _ small small] Cons.prems(1,2) v by simp
  then show ?case using xor_cancel polymodStep_inj Cons.prems(3,4) by blast
qed simp

lemma ucast_inj_u8:
  assumes "ucast (v :: u8) = (ucast w :: uint256)"
  shows "v = w"
proof -
  have "unat (ucast x :: uint256) = unat x" for x :: u8
    using unsigned_less [of x, where ?'a = nat] by (simp add: unsigned_ucast_eq take_bit_nat_eq_self)
  then show ?thesis using assms by (metis word_unat_eq_iff)
qed

section \<open>Substituted characters\<close>

lemma checked_part: "length addr = 63 \<Longrightarrow> map (\<lambda>i. addr ! (i + 5)) [0..<58] = drop 5 addr"
  by (rule nth_equalityI) (simp_all add: add.commute)

lemma validate_iff:
  "validateAleoAddr addr = Inr b \<longleftrightarrow> b \<and> length addr = 63 \<and> checksum (drop 5 addr) 393502710 = Inr 0x2bc830a3"
  by (cases "length addr = 63")
    (auto simp: validateAleoAddr_def require_def Let_def checked_part split: sum.splits)

lemma checksum_substitution:
  assumes "checksum cs chk = Inr r" and "checksum (cs[i := d]) chk = Inr r" and "take_bit 30 chk = chk" and "i < length cs"
  shows "d = cs ! i"
proof -
  let ?x = "take i cs" and ?y = "drop (Suc i) cs"
  have cs: "cs = ?x @ cs ! i # ?y" "cs[i := d] = ?x @ d # ?y"
    using assms(4) by (simp_all add: id_take_nth_drop upd_conv_take_nth_drop)
  have split: "checksum cs chk = (case checksum ?x chk of Inl e \<Rightarrow> Inl e | Inr r \<Rightarrow> checksum (cs ! i # ?y) r)"
    "checksum (cs[i := d]) chk = (case checksum ?x chk of Inl e \<Rightarrow> Inl e | Inr r \<Rightarrow> checksum (d # ?y) r)"
    unfolding checksum_append [symmetric] cs [symmetric] by simp_all
  obtain m where m: "checksum ?x chk = Inr m"
    using assms(1) split(1) by (cases "checksum ?x chk") simp_all
  then have small: "take_bit 30 m = m" using checksum_small assms(3) by blast
  have "checksum (cs ! i # ?y) m = Inr r"
    using assms(1) unfolding split(1) m by simp
  then obtain v where v: "getAlphabetIndex (cs ! i) = Inr v" "checksum ?y (polymodStep m XOR ucast v) = Inr r"
    by (cases "getAlphabetIndex (cs ! i)") auto
  have "checksum (d # ?y) m = Inr r"
    using assms(2) unfolding split(2) m by simp
  then obtain w where w: "getAlphabetIndex d = Inr w" "checksum ?y (polymodStep m XOR ucast w) = Inr r"
    by (cases "getAlphabetIndex d") auto
  have "take_bit 30 (polymodStep m XOR ucast u) = polymodStep m XOR ucast u" for u :: u8
    by (simp add: take_bit_xor polymodStep_small ucast_small)
  then have "polymodStep m XOR ucast v = polymodStep m XOR ucast w" using checksum_inj v(2) w(2) by blast
  then have "ucast v = (ucast w :: uint256)" using xor_cancel [of "ucast v" "polymodStep m" "ucast w"] by (simp add: xor.commute)
  then show ?thesis using ucast_inj_u8 v(1) w(1) getAlphabetIndex_inj by blast
qed

text \<open>
  C21. The check of an Aleo address finds a wrong character behind the first five. When one
  character of an accepted address is replaced, the result is rejected exactly when the position is
  not among the first five: the checksum tells every single substitution in the 58 characters
  it covers, and the prefix \<open>aleo1\<close> is never looked at.
\<close>

theorem aleo_address_substitution:
  assumes "validateAleoAddr addr = Inr True" and "i < 63" and "d \<noteq> addr ! i"
  shows "(\<exists>e. validateAleoAddr (addr[i := d]) = Inl e) \<longleftrightarrow> 5 \<le> i"
proof -
  have valid: "length addr = 63" "checksum (drop 5 addr) 393502710 = Inr 0x2bc830a3"
    using assms(1) by (simp_all add: validate_iff)
  have left: "(\<exists>e. validateAleoAddr a = Inl e) \<longleftrightarrow> validateAleoAddr a \<noteq> Inr True" for a
  proof (cases "validateAleoAddr a")
    case (Inr b)
    then have b using validate_iff [of a b] by blast
    then show ?thesis using Inr by simp
  qed simp
  show ?thesis
  proof (cases "5 \<le> i")
    case True
    have "drop 5 (addr[i := d]) = (drop 5 addr)[i - 5 := d]" using True by (simp add: drop_update_swap)
    moreover have "i - 5 < length (drop 5 addr)" "drop 5 addr ! (i - 5) = addr ! i"
      using True assms(2) valid(1) by simp_all
    moreover have "take_bit 30 (393502710 :: uint256) = 393502710" by simp
    ultimately have "checksum (drop 5 (addr[i := d])) 393502710 \<noteq> Inr 0x2bc830a3"
      using checksum_substitution [OF valid(2)] assms(3) by metis
    then show ?thesis using True unfolding left validate_iff by simp
  next
    case False
    then have "drop 5 (addr[i := d]) = drop 5 addr" by simp
    then show ?thesis using False valid unfolding left validate_iff by simp
  qed
qed

definition sample_aleo_address :: string where
  "sample_aleo_address = ''aleo1fg8y0ax9g0yhahrknngzwxkpcf7ejy3mm6cent4mmtwew5ueps8s6jzl27''"

lemma sample_address_valid: "validateAleoAddr sample_aleo_address = Inr True"
proof -
  have "checksum (drop 5 sample_aleo_address) 393502710 = Inr 0x2bc830a3"
    by (simp add: sample_aleo_address_def polymodStep_def getAlphabetIndex_def ALPHABET_INDEX_STR_def Let_def)
  then show ?thesis by (simp add: validate_iff) (simp add: sample_aleo_address_def)
qed

text \<open>The Aleo address with a prefix of another chain is accepted, one with a wrong digit is not.\<close>

theorem aleo_address_substitution_witness:
  "validateAleoAddr (sample_aleo_address[0 := CHR ''b'']) = Inr True \<and>
    (\<exists>e. validateAleoAddr (sample_aleo_address[5 := CHR ''g'']) = Inl e)"
proof -
  have "CHR ''b'' \<noteq> sample_aleo_address ! 0" "CHR ''g'' \<noteq> sample_aleo_address ! 5"
    by (simp_all add: sample_aleo_address_def)
  then have "\<not> (\<exists>e. validateAleoAddr (sample_aleo_address[0 := CHR ''b'']) = Inl e)"
    "\<exists>e. validateAleoAddr (sample_aleo_address[5 := CHR ''g'']) = Inl e"
    using aleo_address_substitution [OF sample_address_valid, of 0 "CHR ''b''"]
      aleo_address_substitution [OF sample_address_valid, of 5 "CHR ''g''"] by simp_all
  then show ?thesis using validate_iff by (metis sum.exhaust)
qed

end
