(* ===== verification/TokenContract.thy ===== *)
theory TokenContract
  imports AleoAddress
begin

text \<open>
  The token contracts on Ethereum: \<open>solidity/contracts/main/tokenservice/TokenService.sol\<close> with
  \<open>base/tokenservice/TokenSupport.sol\<close>, \<open>main/tokenservice/BlackListService.sol\<close> and \<open>main/Holding.sol\<close>. A
  user hands tokens to the token service, which has the bridge dispatch a message; for a packet the
  bridge consumes, the service pays the receiver or puts the tokens into the holding contract.
\<close>

section \<open>Environment\<close>

text \<open>
  The tokens and the ether balances are a world \<open>'w\<close> that calls of other contracts change; \<open>SafeERC20\<close>
  reverts when a transfer fails, while sending ether reports a failure. Such a call returns without
  calling back, which is what the modifier \<open>nonReentrant\<close> is there for.
\<close>

record 'w outside =
  ot_safeTransfer :: "address \<Rightarrow> address \<Rightarrow> address \<Rightarrow> uint256 \<Rightarrow> 'w \<Rightarrow> 'w tx"
  ot_safeTransferFrom :: "address \<Rightarrow> address \<Rightarrow> address \<Rightarrow> address \<Rightarrow> uint256 \<Rightarrow> 'w \<Rightarrow> 'w tx"
  ot_send :: "address \<Rightarrow> address \<Rightarrow> uint256 \<Rightarrow> 'w \<Rightarrow> 'w option"
  ot_isBlacklisted :: "address \<Rightarrow> address \<Rightarrow> 'w \<Rightarrow> bool tx"
  ot_getBlackListStatus :: "address \<Rightarrow> address \<Rightarrow> 'w \<Rightarrow> bool tx"

definition ETH_TOKEN :: address where "ETH_TOKEN = 1"

text \<open>The address whose bytes a packet carries.\<close>

definition address_of :: "bytes \<Rightarrow> address" where
  "address_of b = of_nat (be_nat b)"

definition abi_address :: "address \<Rightarrow> bytes" where
  "abi_address a = be_bytes 20 (unat a)"

definition ownerOnly :: "'o openzeppelin \<Rightarrow> address \<Rightarrow> 'o \<Rightarrow> 'a tx \<Rightarrow> 'a tx" where
  "ownerOnly Z sender z body = (case oz_onlyOwner Z sender z of Inl e \<Rightarrow> Inl e | Inr u \<Rightarrow> body)"

definition notPaused :: "'o openzeppelin \<Rightarrow> 'o \<Rightarrow> 'a tx \<Rightarrow> 'a tx" where
  "notPaused Z z body = (case oz_whenNotPaused Z z of Inl e \<Rightarrow> Inl e | Inr u \<Rightarrow> body)"

text \<open>Checked addition of 256-bit numbers.\<close>

definition checked_add :: "uint256 \<Rightarrow> uint256 \<Rightarrow> (uint256 \<Rightarrow> 'a tx) \<Rightarrow> 'a tx" where
  "checked_add a b k = require (a \<le> a + b) ''panic 0x11'' (k (a + b))"

section \<open>Holding\<close>

datatype holding_event =
    Locked address address uint256
  | Unlocked address address uint256
  | Released address address uint256

record 'o holding =
  ho_oz :: 'o
  ho_locked :: "address \<Rightarrow> address \<Rightarrow> uint256"
  ho_unlocked :: "address \<Rightarrow> address \<Rightarrow> uint256"
  ho_supportedTokenServices :: "address \<Rightarrow> bool"
  ho_logs :: "holding_event list"

definition holding_deployed :: "'o \<Rightarrow> 'o holding" where
  "holding_deployed oz = \<lparr>ho_oz = oz, ho_locked = (\<lambda>u t. 0), ho_unlocked = (\<lambda>u t. 0),
     ho_supportedTokenServices = (\<lambda>a. False), ho_logs = []\<rparr>"

definition checkZeroAddress :: "address \<Rightarrow> 'a tx \<Rightarrow> 'a tx" where
  "checkZeroAddress addr body = require (addr \<noteq> 0) ''Holding: zero address'' body"

definition Holding_init :: "'o openzeppelin \<Rightarrow> address \<Rightarrow> address \<Rightarrow> address \<Rightarrow> 'o holding \<Rightarrow> 'o holding tx" where
  "Holding_init Z sender tokenService owner s =
     (case oz_initializer Z (ho_oz s) of Inl e \<Rightarrow> Inl e | Inr o1 \<Rightarrow>
     (case oz_Ownable_init Z sender o1 of Inl e \<Rightarrow> Inl e | Inr o2 \<Rightarrow>
     (case oz_Pausable_init Z o2 of Inl e \<Rightarrow> Inl e | Inr o3 \<Rightarrow>
        Inr (s\<lparr>ho_oz := oz_initialized Z (oz_transferOwnership Z owner o3),
               ho_supportedTokenServices := (ho_supportedTokenServices s)(tokenService := True)\<rparr>))))"

definition holding_addTokenService :: "'o openzeppelin \<Rightarrow> address \<Rightarrow> address \<Rightarrow> 'o holding \<Rightarrow> 'o holding tx" where
  "holding_addTokenService Z sender tokenService s =
     ownerOnly Z sender (ho_oz s) (checkZeroAddress tokenService
       (require (\<not> ho_supportedTokenServices s tokenService) ''Holding: known tokenService''
         (Inr (s\<lparr>ho_supportedTokenServices := (ho_supportedTokenServices s)(tokenService := True)\<rparr>))))"

definition holding_removeTokenService :: "'o openzeppelin \<Rightarrow> address \<Rightarrow> address \<Rightarrow> 'o holding \<Rightarrow> 'o holding tx" where
  "holding_removeTokenService Z sender tokenService s =
     ownerOnly Z sender (ho_oz s) (checkZeroAddress tokenService
       (require (ho_supportedTokenServices s tokenService) ''Holding: unKnown tokenService''
         (Inr (s\<lparr>ho_supportedTokenServices := (ho_supportedTokenServices s)(tokenService := False)\<rparr>))))"

text \<open>An update of one entry of a nested mapping.\<close>

definition upd2 :: "('a \<Rightarrow> 'b \<Rightarrow> 'c) \<Rightarrow> 'a \<Rightarrow> 'b \<Rightarrow> 'c \<Rightarrow> 'a \<Rightarrow> 'b \<Rightarrow> 'c" where
  "upd2 m a b v = m(a := (m a)(b := v))"

definition holding_lock :: "address \<Rightarrow> address \<Rightarrow> address \<Rightarrow> uint256 \<Rightarrow> 'o holding \<Rightarrow> 'o holding tx" where
  "holding_lock sender user token amount s =
     checkZeroAddress token (checkZeroAddress user
       (require (ho_supportedTokenServices s sender) ''Holding: unknown tokenService''
         (checked_add (ho_locked s user token) amount (\<lambda>v.
            Inr (s\<lparr>ho_locked := upd2 (ho_locked s) user token v, ho_logs := ho_logs s @ [Locked user token amount]\<rparr>)))))"

definition lock_token :: "address \<Rightarrow> address \<Rightarrow> address \<Rightarrow> uint256 \<Rightarrow> 'o holding \<Rightarrow> 'o holding tx" where
  "lock_token sender user token amount s =
     checkZeroAddress user
       (require (token \<noteq> ETH_TOKEN) ''Holding: eth token address''
         (require (0 < amount) ''Holding: zero amount'' (holding_lock sender user token amount s)))"

definition lock_eth :: "address \<Rightarrow> uint256 \<Rightarrow> address \<Rightarrow> 'o holding \<Rightarrow> 'o holding tx" where
  "lock_eth sender msg_value user s =
     require (0 < msg_value) ''Holding: requires eth transfer'' (holding_lock sender user ETH_TOKEN msg_value s)"

definition unlock :: "'o openzeppelin \<Rightarrow> address \<Rightarrow> address \<Rightarrow> address \<Rightarrow> uint256 \<Rightarrow> 'o holding \<Rightarrow> 'o holding tx" where
  "unlock Z sender user token amount s =
     ownerOnly Z sender (ho_oz s)
       (require (amount \<le> ho_locked s user token) ''Holding: insufficient amount''
         (checked_add (ho_unlocked s user token) amount (\<lambda>v.
            Inr (s\<lparr>ho_locked := upd2 (ho_locked s) user token (ho_locked s user token - amount),
                   ho_unlocked := upd2 (ho_unlocked s) user token v,
                   ho_logs := ho_logs s @ [Unlocked user token amount]\<rparr>))))"

definition holding_release :: "'o openzeppelin \<Rightarrow> address \<Rightarrow> address \<Rightarrow> 'o holding \<Rightarrow> (uint256 \<times> 'o holding) tx" where
  "holding_release Z user token s =
     notPaused Z (ho_oz s) (checkZeroAddress user
       (let amount = ho_unlocked s user token in
        Inr (amount, s\<lparr>ho_unlocked := upd2 (ho_unlocked s) user token 0,
                       ho_logs := ho_logs s @ [Released user token amount]\<rparr>)))"

definition release_token :: "'o openzeppelin \<Rightarrow> 'w outside \<Rightarrow> address \<Rightarrow> address \<Rightarrow> address \<Rightarrow> 'o holding \<times> 'w \<Rightarrow>
    ('o holding \<times> 'w) tx" where
  "release_token Z X me user token = (\<lambda>(s, w).
     checkZeroAddress token
       (require (token \<noteq> ETH_TOKEN) ''Holding: eth token Address''
         (case holding_release Z user token s of Inl e \<Rightarrow> Inl e | Inr (amount, s') \<Rightarrow>
         (case ot_safeTransfer X token me user amount w of Inl e \<Rightarrow> Inl e | Inr w' \<Rightarrow> Inr (s', w')))))"

definition release_eth :: "'o openzeppelin \<Rightarrow> 'w outside \<Rightarrow> address \<Rightarrow> address \<Rightarrow> 'o holding \<times> 'w \<Rightarrow>
    ('o holding \<times> 'w) tx" where
  "release_eth Z X me user = (\<lambda>(s, w).
     (case holding_release Z user ETH_TOKEN s of Inl e \<Rightarrow> Inl e | Inr (amount, s') \<Rightarrow>
     (case ot_send X me user amount w of None \<Rightarrow> Inl ''Holding: eth release failed'' | Some w' \<Rightarrow> Inr (s', w'))))"

section \<open>BlackListService\<close>

record 'o blacklist =
  bl_oz :: 'o
  bl_blackLists :: "address \<Rightarrow> bool"
  bl_usdc :: address
  bl_usdt :: address

definition BlackList_init :: "'o openzeppelin \<Rightarrow> address \<Rightarrow> address \<Rightarrow> address \<Rightarrow> address \<Rightarrow> 'o blacklist \<Rightarrow> 'o blacklist tx" where
  "BlackList_init Z sender usdc usdt owner s =
     (case oz_initializer Z (bl_oz s) of Inl e \<Rightarrow> Inl e | Inr o1 \<Rightarrow>
     (case oz_Ownable_init Z sender o1 of Inl e \<Rightarrow> Inl e | Inr o2 \<Rightarrow>
        Inr (s\<lparr>bl_oz := oz_initialized Z (oz_transferOwnership Z owner o2), bl_usdc := usdc, bl_usdt := usdt\<rparr>)))"

definition addToBlackList :: "'o openzeppelin \<Rightarrow> address \<Rightarrow> address \<Rightarrow> 'o blacklist \<Rightarrow> 'o blacklist tx" where
  "addToBlackList Z sender account s =
     ownerOnly Z sender (bl_oz s) (Inr (s\<lparr>bl_blackLists := (bl_blackLists s)(account := True)\<rparr>))"

definition removeFromBlackList :: "'o openzeppelin \<Rightarrow> address \<Rightarrow> address \<Rightarrow> 'o blacklist \<Rightarrow> 'o blacklist tx" where
  "removeFromBlackList Z sender account s =
     ownerOnly Z sender (bl_oz s) (Inr (s\<lparr>bl_blackLists := (bl_blackLists s)(account := False)\<rparr>))"

text \<open>The disjuncts are evaluated in turn, and the first true one ends it.\<close>

definition isBlackListed :: "'w outside \<Rightarrow> 'w \<Rightarrow> address \<Rightarrow> 'o blacklist \<Rightarrow> bool tx" where
  "isBlackListed X w account s =
     (if bl_blackLists s account then Inr True
      else case ot_isBlacklisted X (bl_usdc s) account w of
             Inl e \<Rightarrow> Inl e
           | Inr True \<Rightarrow> Inr True
           | Inr False \<Rightarrow> ot_getBlackListStatus X (bl_usdt s) account w)"

section \<open>TokenSupport\<close>

record token =
  tk_tokenAddress :: address
  tk_vault :: address
  tk_destTokenAddress :: string
  tk_destTokenService :: string
  tk_minValue :: uint256
  tk_maxValue :: uint256
  tk_enabled :: bool

definition zero_token :: token where
  "zero_token = \<lparr>tk_tokenAddress = 0, tk_vault = 0, tk_destTokenAddress = [], tk_destTokenService = [],
     tk_minValue = 0, tk_maxValue = 0, tk_enabled = False\<rparr>"

datatype token_event =
    TokenAdded token uint256
  | VaultUpdated address address address
  | TokenRemoved address uint256
  | TokenEnabled address uint256
  | TokenDisabled address uint256
  | TokenMinValueUpdated address uint256 uint256 uint256
  | TokenMaxValueUpdated address uint256 uint256 uint256

text \<open>The storage of the token service, its part from \<open>TokenSupport\<close> included.\<close>

record 'o token_service =
  ts_oz :: 'o
  ts_destChainId :: uint256
  ts_supportedTokens :: "address \<Rightarrow> token"
  ts_holding :: address
  ts_self :: sol_in_address
  ts_logs :: "token_event list"

definition isSupportedToken :: "address \<Rightarrow> 'o token_service \<Rightarrow> bool" where
  "isSupportedToken token s \<longleftrightarrow> tk_tokenAddress (ts_supportedTokens s token) \<noteq> 0"

definition isEnabledToken :: "address \<Rightarrow> 'o token_service \<Rightarrow> bool" where
  "isEnabledToken token s = tk_enabled (ts_supportedTokens s token)"

definition isAmountInRange :: "address \<Rightarrow> uint256 \<Rightarrow> 'o token_service \<Rightarrow> bool" where
  "isAmountInRange tokenAddress amount s =
     (let token = ts_supportedTokens s tokenAddress in tk_minValue token \<le> amount \<and> amount \<le> tk_maxValue token)"

definition log_token :: "token_event \<Rightarrow> 'o token_service \<Rightarrow> 'o token_service" where
  "log_token e s = s\<lparr>ts_logs := ts_logs s @ [e]\<rparr>"

definition set_token :: "address \<Rightarrow> token \<Rightarrow> 'o token_service \<Rightarrow> 'o token_service" where
  "set_token a token s = s\<lparr>ts_supportedTokens := (ts_supportedTokens s)(a := token)\<rparr>"

definition addToken :: "'o openzeppelin \<Rightarrow> address \<Rightarrow> address \<Rightarrow> uint256 \<Rightarrow> address \<Rightarrow> string \<Rightarrow> string \<Rightarrow> uint256 \<Rightarrow>
    uint256 \<Rightarrow> 'o token_service \<Rightarrow> 'o token_service tx" where
  "addToken Z sender tokenAddress destChainId vault destTokenAddress destTokenService mn mx s =
     ownerOnly Z sender (ts_oz s)
       (require (tokenAddress \<noteq> 0) ''TokenSupport: zero address''
       (require (\<not> isSupportedToken tokenAddress s) ''TokenSupport: token already supported''
       (require (destChainId = ts_destChainId s) ''TokenSupport: target chain mismatch''
         (let token = \<lparr>tk_tokenAddress = tokenAddress, tk_vault = vault, tk_destTokenAddress = destTokenAddress,
                       tk_destTokenService = destTokenService, tk_minValue = mn, tk_maxValue = mx, tk_enabled = True\<rparr>
          in Inr (log_token (TokenAdded token (ts_destChainId s)) (set_token tokenAddress token s))))))"

definition updateVault :: "'o openzeppelin \<Rightarrow> address \<Rightarrow> address \<Rightarrow> address \<Rightarrow> 'o token_service \<Rightarrow> 'o token_service tx" where
  "updateVault Z sender token vault s =
     ownerOnly Z sender (ts_oz s)
       (require (isSupportedToken token s) ''TokenSupport: token not supported''
         (let old = ts_supportedTokens s token in
          Inr (set_token token (old\<lparr>tk_vault := vault\<rparr>) (log_token (VaultUpdated token (tk_vault old) vault) s))))"

definition removeToken :: "'o openzeppelin \<Rightarrow> address \<Rightarrow> address \<Rightarrow> 'o token_service \<Rightarrow> 'o token_service tx" where
  "removeToken Z sender tokenAddress s =
     ownerOnly Z sender (ts_oz s)
       (require (isSupportedToken tokenAddress s) ''TokenSupport: token not supported''
         (Inr (set_token tokenAddress zero_token (log_token (TokenRemoved tokenAddress (ts_destChainId s)) s))))"

definition enable_token :: "'o openzeppelin \<Rightarrow> address \<Rightarrow> address \<Rightarrow> 'o token_service \<Rightarrow> 'o token_service tx" where
  "enable_token Z sender tokenAddress s =
     ownerOnly Z sender (ts_oz s)
       (require (isSupportedToken tokenAddress s) ''TokenSupport: token not supported''
       (require (\<not> isEnabledToken tokenAddress s) ''TokenSupport: token already enabled''
         (Inr (log_token (TokenEnabled tokenAddress (ts_destChainId s))
            (set_token tokenAddress ((ts_supportedTokens s tokenAddress)\<lparr>tk_enabled := True\<rparr>) s)))))"

definition disable_token :: "'o openzeppelin \<Rightarrow> address \<Rightarrow> address \<Rightarrow> 'o token_service \<Rightarrow> 'o token_service tx" where
  "disable_token Z sender tokenAddress s =
     ownerOnly Z sender (ts_oz s)
       (require (isSupportedToken tokenAddress s) ''TokenSupport: token not supported''
       (require (isEnabledToken tokenAddress s) ''TokenSupport: token already disabled''
         (Inr (log_token (TokenDisabled tokenAddress (ts_destChainId s))
            (set_token tokenAddress ((ts_supportedTokens s tokenAddress)\<lparr>tk_enabled := False\<rparr>) s)))))"

definition updateMinValue :: "'o openzeppelin \<Rightarrow> address \<Rightarrow> address \<Rightarrow> uint256 \<Rightarrow> 'o token_service \<Rightarrow> 'o token_service tx" where
  "updateMinValue Z sender tokenAddress minValue s =
     ownerOnly Z sender (ts_oz s)
       (require (isSupportedToken tokenAddress s) ''TokenSupport: token not supported''
         (let old = ts_supportedTokens s tokenAddress in
          Inr (set_token tokenAddress (old\<lparr>tk_minValue := minValue\<rparr>)
            (log_token (TokenMinValueUpdated tokenAddress (ts_destChainId s) (tk_minValue old) minValue) s))))"

definition updateMaxValue :: "'o openzeppelin \<Rightarrow> address \<Rightarrow> address \<Rightarrow> uint256 \<Rightarrow> 'o token_service \<Rightarrow> 'o token_service tx" where
  "updateMaxValue Z sender tokenAddress maxValue s =
     ownerOnly Z sender (ts_oz s)
       (require (isSupportedToken tokenAddress s) ''TokenSupport: token not supported''
         (let old = ts_supportedTokens s tokenAddress in
          Inr (set_token tokenAddress (old\<lparr>tk_maxValue := maxValue\<rparr>)
            (log_token (TokenMaxValueUpdated tokenAddress (ts_destChainId s) (tk_maxValue old) maxValue) s))))"

section \<open>TokenService\<close>

text \<open>
  The contracts together: the bridge and the black list the service was initialised with, the holding
  contracts by address, and the outside world. The service itself is at the address \<open>me\<close>.
\<close>

record ('o, 'w) system =
  sy_bridge :: "'o bridge"
  sy_service :: "'o token_service"
  sy_blacklist :: "'o blacklist"
  sy_holdings :: "address \<Rightarrow> 'o holding"
  sy_world :: 'w

definition TokenService_init :: "'o openzeppelin \<Rightarrow> address \<Rightarrow> address \<Rightarrow> address \<Rightarrow> uint256 \<Rightarrow> uint256 \<Rightarrow>
    'o token_service \<Rightarrow> 'o token_service tx" where
  "TokenService_init Z me sender owner chainId destChainId s =
     (case oz_initializer Z (ts_oz s) of Inl e \<Rightarrow> Inl e | Inr o1 \<Rightarrow>
     (case oz_Ownable_init Z sender o1 of Inl e \<Rightarrow> Inl e | Inr o2 \<Rightarrow>
     (case oz_Pausable_init Z o2 of Inl e \<Rightarrow> Inl e | Inr o3 \<Rightarrow>
        Inr (s\<lparr>ts_destChainId := destChainId,
               ts_self := \<lparr>si_chainId = chainId, si_addr = abi_address me\<rparr>,
               ts_oz := oz_initialized Z (oz_transferOwnership Z owner o3)\<rparr>))))"

definition setHolding :: "'o openzeppelin \<Rightarrow> address \<Rightarrow> address \<Rightarrow> 'o token_service \<Rightarrow> 'o token_service tx" where
  "setHolding Z sender holding s = ownerOnly Z sender (ts_oz s) (Inr (s\<lparr>ts_holding := holding\<rparr>))"

definition transferToVault :: "'o openzeppelin \<Rightarrow> 'w outside \<Rightarrow> address \<Rightarrow> address \<Rightarrow> address \<Rightarrow> uint256 \<Rightarrow>
    ('o, 'w) system \<Rightarrow> ('o, 'w) system tx" where
  "transferToVault Z X me sender token amount y =
     (let s = sy_service y; vault = tk_vault (ts_supportedTokens s token) in
      ownerOnly Z sender (ts_oz s)
        (require (isEnabledToken token s) ''TokenService: token not supported''
        (require (vault \<noteq> 0) ''TokenService: vault zero address''
          (if token = ETH_TOKEN then
             (case ot_send X me vault amount (sy_world y) of
                None \<Rightarrow> Inl ''TokenService: eth transfer failed''
              | Some w \<Rightarrow> Inr (y\<lparr>sy_world := w\<rparr>))
           else
             (case ot_safeTransfer X token me vault amount (sy_world y) of
                Inl e \<Rightarrow> Inl e
              | Inr w \<Rightarrow> Inr (y\<lparr>sy_world := w\<rparr>))))))"

text \<open>The fields a fresh packet does not get are zero. \<open>height\<close> is the number of the current block.\<close>

definition packetify :: "'w outside \<Rightarrow> address \<Rightarrow> uint256 \<Rightarrow> address \<Rightarrow> uint256 \<Rightarrow> string \<Rightarrow> ('o, 'w) system \<Rightarrow>
    sol_out_packet tx" where
  "packetify X sender height tokenAddress amount receiver y =
     (let s = sy_service y; token = ts_supportedTokens s tokenAddress in
      case isBlackListed X (sy_world y) sender (sy_blacklist y) of
        Inl e \<Rightarrow> Inl e
      | Inr listed \<Rightarrow>
          require (\<not> listed) ''TokenService: sender blacklisted''
          (require (isEnabledToken tokenAddress s) ''TokenService: token not supported''
          (require (isAmountInRange tokenAddress amount s) ''TokenService: amount out of range''
            (Inr \<lparr>sop_version = 0, sop_sequence = 0, sop_sourceTokenService = ts_self s,
                  sop_destTokenService = \<lparr>so_chainId = ts_destChainId s, so_addr = tk_destTokenService token\<rparr>,
                  sop_message = \<lparr>so_senderAddress = abi_address sender, so_destTokenAddress = tk_destTokenAddress token,
                                 so_amount = amount, so_receiverAddress = receiver\<rparr>,
                  sop_height = height\<rparr>))))"

definition send_packet :: "evm \<Rightarrow> 'o openzeppelin \<Rightarrow> address \<Rightarrow> sol_out_packet tx \<Rightarrow> ('o, 'w) system \<Rightarrow> ('o, 'w) system tx" where
  "send_packet EV Z me packet y =
     (case packet of Inl e \<Rightarrow> Inl e | Inr p \<Rightarrow>
     (case sendMessage EV Z me p (sy_bridge y) of Inl e \<Rightarrow> Inl e | Inr b \<Rightarrow> Inr (y\<lparr>sy_bridge := b\<rparr>)))"

definition valid_receiver :: "string \<Rightarrow> 'a tx \<Rightarrow> 'a tx" where
  "valid_receiver receiver body = (case validateAleoAddress receiver of Inl e \<Rightarrow> Inl e | Inr ok \<Rightarrow> require ok [] body)"

text \<open>\<open>transfer(receiver)\<close>: the ether is there when the function starts.\<close>

definition transfer_eth :: "evm \<Rightarrow> 'o openzeppelin \<Rightarrow> 'w outside \<Rightarrow> address \<Rightarrow> address \<Rightarrow> uint256 \<Rightarrow> uint256 \<Rightarrow> string \<Rightarrow>
    ('o, 'w) system \<Rightarrow> ('o, 'w) system tx" where
  "transfer_eth EV Z X me sender height msg_value receiver y =
     (case ot_send X sender me msg_value (sy_world y) of
        None \<Rightarrow> Inl ''insufficient funds''
      | Some w \<Rightarrow>
          (let y1 = y\<lparr>sy_world := w\<rparr> in
           notPaused Z (ts_oz (sy_service y))
             (valid_receiver receiver
               (send_packet EV Z me (packetify X sender height ETH_TOKEN msg_value receiver y1) y1))))"

definition transfer_token :: "evm \<Rightarrow> 'o openzeppelin \<Rightarrow> 'w outside \<Rightarrow> address \<Rightarrow> address \<Rightarrow> uint256 \<Rightarrow> address \<Rightarrow> uint256 \<Rightarrow>
    string \<Rightarrow> ('o, 'w) system \<Rightarrow> ('o, 'w) system tx" where
  "transfer_token EV Z X me sender height tokenAddress amount receiver y =
     notPaused Z (ts_oz (sy_service y))
       (valid_receiver receiver
         (require (tokenAddress \<noteq> ETH_TOKEN) ''TokenService: only erc20 tokens''
           (case ot_safeTransferFrom X tokenAddress me sender me amount (sy_world y) of
              Inl e \<Rightarrow> Inl e
            | Inr w \<Rightarrow>
                (let y1 = y\<lparr>sy_world := w\<rparr> in
                 send_packet EV Z me (packetify X sender height tokenAddress amount receiver y1) y1))))"

text \<open>\<open>receive\<close>: ether sent to the service without a call.\<close>

definition receive_eth :: "'o openzeppelin \<Rightarrow> 'w outside \<Rightarrow> address \<Rightarrow> address \<Rightarrow> uint256 \<Rightarrow> ('o, 'w) system \<Rightarrow> ('o, 'w) system tx" where
  "receive_eth Z X me sender msg_value y =
     (case ot_send X sender me msg_value (sy_world y) of
        None \<Rightarrow> Inl ''insufficient funds''
      | Some w \<Rightarrow> ownerOnly Z sender (ts_oz (sy_service y)) (Inr (y\<lparr>sy_world := w\<rparr>)))"

text \<open>The tokens of a packet go to the holding contract and are locked there for the receiver.\<close>

definition hold :: "'w outside \<Rightarrow> address \<Rightarrow> address \<Rightarrow> address \<Rightarrow> uint256 \<Rightarrow> ('o, 'w) system \<Rightarrow> ('o, 'w) system tx" where
  "hold X me receiver tokenAddress amount y =
     (let holding = ts_holding (sy_service y); h = sy_holdings y holding in
      if tokenAddress = ETH_TOKEN then
        (case ot_send X me holding amount (sy_world y) of
           None \<Rightarrow> Inl []
         | Some w \<Rightarrow>
             (case lock_eth me amount receiver h of
                Inl e \<Rightarrow> Inl e
              | Inr h' \<Rightarrow> Inr (y\<lparr>sy_world := w, sy_holdings := (sy_holdings y)(holding := h')\<rparr>)))
      else
        (case ot_safeTransfer X tokenAddress me holding amount (sy_world y) of
           Inl e \<Rightarrow> Inl e
         | Inr w \<Rightarrow>
             (case lock_token me receiver tokenAddress amount h of
                Inl e \<Rightarrow> Inl e
              | Inr h' \<Rightarrow> Inr (y\<lparr>sy_world := w, sy_holdings := (sy_holdings y)(holding := h')\<rparr>))))"

definition pay :: "'w outside \<Rightarrow> address \<Rightarrow> address \<Rightarrow> address \<Rightarrow> uint256 \<Rightarrow> ('o, 'w) system \<Rightarrow> ('o, 'w) system tx" where
  "pay X me receiver tokenAddress amount y =
     (if tokenAddress = ETH_TOKEN then
        (case ot_send X me receiver amount (sy_world y) of
           None \<Rightarrow> Inl ''TokenService: eth withdraw failed''
         | Some w \<Rightarrow> Inr (y\<lparr>sy_world := w\<rparr>))
      else
        (case ot_safeTransfer X tokenAddress me receiver amount (sy_world y) of
           Inl e \<Rightarrow> Inl e
         | Inr w \<Rightarrow> Inr (y\<lparr>sy_world := w\<rparr>)))"

definition withdraw :: "evm \<Rightarrow> 'o openzeppelin \<Rightarrow> 'w outside \<Rightarrow> address \<Rightarrow> sol_in_packet \<Rightarrow> bytes \<Rightarrow> ('o, 'w) system \<Rightarrow>
    ('o, 'w) system tx" where
  "withdraw EV Z X me packet signatures y =
     notPaused Z (ts_oz (sy_service y))
       (require (address_of (si_addr (sip_destTokenService packet)) = me) ''TokenService: invalid token service''
         (let receiver = address_of (sm_receiverAddress (sip_message packet));
              tokenAddress = address_of (sm_destTokenAddress (sip_message packet));
              amount = sm_amount (sip_message packet)
          in require (isEnabledToken tokenAddress (sy_service y)) ''TokenService: invalid token''
            (case consume EV Z me packet signatures (sy_bridge y) of
               Inl e \<Rightarrow> Inl e
             | Inr (quorum, b) \<Rightarrow>
                 (let y1 = y\<lparr>sy_bridge := b\<rparr> in
                  case (if quorum = NAY then Inr True else isBlackListed X (sy_world y1) receiver (sy_blacklist y1)) of
                    Inl e \<Rightarrow> Inl e
                  | Inr True \<Rightarrow> hold X me receiver tokenAddress amount y1
                  | Inr False \<Rightarrow>
                      if quorum = YEA then pay X me receiver tokenAddress amount y1
                      else Inl ''TokenService: insufficient quorum''))))"

end
