(* ===== verification/TokenProps.thy ===== *)
theory TokenProps
  imports BridgeProps TokenContract
begin

text \<open>
  What the token contracts guarantee: a packet is paid at most once and only when a quorum approved
  it, a transfer hands over the tokens exactly when its message is dispatched, and the holding
  contract pays out no more than was put into it.
\<close>

section \<open>Holding\<close>

text \<open>The amounts that events report for a user and a token, as natural numbers.\<close>

definition event_total :: "(holding_event \<Rightarrow> (address \<times> address \<times> uint256) option) \<Rightarrow> address \<Rightarrow> address \<Rightarrow> holding_event list \<Rightarrow> nat" where
  "event_total f u t es = sum_list (map (\<lambda>e. case f e of None \<Rightarrow> 0 | Some (v, k, n) \<Rightarrow> if v = u \<and> k = t then unat n else 0) es)"

fun is_locked :: "holding_event \<Rightarrow> (address \<times> address \<times> uint256) option" where
  "is_locked (Locked u t n) = Some (u, t, n)"
| "is_locked e = None"

fun is_released :: "holding_event \<Rightarrow> (address \<times> address \<times> uint256) option" where
  "is_released (Released u t n) = Some (u, t, n)"
| "is_released e = None"

lemma event_total_simps [simp]:
  "event_total f u t [] = 0" "event_total f u t (es @ fs) = event_total f u t es + event_total f u t fs"
  "event_total is_locked u t [Locked v k n] = (if v = u \<and> k = t then unat n else 0)"
  "event_total is_locked u t [Unlocked v k n] = 0" "event_total is_locked u t [Released v k n] = 0"
  "event_total is_released u t [Locked v k n] = 0" "event_total is_released u t [Unlocked v k n] = 0"
  "event_total is_released u t [Released v k n] = (if v = u \<and> k = t then unat n else 0)"
  by (simp_all add: event_total_def)

definition holding_inv :: "'o holding \<Rightarrow> bool" where
  "holding_inv s \<longleftrightarrow> (\<forall>u t. unat (ho_locked s u t) + unat (ho_unlocked s u t) + event_total is_released u t (ho_logs s) =
     event_total is_locked u t (ho_logs s))"

lemma holding_invD: "holding_inv s \<Longrightarrow>
    unat (ho_locked s u t) + unat (ho_unlocked s u t) + event_total is_released u t (ho_logs s) = event_total is_locked u t (ho_logs s)"
  by (simp add: holding_inv_def)

text \<open>The transactions of a holding contract, the transfers outside left out.\<close>

inductive holding_reachable :: "'o openzeppelin \<Rightarrow> 'o holding \<Rightarrow> bool" for Z where
  deploy: "holding_reachable Z (holding_deployed oz)"
| init: "holding_reachable Z s \<Longrightarrow> Holding_init Z sender ts owner s = Inr s' \<Longrightarrow> holding_reachable Z s'"
| add: "holding_reachable Z s \<Longrightarrow> holding_addTokenService Z sender ts s = Inr s' \<Longrightarrow> holding_reachable Z s'"
| remove: "holding_reachable Z s \<Longrightarrow> holding_removeTokenService Z sender ts s = Inr s' \<Longrightarrow> holding_reachable Z s'"
| lock_token: "holding_reachable Z s \<Longrightarrow> lock_token sender user token amount s = Inr s' \<Longrightarrow> holding_reachable Z s'"
| lock_eth: "holding_reachable Z s \<Longrightarrow> lock_eth sender v user s = Inr s' \<Longrightarrow> holding_reachable Z s'"
| unlock: "holding_reachable Z s \<Longrightarrow> unlock Z sender user token amount s = Inr s' \<Longrightarrow> holding_reachable Z s'"
| release: "holding_reachable Z s \<Longrightarrow> holding_release Z user token s = Inr (amount, s') \<Longrightarrow> holding_reachable Z s'"
| inherited: "holding_reachable Z s \<Longrightarrow> holding_reachable Z (s\<lparr>ho_oz := oz\<rparr>)"

lemmas holding_tx = require_def ownerOnly_def notPaused_def checkZeroAddress_def checked_add_def Let_def

lemma unat_add_checked: "a \<le> a + b \<Longrightarrow> unat (a + b) = unat a + unat b" for a b :: uint256
  by (simp add: unat_plus_simple [symmetric] word_le_nat_alt)

lemma upd2_apply: "upd2 m a b v x y = (if x = a \<and> y = b then v else m x y)"
  by (simp add: upd2_def)

lemma holding_lock_inv:
  assumes "holding_lock sender user token amount s = Inr s'" and "holding_inv s"
  shows "holding_inv s'"
proof -
  have le: "ho_locked s user token \<le> ho_locked s user token + amount"
    and s': "s' = s\<lparr>ho_locked := upd2 (ho_locked s) user token (ho_locked s user token + amount),
      ho_logs := ho_logs s @ [Locked user token amount]\<rparr>"
    using assms(1) by (auto simp: holding_lock_def holding_tx split: if_splits)
  show ?thesis
    unfolding holding_inv_def
  proof (intro allI)
    fix u t
    show "unat (ho_locked s' u t) + unat (ho_unlocked s' u t) + event_total is_released u t (ho_logs s') =
        event_total is_locked u t (ho_logs s')"
      using holding_invD [OF assms(2), of u t] unat_add_checked [OF le] by (auto simp: s' upd2_apply)
  qed
qed

lemma unlock_inv:
  assumes "unlock Z sender user token amount s = Inr s'" and "holding_inv s"
  shows "holding_inv s'"
proof -
  have c: "amount \<le> ho_locked s user token" "ho_unlocked s user token \<le> ho_unlocked s user token + amount"
    and s': "s' = s\<lparr>ho_locked := upd2 (ho_locked s) user token (ho_locked s user token - amount),
      ho_unlocked := upd2 (ho_unlocked s) user token (ho_unlocked s user token + amount),
      ho_logs := ho_logs s @ [Unlocked user token amount]\<rparr>"
    using assms(1) by (auto simp: unlock_def holding_tx split: if_splits sum.splits)
  have "unat (ho_locked s user token - amount) + unat amount = unat (ho_locked s user token)"
    using c(1) by (simp add: unat_sub word_le_nat_alt)
  then show ?thesis
    unfolding holding_inv_def
  proof (intro allI)
    fix u t
    show "unat (ho_locked s' u t) + unat (ho_unlocked s' u t) + event_total is_released u t (ho_logs s') =
        event_total is_locked u t (ho_logs s')"
      using holding_invD [OF assms(2), of u t] unat_add_checked [OF c(2)]
        \<open>unat (ho_locked s user token - amount) + unat amount = unat (ho_locked s user token)\<close>
      by (auto simp: s' upd2_apply)
  qed
qed

lemma release_inv:
  assumes "holding_release Z user token s = Inr (amount, s')" and "holding_inv s"
  shows "holding_inv s'"
  unfolding holding_inv_def
proof (intro allI)
  fix u t
  have s': "s' = s\<lparr>ho_unlocked := upd2 (ho_unlocked s) user token 0,
      ho_logs := ho_logs s @ [Released user token (ho_unlocked s user token)]\<rparr>"
    using assms(1) by (auto simp: holding_release_def holding_tx split: if_splits sum.splits)
  show "unat (ho_locked s' u t) + unat (ho_unlocked s' u t) + event_total is_released u t (ho_logs s') =
      event_total is_locked u t (ho_logs s')"
    using holding_invD [OF assms(2), of u t] by (auto simp: s' upd2_apply)
qed

lemma holding_inv_reachable: "holding_reachable Z s \<Longrightarrow> holding_inv s"
proof (induction rule: holding_reachable.induct)
  case (lock_token s sender user token amount s')
  then show ?case using holding_lock_inv [of sender user token amount s s']
    by (auto simp: lock_token_def require_def checkZeroAddress_def split: if_splits)
next
  case (lock_eth s sender v user s')
  then show ?case using holding_lock_inv [of sender user ETH_TOKEN v s s'] by (auto simp: lock_eth_def require_def split: if_splits)
qed (auto simp: holding_inv_def holding_deployed_def Holding_init_def holding_addTokenService_def
      holding_removeTokenService_def holding_tx split: if_splits sum.splits
    dest: unlock_inv release_inv)

text \<open>
  C18. The holding contract pays out what was put in. In every history of a holding contract, for every
  user and token, what is locked, what is unlocked and what was released add up to what was put in:
  no amount is lost to an overflow, released twice or released to another user.
\<close>

theorem holding_conserves:
  assumes "holding_reachable Z s"
  shows "unat (ho_locked s u t) + unat (ho_unlocked s u t) + event_total is_released u t (ho_logs s) =
    event_total is_locked u t (ho_logs s)"
  using holding_invD [OF holding_inv_reachable [OF assms]] .

section \<open>Withdrawals\<close>

text \<open>The ways a withdrawal succeeds.\<close>

lemma withdraw_cases:
  assumes "withdraw EV Z X me p sigs y = Inr y'"
  defines "receiver \<equiv> address_of (sm_receiverAddress (sip_message p))"
    and "token \<equiv> address_of (sm_destTokenAddress (sip_message p))" and "amount \<equiv> sm_amount (sip_message p)"
  obtains (paid) b where "consume EV Z me p sigs (sy_bridge y) = Inr (YEA, b)"
      "isBlackListed X (sy_world y) receiver (sy_blacklist y) = Inr False"
      "pay X me receiver token amount (y\<lparr>sy_bridge := b\<rparr>) = Inr y'"
  | (held) v b where "consume EV Z me p sigs (sy_bridge y) = Inr (v, b)"
      "v = NAY \<or> isBlackListed X (sy_world y) receiver (sy_blacklist y) = Inr True"
      "hold X me receiver token amount (y\<lparr>sy_bridge := b\<rparr>) = Inr y'"
proof -
  obtain v b where c: "consume EV Z me p sigs (sy_bridge y) = Inr (v, b)"
    and r: "(case (if v = NAY then Inr True else isBlackListed X (sy_world y) receiver (sy_blacklist y)) of
        Inl e \<Rightarrow> Inl e
      | Inr True \<Rightarrow> hold X me receiver token amount (y\<lparr>sy_bridge := b\<rparr>)
      | Inr False \<Rightarrow> if v = YEA then pay X me receiver token amount (y\<lparr>sy_bridge := b\<rparr>)
          else Inl ''TokenService: insufficient quorum'') = Inr y'"
    using assms(1) unfolding withdraw_def notPaused_def require_def Let_def receiver_def token_def amount_def
    by (auto split: sum.splits if_splits)
  show thesis
  proof (cases "v = NAY")
    case True
    then show thesis using r held c by simp
  next
    case False
    then show thesis
      using r c held paid by (cases "isBlackListed X (sy_world y) receiver (sy_blacklist y)") (auto split: bool.splits if_splits)
  qed
qed

lemma pay_bridge: "pay X me receiver token amount y = Inr y' \<Longrightarrow>
    sy_bridge y' = sy_bridge y \<and> sy_holdings y' = sy_holdings y \<and> sy_service y' = sy_service y \<and>
    (if token = ETH_TOKEN then ot_send X me receiver amount (sy_world y) = Some (sy_world y')
     else ot_safeTransfer X token me receiver amount (sy_world y) = Inr (sy_world y'))"
  by (auto simp: pay_def split: if_splits sum.splits option.splits)

lemma hold_bridge:
  assumes "hold X me receiver token amount y = Inr y'"
  defines "h \<equiv> ts_holding (sy_service y)"
  shows "sy_bridge y' = sy_bridge y \<and>
    (if token = ETH_TOKEN then ot_send X me h amount (sy_world y) = Some (sy_world y')
     else ot_safeTransfer X token me h amount (sy_world y) = Inr (sy_world y')) \<and>
    0 < amount \<and>
    unat (ho_locked (sy_holdings y' h) receiver token) = unat (ho_locked (sy_holdings y h) receiver token) + unat amount"
  using assms(1)
  by (auto simp: hold_def lock_eth_def lock_token_def holding_lock_def holding_tx h_def upd2_apply unat_add_checked
      split: if_splits sum.splits option.splits)

text \<open>
  C5. A packet is paid only when a quorum approved it. A successful withdrawal consumes the packet on
  the bridge and makes one transfer of the packet's amount of its token. It goes to the packet's
  receiver only if distinct attestors, as many as the quorum, signed for this packet, more signed for
  it than against it, and the receiver is on no black list. Otherwise it goes to the holding contract, where
  the receiver's locked amount grows by as much; then the vote was negative, or the receiver is
  on a black list, in which case the bridge need not have reached a decision.
\<close>

theorem withdraw_needs_quorum:
  assumes "withdraw EV Z X me p sigs y = Inr y'"
  defines "receiver \<equiv> address_of (sm_receiverAddress (sip_message p))"
    and "token \<equiv> address_of (sm_destTokenAddress (sip_message p))" and "amount \<equiv> sm_amount (sip_message p)"
    and "h \<equiv> ts_holding (sy_service y)"
  shows "br_consumedPackets (sy_bridge y') (sip_sequence p) = sol_hash (ev_keccak EV) p \<and>
    ((isBlackListed X (sy_world y) receiver (sy_blacklist y) = Inr False \<and> sy_holdings y' = sy_holdings y \<and>
      (if token = ETH_TOKEN then ot_send X me receiver amount (sy_world y) = Some (sy_world y')
       else ot_safeTransfer X token me receiver amount (sy_world y) = Inr (sy_world y')) \<and>
      (\<exists>Y. (\<forall>a \<in> Y. isAttestor a (sy_bridge y) \<and> (\<exists>i < length sigs div 65.
              recover EV (sol_hash (ev_keccak EV) p) (signatureSplit sigs i) YEA = a)) \<and>
           unat (br_quorumRequired (sy_bridge y)) \<le> card Y \<and> 0 < card Y)) \<or>
     ((isBlackListed X (sy_world y) receiver (sy_blacklist y) = Inr True \<or>
       (\<exists>b. consume EV Z me p sigs (sy_bridge y) = Inr (NAY, b))) \<and>
      (if token = ETH_TOKEN then ot_send X me h amount (sy_world y) = Some (sy_world y')
       else ot_safeTransfer X token me h amount (sy_world y) = Inr (sy_world y')) \<and>
      unat (ho_locked (sy_holdings y' h) receiver token) = unat (ho_locked (sy_holdings y h) receiver token) + unat amount))"
  using assms(1)
proof (cases rule: withdraw_cases)
  case (paid b)
  note p = pay_bridge [OF paid(3)]
  obtain Y N where "\<forall>a \<in> Y \<union> N. isAttestor a (sy_bridge y)"
    "\<forall>a \<in> Y. \<exists>i < length sigs div 65. recover EV (sol_hash (ev_keccak EV) p) (signatureSplit sigs i) YEA = a"
    "card N < card Y" "unat (br_quorumRequired (sy_bridge y)) \<le> card Y"
    using consume_votes [OF paid(1)] by blast
  then have "\<exists>Y. (\<forall>a \<in> Y. isAttestor a (sy_bridge y) \<and> (\<exists>i < length sigs div 65.
        recover EV (sol_hash (ev_keccak EV) p) (signatureSplit sigs i) YEA = a)) \<and>
      unat (br_quorumRequired (sy_bridge y)) \<le> card Y \<and> 0 < card Y"
    by (intro exI [of _ Y]) auto
  moreover have "br_consumedPackets b (sip_sequence p) = sol_hash (ev_keccak EV) p"
    by (simp add: consume_cases(4) [OF paid(1)] emit_def)
  ultimately show ?thesis using p paid(2) unfolding receiver_def token_def amount_def by auto
next
  case (held v b)
  have "br_consumedPackets b (sip_sequence p) = sol_hash (ev_keccak EV) p"
    by (simp add: consume_cases(4) [OF held(1)] emit_def)
  then show ?thesis
    using hold_bridge [OF held(3)] held(1,2) unfolding receiver_def token_def amount_def h_def by auto
qed

text \<open>
  Histories of the contracts, with the packets withdrawn. Besides withdrawals there are the
  transactions of the bridge by any sender, and whatever else happens to the token service, the
  black list, the holding contracts and the world outside.
\<close>

inductive withdrawals :: "evm \<Rightarrow> 'o openzeppelin \<Rightarrow> 'w outside \<Rightarrow> address \<Rightarrow> ('o, 'w) system \<Rightarrow> sol_in_packet list \<Rightarrow>
    ('o, 'w) system \<Rightarrow> bool" for EV Z X me y where
  start: "withdrawals EV Z X me y [] y"
| withdraw: "withdrawals EV Z X me y ps s \<Longrightarrow> withdraw EV Z X me p sigs s = Inr s' \<Longrightarrow> withdrawals EV Z X me y (ps @ [p]) s'"
| bridge: "withdrawals EV Z X me y ps s \<Longrightarrow> bridge_exec EV Z sender c (sy_bridge s) = Inr b \<Longrightarrow>
    withdrawals EV Z X me y ps (s\<lparr>sy_bridge := b\<rparr>)"
| inherited: "withdrawals EV Z X me y ps s \<Longrightarrow> withdrawals EV Z X me y ps (s\<lparr>sy_bridge := (sy_bridge s)\<lparr>br_oz := oz\<rparr>\<rparr>)"
| others: "withdrawals EV Z X me y ps s \<Longrightarrow> sy_bridge s' = sy_bridge s \<Longrightarrow> withdrawals EV Z X me y ps s'"

lemma consume_keeps:
  assumes "consume EV Z sender p sigs s = Inr (v, s')" and "isPacketConsumed n s"
  shows "isPacketConsumed n s' \<and> n \<noteq> sip_sequence p"
  using consume_cases(2,4) [OF assms(1)] assms(2) by (auto simp: isPacketConsumed_def emit_def)

lemma bridge_exec_keeps:
  assumes "bridge_exec EV Z sender c s = Inr s'" and "isPacketConsumed n s"
  shows "isPacketConsumed n s'"
  using assms(1)
proof (cases rule: bridge_exec_cases)
  case (packets p sigs v)
  then show ?thesis using consume_keeps assms(2) by blast
next
  case (message p)
  then show ?thesis using assms(2) by (simp add: sendMessage_cases(4) [OF message(2)] emit_def isPacketConsumed_def)
next
  case admin
  then show ?thesis using assms(2) by (simp add: same_packets_def isPacketConsumed_def)
qed

lemma withdraw_consumes:
  assumes "withdraw EV Z X me p sigs y = Inr y'"
  obtains v b where "consume EV Z me p sigs (sy_bridge y) = Inr (v, b)" "sy_bridge y' = b"
  using assms
proof (cases rule: withdraw_cases)
  case (paid b)
  then show thesis using that pay_bridge by fastforce
next
  case (held v b)
  then show thesis using that hold_bridge by fastforce
qed

text \<open>
  C6. No packet is withdrawn twice. In every history of the contracts, starting anywhere, the
  packets withdrawn have different sequence numbers, none of which was consumed before, as long as no
  packet hashes to zero; whatever is done to the other contracts does not change that.
\<close>

theorem withdrawn_once:
  assumes "withdrawals EV Z X me y ps y'" and "\<forall>p \<in> set ps. sol_hash (ev_keccak EV) p \<noteq> zero32"
  shows "distinct (map sip_sequence ps) \<and>
    (\<forall>p \<in> set ps. \<not> isPacketConsumed (sip_sequence p) (sy_bridge y) \<and> isPacketConsumed (sip_sequence p) (sy_bridge y'))"
proof -
  have "(\<forall>n. isPacketConsumed n (sy_bridge y) \<longrightarrow> isPacketConsumed n (sy_bridge y')) \<and> distinct (map sip_sequence ps) \<and>
      (\<forall>p \<in> set ps. \<not> isPacketConsumed (sip_sequence p) (sy_bridge y) \<and> isPacketConsumed (sip_sequence p) (sy_bridge y'))"
    using assms
  proof (induction rule: withdrawals.induct)
    case (withdraw ps s p sigs s')
    obtain v b where c: "consume EV Z me p sigs (sy_bridge s) = Inr (v, b)" "sy_bridge s' = b"
      using withdraw_consumes [OF withdraw.hyps(2)] by blast
    have fresh: "\<not> isPacketConsumed (sip_sequence p) (sy_bridge s)" by (rule consume_cases(2) [OF c(1)])
    have keeps: "isPacketConsumed n (sy_bridge s')" if "isPacketConsumed n (sy_bridge s)" for n
      using consume_keeps [OF c(1) that] c(2) by blast
    have new: "isPacketConsumed (sip_sequence p) (sy_bridge s')"
      using withdraw.prems by (simp add: c(2) consume_cases(4) [OF c(1)] isPacketConsumed_def emit_def)
    have IH: "(\<forall>n. isPacketConsumed n (sy_bridge y) \<longrightarrow> isPacketConsumed n (sy_bridge s)) \<and> distinct (map sip_sequence ps) \<and>
        (\<forall>p \<in> set ps. \<not> isPacketConsumed (sip_sequence p) (sy_bridge y) \<and> isPacketConsumed (sip_sequence p) (sy_bridge s))"
      using withdraw.IH withdraw.prems by simp
    then have "sip_sequence p \<notin> sip_sequence ` set ps" using fresh by auto
    then show ?case using IH keeps new fresh by auto
  next
    case (bridge ps s sender c b)
    then show ?case using bridge_exec_keeps [OF bridge.hyps(2)] by simp
  next
    case (inherited ps s oz)
    then show ?case by (simp add: isPacketConsumed_def)
  qed simp_all
  then show ?thesis by blast
qed

section \<open>Transfers\<close>

text \<open>
  The message of a transfer is on its way: the service accepts the token and the amount, the sender is
  on no black list, and the bridge has dispatched one message more, for the receiver and the amount.
\<close>

definition handed_over :: "'w outside \<Rightarrow> address \<Rightarrow> uint256 \<Rightarrow> address \<Rightarrow> uint256 \<Rightarrow> string \<Rightarrow> ('o, 'w) system \<Rightarrow> ('o, 'w) system \<Rightarrow> bool" where
  "handed_over X sender height token amount receiver y y' \<longleftrightarrow>
     validateAleoAddress receiver = Inr True \<and> isEnabledToken token (sy_service y) \<and>
     isAmountInRange token amount (sy_service y) \<and>
     isBlackListed X (sy_world y') sender (sy_blacklist y) = Inr False \<and>
     sy_service y' = sy_service y \<and> sy_holdings y' = sy_holdings y \<and>
     br_consumedPackets (sy_bridge y') = br_consumedPackets (sy_bridge y) \<and>
     (\<exists>q. sent_messages (br_logs (sy_bridge y')) = sent_messages (br_logs (sy_bridge y)) @ [q] \<and>
       sop_sequence q = br_sequence (sy_bridge y) + 1 \<and> sop_height q = height \<and>
       sop_sourceTokenService q = ts_self (sy_service y) \<and>
       sop_destTokenService q = \<lparr>so_chainId = ts_destChainId (sy_service y),
         so_addr = tk_destTokenService (ts_supportedTokens (sy_service y) token)\<rparr> \<and>
       sop_message q = \<lparr>so_senderAddress = abi_address sender,
         so_destTokenAddress = tk_destTokenAddress (ts_supportedTokens (sy_service y) token),
         so_amount = amount, so_receiverAddress = receiver\<rparr>)"

lemma send_packet_hands_over:
  assumes "valid_receiver receiver (send_packet EV Z me (packetify X sender height token amount receiver y1) y1) = Inr y'"
    and "y1 = y\<lparr>sy_world := w\<rparr>"
  shows "sy_world y' = w \<and> handed_over X sender height token amount receiver y y'"
proof -
  obtain q b where valid: "validateAleoAddress receiver = Inr True" and q: "packetify X sender height token amount receiver y1 = Inr q"
    and sent: "sendMessage EV Z me q (sy_bridge y) = Inr b" and y': "y' = y\<lparr>sy_world := w, sy_bridge := b\<rparr>"
    using assms by (auto simp: valid_receiver_def send_packet_def require_def split: sum.splits if_splits)
  have "sent_messages (br_logs b) = sent_messages (br_logs (sy_bridge y)) @
      [q\<lparr>sop_version := 1, sop_sequence := br_sequence (sy_bridge y) + 1\<rparr>]"
    "br_consumedPackets b = br_consumedPackets (sy_bridge y)"
    by (simp_all add: sendMessage_cases(4) [OF sent] emit_def)
  then show ?thesis
    using q valid unfolding handed_over_def packetify_def assms(2) y'
    by (auto simp: require_def Let_def split: sum.splits if_splits)
qed

text \<open>
  C17. A transfer takes the tokens exactly for a message. When a transfer succeeds, of ether or of a
  token, the user's amount has gone to the service and the bridge has dispatched one message with the
  next number, for this amount and a receiver whose address passed the check; the token was enabled,
  the amount in its range and the user on no black list. Otherwise the transaction reverts.
\<close>

theorem transfer_dispatches:
  "(transfer_eth EV Z X me sender height amount receiver y = Inr y' \<longrightarrow>
      ot_send X sender me amount (sy_world y) = Some (sy_world y') \<and>
      handed_over X sender height ETH_TOKEN amount receiver y y') \<and>
   (transfer_token EV Z X me sender height token amount receiver y = Inr y' \<longrightarrow>
      token \<noteq> ETH_TOKEN \<and> ot_safeTransferFrom X token me sender me amount (sy_world y) = Inr (sy_world y') \<and>
      handed_over X sender height token amount receiver y y')"
proof (intro conjI impI)
  assume run: "transfer_eth EV Z X me sender height amount receiver y = Inr y'"
  then obtain w where w: "ot_send X sender me amount (sy_world y) = Some w"
    and send: "valid_receiver receiver (send_packet EV Z me
      (packetify X sender height ETH_TOKEN amount receiver (y\<lparr>sy_world := w\<rparr>)) (y\<lparr>sy_world := w\<rparr>)) = Inr y'"
    by (auto simp: transfer_eth_def notPaused_def Let_def split: option.splits sum.splits)
  note over = send_packet_hands_over [OF send refl]
  show "ot_send X sender me amount (sy_world y) = Some (sy_world y')" using w over by simp
  show "handed_over X sender height ETH_TOKEN amount receiver y y'" using over by simp
next
  assume run: "transfer_token EV Z X me sender height token amount receiver y = Inr y'"
  then have ne: "token \<noteq> ETH_TOKEN" and valid: "validateAleoAddress receiver = Inr True"
    by (auto simp: transfer_token_def notPaused_def valid_receiver_def require_def split: sum.splits if_splits)
  obtain w where w: "ot_safeTransferFrom X token me sender me amount (sy_world y) = Inr w"
    and send: "send_packet EV Z me (packetify X sender height token amount receiver (y\<lparr>sy_world := w\<rparr>)) (y\<lparr>sy_world := w\<rparr>) = Inr y'"
    using run by (auto simp: transfer_token_def notPaused_def valid_receiver_def require_def Let_def split: sum.splits if_splits)
  have "valid_receiver receiver (send_packet EV Z me
      (packetify X sender height token amount receiver (y\<lparr>sy_world := w\<rparr>)) (y\<lparr>sy_world := w\<rparr>)) = Inr y'"
    using send valid by (simp add: valid_receiver_def require_def)
  note over = send_packet_hands_over [OF this refl]
  show "token \<noteq> ETH_TOKEN" by (rule ne)
  show "ot_safeTransferFrom X token me sender me amount (sy_world y) = Inr (sy_world y')" using w over by simp
  show "handed_over X sender height token amount receiver y y'" using over by simp
qed

section \<open>Examples\<close>

text \<open>A world that records the transfers.\<close>

definition demo_outside :: "(address \<times> address \<times> address \<times> uint256) list outside" where
  "demo_outside = \<lparr>ot_safeTransfer = (\<lambda>t a b n w. Inr (w @ [(t, a, b, n)])),
     ot_safeTransferFrom = (\<lambda>t m a b n w. Inr (w @ [(t, a, b, n)])),
     ot_send = (\<lambda>a b n w. Some (w @ [(ETH_TOKEN, a, b, n)])),
     ot_isBlacklisted = (\<lambda>c a w. Inr False), ot_getBlackListStatus = (\<lambda>c a w. Inr False)\<rparr>"

definition demo_token :: token where
  "demo_token = \<lparr>tk_tokenAddress = 2, tk_vault = 0, tk_destTokenAddress = ''t'', tk_destTokenService = ''s'',
     tk_minValue = 1, tk_maxValue = 100, tk_enabled = True\<rparr>"

definition demo_system :: "(unit, (address \<times> address \<times> address \<times> uint256) list) system" where
  "demo_system =
     \<lparr>sy_bridge = demo_bridge,
      sy_service = \<lparr>ts_oz = (), ts_destChainId = 9, ts_supportedTokens = (\<lambda>a. zero_token)(2 := demo_token), ts_holding = 6,
        ts_self = \<lparr>si_chainId = 1, si_addr = abi_address 7\<rparr>, ts_logs = []\<rparr>,
      sy_blacklist = \<lparr>bl_oz = (), bl_blackLists = (\<lambda>a. False), bl_usdc = 0, bl_usdt = 0\<rparr>,
      sy_holdings = (\<lambda>a. holding_deployed ()), sy_world = []\<rparr>"

definition demo_payment :: sol_in_packet where
  "demo_payment = demo_packet\<lparr>sip_destTokenService := \<lparr>si_chainId = 1, si_addr = abi_address 7\<rparr>,
     sip_message := \<lparr>sm_senderAddress = ''u'', sm_destTokenAddress = abi_address 2, sm_amount = 10,
                    sm_receiverAddress = abi_address 3\<rparr>\<rparr>"

lemma address_of_abi [simp]: "address_of (abi_address a) = a"
proof -
  have "unat a < 256 ^ 20" using unsigned_less [of a] by simp
  then show ?thesis by (simp add: address_of_def abi_address_def be_nat_be_bytes)
qed

lemma demo_withdraw:
  "withdraw demo_evm demo_oz demo_outside 7 demo_payment (concat demo_signatures) demo_system =
     Inr (demo_system\<lparr>sy_bridge := demo_consumed, sy_world := [(2, 7, 3, 10)]\<rparr>)"
proof -
  have c: "consume demo_evm demo_oz 7 demo_payment (concat demo_signatures) demo_bridge = Inr (YEA, demo_consumed)"
    by (rule demo_consume_at) (simp_all add: demo_payment_def demo_packet_def)
  have m: "address_of (si_addr (sip_destTokenService demo_payment)) = 7" "sm_amount (sip_message demo_payment) = 10"
    "address_of (sm_destTokenAddress (sip_message demo_payment)) = 2"
    "address_of (sm_receiverAddress (sip_message demo_payment)) = 3"
    by (simp_all add: demo_payment_def)
  have b: "sy_bridge demo_system = demo_bridge" by (simp add: demo_system_def)
  show ?thesis
    unfolding withdraw_def Let_def m b c
    by (simp add: notPaused_def require_def isEnabledToken_def isBlackListed_def pay_def demo_system_def demo_oz_def
        demo_outside_def demo_token_def ETH_TOKEN_def)
qed

theorem withdraw_needs_quorum_witness:
  "\<exists>Y. (\<forall>a \<in> Y. isAttestor a demo_bridge) \<and> 2 \<le> card Y"
proof -
  have "isBlackListed demo_outside (sy_world demo_system) a (sy_blacklist demo_system) = Inr False" for a
    by (simp add: isBlackListed_def demo_outside_def demo_system_def)
  moreover have "sy_bridge demo_system = demo_bridge" "unat (br_quorumRequired demo_bridge) = 2"
    by (simp_all add: demo_system_def demo_bridge_def)
  moreover have "consume demo_evm demo_oz 7 demo_payment (concat demo_signatures) demo_bridge = Inr (YEA, demo_consumed)"
    by (rule demo_consume_at) (simp_all add: demo_payment_def demo_packet_def)
  ultimately show ?thesis using withdraw_needs_quorum [OF demo_withdraw] by auto
qed

theorem withdrawn_once_witness:
  "\<not> isPacketConsumed 5 demo_bridge \<and> isPacketConsumed 5 demo_consumed"
proof -
  have "withdrawals demo_evm demo_oz demo_outside 7 demo_system ([] @ [demo_payment])
      (demo_system\<lparr>sy_bridge := demo_consumed, sy_world := [(2, 7, 3, 10)]\<rparr>)"
    by (rule withdrawals.withdraw [OF withdrawals.start demo_withdraw])
  moreover have "\<forall>p \<in> set ([] @ [demo_payment]). sol_hash (ev_keccak demo_evm) p \<noteq> zero32"
    using abi_uint256_zero [of 100] by (simp add: demo_hash demo_payment_def demo_packet_def)
  ultimately show ?thesis
    using withdrawn_once [of demo_evm demo_oz demo_outside 7 demo_system] by (fastforce simp: demo_payment_def demo_packet_def demo_system_def)
qed

lemma demo_transfer:
  "\<exists>y'. transfer_token demo_evm demo_oz demo_outside 7 3 50 2 10 sample_aleo_address demo_system = Inr y'"
  by (simp add: transfer_token_def notPaused_def valid_receiver_def validateAleoAddress_def sample_address_valid require_def
      send_packet_def packetify_def isBlackListed_def isEnabledToken_def isAmountInRange_def sendMessage_def send_message_def
      whenNotPaused_def isSupportedChain_def isRegisteredTokenService_def Let_def
      demo_oz_def demo_outside_def demo_system_def demo_token_def demo_bridge_def bridge_deployed_def ETH_TOKEN_def)

theorem transfer_dispatches_witness:
  "\<exists>y'. transfer_token demo_evm demo_oz demo_outside 7 3 50 2 10 sample_aleo_address demo_system = Inr y' \<and>
     sy_world y' = [(2, 3, 7, 10)] \<and> handed_over demo_outside 3 50 2 10 sample_aleo_address demo_system y'"
proof -
  obtain y' where y': "transfer_token demo_evm demo_oz demo_outside 7 3 50 2 10 sample_aleo_address demo_system = Inr y'"
    using demo_transfer by blast
  have "ot_safeTransferFrom demo_outside 2 7 3 7 10 (sy_world demo_system) = Inr [(2, 3, 7, 10)]"
    by (simp add: demo_outside_def demo_system_def)
  then show ?thesis
    using y' transfer_dispatches [of demo_evm demo_oz demo_outside 7 3 50 10 sample_aleo_address demo_system y' 2] by auto
qed

text \<open>A user for whom 10 was locked and 4 of it unlocked and released.\<close>

definition demo_holding :: "unit holding" where
  "demo_holding = \<lparr>ho_oz = (), ho_locked = upd2 (upd2 (\<lambda>u t. 0) 3 2 10) 3 2 6,
     ho_unlocked = upd2 (upd2 (\<lambda>u t. 0) 3 2 4) 3 2 0, ho_supportedTokenServices = (\<lambda>a. False)(7 := True),
     ho_logs = [Locked 3 2 10, Unlocked 3 2 4, Released 3 2 4]\<rparr>"

lemma demo_holding_reachable: "holding_reachable demo_oz demo_holding"
proof -
  let ?r = "holding_reachable demo_oz"
  define s1 where "s1 = (holding_deployed ())\<lparr>ho_supportedTokenServices := (\<lambda>a. False)(7 := True)\<rparr>"
  define s2 where "s2 = s1\<lparr>ho_locked := upd2 (\<lambda>u t. 0) 3 2 10, ho_logs := [Locked 3 2 10]\<rparr>"
  define s3 where "s3 = s2\<lparr>ho_locked := upd2 (ho_locked s2) 3 2 6, ho_unlocked := upd2 (\<lambda>u t. 0) 3 2 4,
    ho_logs := [Locked 3 2 10, Unlocked 3 2 4]\<rparr>"
  have "?r (holding_deployed ())" by (rule holding_reachable.deploy)
  then have "?r s1"
    by (rule holding_reachable.init [where sender = 0 and ts = 7 and owner = 0])
      (simp add: Holding_init_def demo_oz_def s1_def holding_deployed_def)
  then have "?r s2"
    by (rule holding_reachable.lock_token [where sender = 7 and user = 3 and token = 2 and amount = 10])
      (simp add: lock_token_def holding_lock_def holding_tx ETH_TOKEN_def s1_def s2_def holding_deployed_def)
  then have "?r s3"
    by (rule holding_reachable.unlock [where sender = 0 and user = 3 and token = 2 and amount = 4])
      (simp add: unlock_def holding_tx demo_oz_def s1_def s2_def s3_def holding_deployed_def upd2_apply)
  then show ?thesis
    by (rule holding_reachable.release [where user = 3 and token = 2 and amount = 4])
      (simp add: holding_release_def holding_tx demo_oz_def s1_def s2_def s3_def holding_deployed_def upd2_apply demo_holding_def)
qed

theorem holding_conserves_witness:
  "unat (ho_locked demo_holding 3 2) + unat (ho_unlocked demo_holding 3 2) + 4 = 10"
  using holding_conserves [OF demo_holding_reachable, of 3 2]
  by (simp add: demo_holding_def event_total_def)

end
