(* ===== verification/Spec2Isabelle.thy ===== *)
theory Spec2Isabelle
  imports Attestation ProxyProps RelayStart ConfigProps CollectorProps EndToEndProps EthBounds GapRepair Supervisor
    BridgeVotes BridgeFeed TokenProps
begin

text \<open>
  A model of the attestor of the Verulink bridge between Aleo and Ethereum, the Go programs under
  \<open>attestor/\<close>, and of the contracts on the Ethereum side, with the properties that make them correct.
  All paths below are relative to \<open>attestor/\<close>, those of the first part to \<open>attestor/chainService/\<close>,
  those of the contracts to \<open>solidity/contracts/\<close>.

  \<^bold>\<open>The program.\<close> The chain service reads the packets that the bridge contracts emit on their chain,
  waits until the block of a packet is old enough, screens the packet, has it hashed and signed by
  the signing service, and sends the signature to a collector, where the receiver of the packet
  fetches it for the contract of the destination chain. What was delivered, what is to be tried again and
  which packets were flagged is kept in a bbolt database, from which a restart continues. Each
  chain has a client with its own goroutines: one feeds packets into a shared channel, one feeds
  again what is to be retried, one prunes the delivered sequence numbers and refetches the gaps
  between them, one records the outcomes. The workers of the relay take packets off the channel.

  \<^bold>\<open>Basics.\<close> \<open>Prelude\<close> names the Go types (\<open>u64\<close>, \<open>bytes\<close>, \<open>bigint\<close> for \<open>*big.Int\<close>), errors and panics
  (\<open>gerror\<close>, with \<open>Panic\<close> for a run-time panic; \<open>'a res\<close> for a result or an error) and the facts on
  big-endian numbers. \<open>GoText\<close> has the functions of strconv, strings and math/big that the sources
  call, on their own texts; \<open>Json\<close> encoding/json (printer, parser with its nesting limit, the
  decoding of numbers, strings and structs) with the proof that what is printed is parsed back;
  \<open>Sha256\<close> and \<open>Keccak\<close> the hash functions, executable; \<open>Http\<close> the parts of net/url and net/http.

  \<^bold>\<open>Data and store.\<close>
  \<^item> \<open>Packets\<close>: \<open>chain/types.go\<close>, \<open>common/errors.go\<close>. \<open>PacketJson\<close>: the documents that are stored and
    exchanged. A packet that is stored and loaded again is the same but for its \<open>isMissed\<close> flag.
  \<^item> \<open>Bolt\<close>: \<open>store/bolt.go\<close> over the library, the record \<open>bolt\<close>. The locale \<open>bbolt\<close> states what the
    library promises (buckets are maps, cursors visit keys in order), \<open>bbolt_reliable\<close> that calls
    within the documented limits succeed, \<open>bbolt_cursor\<close> that \<open>Cursor.Next\<close> after a deletion goes on
    behind the deleted key; the association lists \<open>mem_bolt\<close> are an instance of all three.
  \<^item> \<open>Store\<close>, \<open>StoreProps\<close>: \<open>store/constraint.go\<close>, \<open>store/db.go\<close>. Storing refines the update of a map from
    sequence numbers to heights or packets; taking packets out returns the ones of the least numbers
    and removes exactly those; pruning deletes exactly the delivered run below its last number,
    reports the first gap, is idempotent and keeps the point a restart continues from.

  \<^bold>\<open>Chains.\<close>
  \<^item> \<open>EthClient\<close>: \<open>chain/ethereum/client.go\<close> and the structs of \<open>abi/BridgeBinding.go\<close>. The node is the
    record \<open>eth_node\<close>. One definition per handler: \<open>feed_tick\<close> for the loop of \<open>FeedPacket\<close> over the
    successive block numbers, \<open>eth_retryFeed\<close>, \<open>eth_pruneBaseSeqNum\<close> and \<open>eth_managePacket\<close> for one
    round of theirs. \<open>EthProps\<close> has the locale \<open>eth_logs\<close> (a node serves a chain of log entries):
    every packet of the matured blocks is fed exactly once and in order, and a gap is refilled
    exactly. \<open>EthLoops\<close>: the loops over block ranges are \<open>partial_function (option)\<close>, since their
    64-bit counter may wrap; they return for all heights up to \<open>2 ^ 64 - 102\<close>, and not at the top.
    The node is asked with the heights as \<open>int64\<close>, so what it answers is known below \<open>2 ^ 63\<close>.
    \<open>EthBounds\<close>: no request spans more than 101 blocks, wrap-around included.
  \<^item> \<open>AleoUtils\<close>, \<open>AleoParse\<close>: \<open>chain/aleo/utils.go\<close>. The parser reads back every packet from the text
    the ledger prints, and never panics. \<open>AleoClient\<close>: \<open>chain/aleo/client.go\<close>, \<open>chain/aleo/rpc/rpc.go\<close>; the
    endless \<open>feedPacket\<close> is a machine with one request per step. \<open>ClientProps\<close>: it feeds consecutive
    numbers, each matured; the locale \<open>outcome_recorder\<close> says what both \<open>managePacket\<close> do with outcomes.
    \<open>GapRepair\<close>: its pruning rounds meet the locale \<open>gap_repair\<close>, so repeated they close every gap, within
    as many rounds as the span of the delivered numbers and the missing ones among them.
  \<^item> \<open>Proxy\<close>, \<open>ProxyProps\<close>: \<open>attestor/proxy/main.go\<close>, the benchmark server. The Aleo client reads from it the
    packets it asks for, and makes progress; the collector client accepts none of its answers.

  \<^bold>\<open>Relay.\<close>
  \<^item> \<open>Screener\<close>, \<open>Signer\<close>, \<open>Collector\<close>, \<open>Relay\<close>: the packages under \<open>relay/\<close> and the two \<open>register.go\<close>.
    \<open>processPacket\<close> is written over the interfaces it uses, with the deferred function run on every
    way out, panics included. \<open>RelayProps\<close>: each packet has one outcome, completed exactly when the
    collector has its signature, and a retried one keeps its screening result (locale \<open>screening\<close>).
  \<^item> \<open>RelaySystem\<close>: the goroutines of a chain and the workers as a step relation \<open>relay_step\<close>, one database
    transaction at a time and in any interleaving. Invariant: every packet that was fed is held by
    a goroutine, recorded, or was pruned as delivered. \<open>RelayStart\<close>: \<open>StartRelay\<close> establishes it.
    \<open>CollectorProps\<close>: the wallets are polled in turn.
  \<^item> \<open>Supervisor\<close>: the loop of \<open>initPacketFeeder\<close> that starts \<open>FeedPacket\<close> for every client, the goroutines
    that starts, panics and cancelled contexts, as the step relation \<open>pool_step\<close>. Invariant: until the
    end each client is supervised exactly once, with exactly its goroutines.
  \<^item> \<open>Config\<close>, \<open>ConfigProps\<close>: \<open>config/config.go\<close>. \<open>Metrics\<close>: \<open>metrics/metrics.go\<close>. \<open>Logger\<close>: \<open>logger/logger.go\<close>.
    \<open>Attestor\<close>: \<open>main.go\<close>, \<open>signal.go\<close>.

  \<^bold>\<open>Signing service\<close> (\<open>attestor/signingService/\<close>).
  \<^item> \<open>EthSign\<close>: \<open>chain/ethereum/\<close>, beside the digest the contract recovers signers from
    (\<open>solidity/contracts/common/libraries/PacketLibrary.sol\<close>, \<open>base/bridge/ConsumedPacketManagerImpl.sol\<close>).
    The locale \<open>eth_hashing\<close> states what go-ethereum promises, with an instance on the real Keccak; on
    the packets of \<open>hash_test.go\<close> the model gives the hashes that test expects. \<open>EthSignProps\<close>: the two
    digests agree, and commit to all fields and the vote up to collisions.
  \<^item> \<open>SignService\<close>, \<open>SignProps\<close>: \<open>chain/aleo/\<close>, \<open>chain/chain.go\<close>, \<open>config/\<close>, \<open>serve.go\<close>, \<open>main.go\<close>.
  \<^item> \<open>Attestation\<close>: the relay's client against the service's handlers, up to the contract.

  \<^bold>\<open>Contracts\<close> (\<open>solidity/contracts/\<close>). A transaction yields the new storage or the reason of its revert;
  numbers are 256-bit words, additions checked where Solidity checks them.
  \<^item> \<open>BridgeContract\<close>: \<open>main/Bridge.sol\<close> with what it inherits from \<open>base/bridge/\<close> and \<open>common/Pausable.sol\<close>;
    \<open>bridge_exec\<close> is its interface, \<open>bridge_reachable\<close> its histories. \<open>BridgeProps\<close>: packets are consumed once and
    only for a quorum, messages get consecutive numbers, only the owner changes who takes part.
  \<^item> \<open>BridgeVotes\<close>: with the signing service, under the locale \<open>ecdsa\<close>: the approvals of a quorum make the
    contract consume the packet, one signed rejection keeps it from doing so. \<open>BridgeFeed\<close>: with the
    Ethereum client: the messages the contract dispatches are fed complete, in order, without gap.
  \<^item> \<open>AleoAddress\<close>: \<open>common/libraries/AleoAddressLibrary.sol\<close>; the check finds every wrong character but
    those of the prefix. \<open>TokenContract\<close>: \<open>main/tokenservice/TokenService.sol\<close>, \<open>base/tokenservice/TokenSupport.sol\<close>,
    \<open>main/tokenservice/BlackListService.sol\<close> (its two events left out) and \<open>main/Holding.sol\<close>. \<open>TokenProps\<close>:
    a packet is paid once and only if a quorum approved it, a transfer takes tokens exactly for a
    message, the holding contract pays out what was put in.

  \<^bold>\<open>End-to-end tests\<close> (\<open>attestor/e2etest/\<close>). \<open>EndToEnd\<close>: the configuration written for the relay, the clients
  of the tests, the flows and the main program, on a world \<open>e2e_world\<close> that commands, transactions
  and sleeps change. \<open>EndToEndProps\<close>: what the relay makes of that configuration, the ten attempts to
  get a receipt, and that the suite returns normally whatever its assertions find.

  \<^bold>\<open>Conventions.\<close> State is passed explicitly, the database as the argument \<open>d\<close>. What a handler does to
  the outside (a packet on a channel, a metric, a sleep) is in its list of \<open>effect\<close>s. Every error
  return and every panic of the sources is a value. A function that runs for ever is one round of its loop, and a
  run takes the list of what the environment answers in its rounds.

  \<^bold>\<open>Parameters.\<close> bbolt, the Ethereum node with the generated decoder, the HTTP servers and transports,
  the address functions and the signature scheme of go-ethereum, the program \<open>ahs\<close> that
  calls the Aleo library, the YAML decoder, the file system and the certificates; for the contracts
  OpenZeppelin, \<open>keccak256\<close> and \<open>ecrecover\<close>, the tokens and the transfer of ether. Hypotheses on
  them are the locales above, each with an instance.

  \<^bold>\<open>Not modelled.\<close> The generated bindings, 9,000 of the 14,000 Go lines, are wrappers that only call
  the abi package. Standard output, the texts of log lines, sampling of
  the logs and the transport of metrics have no influence on packets. TLS and the sockets belong to the
  libraries. The handlers run with a context that is not cancelled; what cancelling does to the
  goroutines is in \<open>Supervisor\<close>. Calls of other contracts do not call back: that is what \<open>nonReentrant\<close> is
  for. The upgrade of a contract, the second token service, the vaults, and the Leo programs on the
  Aleo side are not modelled.
\<close>

end
